theory Spec2Isabelle
  imports Main "HOL-Library.Sublist"
begin

section \<open>Python text\<close>

text \<open>
  A Python 3 \<^verbatim>\<open>str\<close> is a sequence of Unicode code points; it is modelled as the list of
  these code points. ASCII literals of the source are written as HOL strings and
  converted with \<open>ascii\<close>; the Japanese literals are written as their code points.
\<close>

type_synonym ustr = "nat list"

definition ascii :: "string \<Rightarrow> ustr" where
  "ascii s = map of_char s"

text \<open>
  \<^verbatim>\<open>str.isspace\<close> on one character; the same set is what \<^verbatim>\<open>\s\<close> matches in a \<^verbatim>\<open>str\<close>
  pattern and what \<^verbatim>\<open>str.strip()\<close> removes.
\<close>

definition is_space :: "nat \<Rightarrow> bool" where
  "is_space c \<longleftrightarrow>
     (9 \<le> c \<and> c \<le> 13) \<or> (28 \<le> c \<and> c \<le> 32) \<or> c = 133 \<or> c = 160 \<or> c = 5760 \<or>
     (8192 \<le> c \<and> c \<le> 8202) \<or> c = 8232 \<or> c = 8233 \<or> c = 8239 \<or> c = 8287 \<or> c = 12288"

text \<open>
  The decimal digits (general category Nd) come in blocks of ten consecutive code points,
  digit zero first. \<open>digit_zeros\<close> lists the code point of every block's zero
  (Unicode 14, the table of CPython 3.11). \<open>decimal\<close> is the digit's value, as
  \<^verbatim>\<open>unicodedata.decimal\<close> gives it; \<^verbatim>\<open>\d\<close> matches exactly the characters that have one.
\<close>

definition digit_zeros :: "nat list" where
  "digit_zeros =
     [0x30, 0x660, 0x6F0, 0x7C0, 0x966, 0x9E6, 0xA66, 0xAE6, 0xB66, 0xBE6, 0xC66, 0xCE6,
      0xD66, 0xDE6, 0xE50, 0xED0, 0xF20, 0x1040, 0x1090, 0x17E0, 0x1810, 0x1946, 0x19D0,
      0x1A80, 0x1A90, 0x1B50, 0x1BB0, 0x1C40, 0x1C50, 0xA620, 0xA8D0, 0xA900, 0xA9D0,
      0xA9F0, 0xAA50, 0xABF0, 0xFF10, 0x104A0, 0x10D30, 0x11066, 0x110F0, 0x11136,
      0x111D0, 0x112F0, 0x11450, 0x114D0, 0x11650, 0x116C0, 0x11730, 0x118E0, 0x11950,
      0x11C50, 0x11D50, 0x11DA0, 0x16A60, 0x16AC0, 0x16B50, 0x1D7CE, 0x1D7D8, 0x1D7E2,
      0x1D7EC, 0x1D7F6, 0x1E140, 0x1E2F0, 0x1E950, 0x1FBF0]"

definition decimal :: "nat \<Rightarrow> nat option" where
  "decimal c = map_option (\<lambda>z. c - z) (find (\<lambda>z. z \<le> c \<and> c < z + 10) digit_zeros)"

definition is_digit :: "nat \<Rightarrow> bool" where
  "is_digit c \<longleftrightarrow> decimal c \<noteq> None"

text \<open>\<^verbatim>\<open>s.strip()\<close>: leading and trailing white space removed.\<close>

definition strip :: "ustr \<Rightarrow> ustr" where
  "strip s = rev (dropWhile is_space (rev (dropWhile is_space s)))"

text \<open>\<^verbatim>\<open>needle in haystack\<close> on strings: the substring test.\<close>

fun py_in :: "ustr \<Rightarrow> ustr \<Rightarrow> bool" where
  "py_in needle [] = (needle = [])"
| "py_in needle (x # xs) = (prefix needle (x # xs) \<or> py_in needle xs)"

text \<open>\<^verbatim>\<open>s.replace(old, new)\<close> for a one-character \<^verbatim>\<open>old\<close>.\<close>

definition replace_chr :: "nat \<Rightarrow> ustr \<Rightarrow> ustr \<Rightarrow> ustr" where
  "replace_chr old new s = concat (map (\<lambda>x. if x = old then new else [x]) s)"

text \<open>
  \<^verbatim>\<open>int(s)\<close> on a string. Python's integers are unbounded. A non-empty string of decimal
  digits has the value of its digits read in base ten, from the left, unless it is longer
  than the limit of the interpreter on the conversion between \<^verbatim>\<open>str\<close> and \<^verbatim>\<open>int\<close>
  (\<^verbatim>\<open>sys.get_int_max_str_digits()\<close>, 4300 digits unless the interpreter was started
  otherwise): on a longer string \<^verbatim>\<open>int\<close> raises \<^verbatim>\<open>ValueError\<close>, and leading zeros count as
  digits. The other strings \<^verbatim>\<open>int\<close> accepts (a sign, surrounding white space, underscores
  between digits) contain a character that is not a digit, and this module only passes
  captures of \<^verbatim>\<open>(\d+)\<close>. On them and on every string \<^verbatim>\<open>int\<close> rejects the model gives \<open>None\<close>,
  which stands for \<^verbatim>\<open>ValueError\<close>.
\<close>

definition int_max_str_digits :: nat where
  "int_max_str_digits = 4300"

definition digits_value :: "ustr \<Rightarrow> int" where
  "digits_value s = foldl (\<lambda>acc c. 10 * acc + int (the (decimal c))) 0 s"

definition py_int :: "ustr \<Rightarrow> int option" where
  "py_int s =
     (if s \<noteq> [] \<and> list_all is_digit s \<and> length s \<le> int_max_str_digits
      then Some (digits_value s) else None)"

section \<open>Regular expressions of the module \<^verbatim>\<open>re\<close>\<close>

text \<open>
  The patterns of the extractors use: literal text, the classes \<^verbatim>\<open>\s\<close>, \<^verbatim>\<open>\d\<close>, \<^verbatim>\<open>.\<close> under
  \<^verbatim>\<open>(?s)\<close> and negated sets, the quantifiers \<^verbatim>\<open>*\<close>, \<^verbatim>\<open>+\<close>, \<^verbatim>\<open>*?\<close>, \<^verbatim>\<open>+?\<close> on one class,
  alternation, numbered groups, a back reference and \<^verbatim>\<open>$\<close>.
  \<open>Rep cl m greedy\<close> is the class \<open>cl\<close> repeated at least \<open>m\<close> times.
\<close>

datatype cls = AnyChar | Space | Digit | NoneOf "nat list"

fun cmatch :: "cls \<Rightarrow> nat \<Rightarrow> bool" where
  "cmatch AnyChar x = True"
| "cmatch Space x = is_space x"
| "cmatch Digit x = is_digit x"
| "cmatch (NoneOf xs) x = (x \<notin> set xs)"

datatype re =
    Str ustr
  | Atom cls
  | Rep cls nat bool
  | Seq re re
  | Alt re re
  | Grp nat re
  | Back nat
  | Eos

fun cat :: "re list \<Rightarrow> re" where
  "cat [] = Str []"
| "cat [r] = r"
| "cat (r # rs) = Seq r (cat rs)"

type_synonym caps = "nat \<Rightarrow> ustr option"

text \<open>
  The matcher is the backtracking matcher of \<^verbatim>\<open>re\<close> in continuation-passing style:
  \<open>mt r s c k\<close> matches \<open>r\<close> at the start of \<open>s\<close> with the groups \<open>c\<close> captured so far and
  hands the rest of the text and the groups to \<open>k\<close>; when \<open>k\<close> fails, the next way of
  matching \<open>r\<close> is tried, in the order of \<^verbatim>\<open>re\<close>: a greedy repetition tries the longest run
  first, a lazy one the shortest, an alternation its left branch.
\<close>

fun rep_greedy :: "cls \<Rightarrow> nat \<Rightarrow> ustr \<Rightarrow> (ustr \<Rightarrow> 'r option) \<Rightarrow> 'r option" where
  "rep_greedy cl m [] k = (if m = 0 then k [] else None)"
| "rep_greedy cl m (x # xs) k =
     (if cmatch cl x then
        (case rep_greedy cl (m - 1) xs k of
           Some r \<Rightarrow> Some r
         | None \<Rightarrow> if m = 0 then k (x # xs) else None)
      else if m = 0 then k (x # xs) else None)"

fun rep_lazy :: "cls \<Rightarrow> nat \<Rightarrow> ustr \<Rightarrow> (ustr \<Rightarrow> 'r option) \<Rightarrow> 'r option" where
  "rep_lazy cl m [] k = (if m = 0 then k [] else None)"
| "rep_lazy cl m (x # xs) k =
     (if m = 0 then
        (case k (x # xs) of
           Some r \<Rightarrow> Some r
         | None \<Rightarrow> if cmatch cl x then rep_lazy cl 0 xs k else None)
      else if cmatch cl x then rep_lazy cl (m - 1) xs k else None)"

fun mt :: "re \<Rightarrow> ustr \<Rightarrow> caps \<Rightarrow> (ustr \<Rightarrow> caps \<Rightarrow> 'r option) \<Rightarrow> 'r option" where
  "mt (Str w) s c k = (if prefix w s then k (drop (length w) s) c else None)"
| "mt (Atom cl) s c k =
     (case s of [] \<Rightarrow> None | x # xs \<Rightarrow> if cmatch cl x then k xs c else None)"
| "mt (Rep cl m greedy) s c k =
     (if greedy then rep_greedy cl m s (\<lambda>s'. k s' c) else rep_lazy cl m s (\<lambda>s'. k s' c))"
| "mt (Seq a b) s c k = mt a s c (\<lambda>s' c'. mt b s' c' k)"
| "mt (Alt a b) s c k = (case mt a s c k of Some r \<Rightarrow> Some r | None \<Rightarrow> mt b s c k)"
| "mt (Grp n r) s c k = mt r s c (\<lambda>s' c'. k s' (c'(n \<mapsto> take (length s - length s') s)))"
| "mt (Back n) s c k =
     (case c n of
        None \<Rightarrow> None
      | Some w \<Rightarrow> if prefix w s then k (drop (length w) s) c else None)"
| "mt Eos s c k = (if s = [] \<or> s = [10] then k s c else None)"

text \<open>
  \<^verbatim>\<open>re.match\<close>: the rest of the text after the match and the groups.
  \<^verbatim>\<open>re.search\<close>: the leftmost start at which the pattern matches; the result is the text
  before the match, the match (group 0), the text after it and the groups.
\<close>

definition re_match :: "re \<Rightarrow> ustr \<Rightarrow> (ustr \<times> caps) option" where
  "re_match r s = mt r s Map.empty (\<lambda>s' c. Some (s', c))"

fun scan :: "re \<Rightarrow> ustr \<Rightarrow> ustr \<Rightarrow> (ustr \<times> ustr \<times> ustr \<times> caps) option" where
  "scan r pre [] =
     (case re_match r [] of
        Some (s', c) \<Rightarrow> Some (pre, [], s', c)
      | None \<Rightarrow> None)"
| "scan r pre (x # xs) =
     (case re_match r (x # xs) of
        Some (s', c) \<Rightarrow> Some (pre, take (length (x # xs) - length s') (x # xs), s', c)
      | None \<Rightarrow> scan r (pre @ [x]) xs)"

definition re_search :: "re \<Rightarrow> ustr \<Rightarrow> (ustr \<times> ustr \<times> ustr \<times> caps) option" where
  "re_search r s = scan r [] s"

text \<open>
  \<^verbatim>\<open>re.finditer\<close> and \<^verbatim>\<open>re.sub\<close> search again in the text after each match. No pattern
  of this module looks behind the start of the search, so searching the rest is
  searching the whole text from that position. None of them matches the empty string
  either; the scan stops at a match that consumes nothing at the start of the text it
  searches, and how \<^verbatim>\<open>re\<close> goes on after an empty match is not modelled.
\<close>

function re_finditer :: "re \<Rightarrow> ustr \<Rightarrow> (ustr \<times> caps) list" where
  "re_finditer r s =
     (case re_search r s of
        None \<Rightarrow> []
      | Some (pre, m, post, c) \<Rightarrow>
          (m, c) # (if length post < length s then re_finditer r post else []))"
  by pat_completeness auto
termination
  by (relation "measure (\<lambda>(r, s). length s)") auto

function re_sub :: "re \<Rightarrow> ustr \<Rightarrow> ustr \<Rightarrow> ustr" where
  "re_sub r repl s =
     (case re_search r s of
        None \<Rightarrow> s
      | Some (pre, m, post, c) \<Rightarrow>
          pre @ repl @ (if length post < length s then re_sub r repl post else post))"
  by pat_completeness auto
termination
  by (relation "measure (\<lambda>(r, repl, s). length s)") auto

declare re_finditer.simps [simp del] re_sub.simps [simp del]

section \<open>The host framework\<close>

text \<open>
  An \<^verbatim>\<open>xml.etree.ElementTree\<close> element: its tag (a namespaced tag is \<^verbatim>\<open>{uri}name\<close>), its
  text (\<^verbatim>\<open>None\<close> when the element has none) and its children. \<open>iter\<close> lists an element and
  its descendants in document order. \<open>xml_find uri name root\<close> is
  \<^verbatim>\<open>root.find('.//d:name', {'d': uri})\<close>: the first descendant of the root, the root
  itself excluded, with that tag.
\<close>

datatype xml = Element (el_tag: ustr) (el_text: "ustr option") (el_children: "xml list")

fun iter :: "xml \<Rightarrow> xml list" where
  "iter (Element t x cs) = Element t x cs # concat (map iter cs)"

definition xml_find :: "ustr \<Rightarrow> ustr \<Rightarrow> xml \<Rightarrow> xml option" where
  "xml_find uri name root =
     find (\<lambda>e. el_tag e = ascii ''{'' @ uri @ ascii ''}'' @ name) (concat (map iter (el_children root)))"

text \<open>
  The exceptions of one call. \<open>ExtractorError msg expected\<close> is the framework's error with
  its \<^verbatim>\<open>expected\<close> flag; \<open>KeyError k\<close> is the failed lookup of \<open>k\<close> in a dictionary;
  \<open>AttributeError\<close> is the use of an attribute of \<^verbatim>\<open>None\<close>.
\<close>

datatype error =
    ExtractorError string bool
  | KeyError ustr
  | AttributeError
  | TypeError
  | IndexError

text \<open>
  The collaborators the extractors call and this module does not define, taken as
  parameters: \<^verbatim>\<open>_download_webpage_handle\<close> maps the requested URL to the decoded page and
  the URL the response finally came from, \<^verbatim>\<open>_download_xml\<close> maps the requested URL to the
  parsed document (either may raise), and \<^verbatim>\<open>clean_html\<close> maps a string to a string.
\<close>

record host =
  download_webpage_handle :: "ustr \<Rightarrow> error + (ustr \<times> ustr)"
  download_xml :: "ustr \<Rightarrow> error + xml"
  clean_html :: "ustr \<Rightarrow> ustr"

text \<open>
  Modelled from the spec: \<^verbatim>\<open>InfoExtractor._search_regex\<close> with \<^verbatim>\<open>default=None\<close>, which is not
  in this module. It scans for one occurrence of the pattern; on a match the result is the
  text of the pattern's group, and the absence of a match is not an error: the result is
  \<^verbatim>\<open>None\<close>. Every pattern passed to it here has exactly one group.
\<close>

definition search_regex :: "re \<Rightarrow> ustr \<Rightarrow> ustr option" where
  "search_regex pattern s =
     (case re_search pattern s of
        None \<Rightarrow> None
      | Some (pre, m, post, c) \<Rightarrow> c 1)"

text \<open>
  Modelled from the spec: \<^verbatim>\<open>utils.try_get\<close> with the expected type \<^verbatim>\<open>compat_str\<close>, which is not
  in this module. A lookup that finds nothing (an attribute of \<^verbatim>\<open>None\<close>, a missing key, a
  type or index error inside the getter) makes the value absent and is not an error; so
  does a value that is not a string. Any other exception of the getter goes through.
\<close>

definition try_get :: "'a \<Rightarrow> ('a \<Rightarrow> error + ustr option) \<Rightarrow> error + ustr option" where
  "try_get src getter =
     (case getter src of
        Inl (ExtractorError msg expected) \<Rightarrow> Inl (ExtractorError msg expected)
      | Inl _ \<Rightarrow> Inr None
      | Inr v \<Rightarrow> Inr v)"

text \<open>
  Modelled from the spec: \<^verbatim>\<open>utils.int_or_none\<close>, which is not in this module. The digits
  are parsed as an integer with \<^verbatim>\<open>int\<close>; the value is absent when there is nothing to parse
  and when \<^verbatim>\<open>int\<close> raises \<^verbatim>\<open>ValueError\<close>.
\<close>

fun int_or_none :: "ustr option \<Rightarrow> int option" where
  "int_or_none None = None"
| "int_or_none (Some v) = py_int v"

text \<open>\<^verbatim>\<open>d[k]\<close> on a dictionary.\<close>

type_synonym dict = "ustr \<rightharpoonup> ustr"

definition getitem :: "dict \<Rightarrow> ustr \<Rightarrow> error + ustr" where
  "getitem d k = (case d k of None \<Rightarrow> Inl (KeyError k) | Some v \<Rightarrow> Inr v)"

text \<open>\<^verbatim>\<open>m.group(n)\<close> of a match of \<open>re_finditer\<close>.\<close>

definition match_group :: "ustr \<times> caps \<Rightarrow> nat \<Rightarrow> ustr option" where
  "match_group g n = (if n = 0 then Some (fst g) else snd g n)"

section \<open>The result\<close>

record format =
  format_id :: ustr
  url :: ustr
  ext :: ustr
  protocol :: ustr

record info =
  id' :: ustr
  title :: ustr
  uploader_id :: "ustr option"
  description :: "ustr option"
  formats :: "format list"
  uploader :: ustr
  upload_date :: "ustr option"
  view_count :: "int option"
  like_count :: "int option"
  song_title :: ustr
  song_artist :: ustr

section \<open>The patterns of the extractors\<close>

text \<open>
  Both extractors use the same seven patterns, written here once.
  Lines 38 and 125: \<^verbatim>\<open>(?m)<div id="public_comment">\s*<p>\s*([^<]*?)\s*</p>\<close>. The flag \<^verbatim>\<open>(?m)\<close>
  changes \<^verbatim>\<open>^\<close> and \<^verbatim>\<open>$\<close> only, and the pattern has neither.
\<close>

definition description_re :: re where
  \<open>description_re =
     cat [Str (ascii ''<div id="public_comment">''), Rep Space 0 True, Str (ascii ''<p>''),
          Rep Space 0 True, Grp 1 (Rep (NoneOf (ascii ''<'')) 0 False), Rep Space 0 True,
          Str (ascii ''</p>'')]\<close>

text \<open>
  Lines 39 and 126:
  \<^verbatim>\<open><a href="https://www\.clubdam\.com/app/damtomo/member/info/Profile\.do\?damtomoId=([^"]+)"\<close>.
\<close>

definition uploader_id_re :: re where
  \<open>uploader_id_re =
     cat [Str (ascii ''<a href="https://www.clubdam.com/app/damtomo/member/info/Profile.do?damtomoId=''),
          Grp 1 (Rep (NoneOf (ascii ''"'')) 1 True), Str (ascii ''"'')]\<close>

text \<open>Lines 43 and 130: \<^verbatim>\<open>(?s)<(p|div)\s+class="([^" ]+?)">(.+?)</\1>\<close>.\<close>

definition field_re :: re where
  \<open>field_re =
     cat [Str (ascii ''<''), Grp 1 (Alt (Str (ascii ''p'')) (Str (ascii ''div''))),
          Rep Space 1 True, Str (ascii ''class="''),
          Grp 2 (Rep (NoneOf (ascii ''" '')) 1 False), Str (ascii ''">''),
          Grp 3 (Rep AnyChar 1 False), Str (ascii ''</''), Back 1, Str (ascii ''>'')]\<close>

text \<open>Lines 44 and 131: \<^verbatim>\<open>\s+\<close>.\<close>

definition spaces_re :: re where
  "spaces_re = Rep Space 1 True"

text \<open>Lines 48 and 135: \<^verbatim>\<open>\s*\<close>, U+3055, U+3093, \<^verbatim>\<open>\s*$\<close>.\<close>

definition suffix_re :: re where
  "suffix_re = cat [Rep Space 0 True, Str [12373, 12435], Rep Space 0 True, Eos]"

text \<open>Lines 72 and 159: \<^verbatim>\<open>(\d\d\d\d/\d\d/\d\d)\<close>.\<close>

definition date_re :: re where
  "date_re =
     Grp 1 (cat [Atom Digit, Atom Digit, Atom Digit, Atom Digit, Str (ascii ''/''),
                 Atom Digit, Atom Digit, Str (ascii ''/''), Atom Digit, Atom Digit])"

text \<open>Lines 73, 74, 160 and 161: \<^verbatim>\<open>(\d+)\<close>.\<close>

definition digits_re :: re where
  "digits_re = Grp 1 (Rep Digit 1 True)"

section \<open>\<^verbatim>\<open>DamtomoVideoIE._real_extract\<close>\<close>

text \<open>
  Lines 43 and 44 of the source: the dictionary of the labelled blocks, with the patterns
  \<open>field_re\<close> and \<open>spaces_re\<close>. Groups 2 and 3 take part in every match of the first, so \<^verbatim>\<open>g.group(2)\<close> and \<^verbatim>\<open>g.group(3)\<close> are strings. The first
  comprehension writes the matches in source order, a later one over an earlier one with
  the same key; the second keeps the entries with a non-empty value.
\<close>

definition DamtomoVideoIE_data_dict :: "(ustr \<Rightarrow> ustr) \<Rightarrow> ustr \<Rightarrow> dict" where
  \<open>DamtomoVideoIE_data_dict clean webpage =
     (let data_dict = foldl
            (\<lambda>d g. case (match_group g 2, match_group g 3) of
                     (Some k, Some v) \<Rightarrow> d(k \<mapsto> clean v)
                   | _ \<Rightarrow> d)
            Map.empty
            (re_finditer field_re webpage)
      in (\<lambda>k. case data_dict k of
                None \<Rightarrow> None
              | Some v \<Rightarrow> if v \<noteq> [] then Some (re_sub spaces_re (ascii '' '') v)
                          else None))\<close>

text \<open>
  Line 48: the new value of \<^verbatim>\<open>data_dict['user_name']\<close>, with the pattern \<open>suffix_re\<close>.
\<close>

definition DamtomoVideoIE_user_name :: "ustr \<Rightarrow> ustr" where
  "DamtomoVideoIE_user_name user_name =
     re_sub suffix_re [] user_name"

text \<open>
  Lines 38 to 49: the two optional fields, the dictionary, the user name without its suffix,
  and the title, with the patterns \<open>description_re\<close> and \<open>uploader_id_re\<close>.
\<close>

definition DamtomoVideoIE_scrape ::
  "(ustr \<Rightarrow> ustr) \<Rightarrow> ustr \<Rightarrow> error + (ustr option \<times> ustr option \<times> dict \<times> ustr)" where
  \<open>DamtomoVideoIE_scrape clean webpage =
     (let description = search_regex description_re webpage;
          uploader_id = search_regex uploader_id_re webpage;
          data_dict = DamtomoVideoIE_data_dict clean webpage
      in case getitem data_dict (ascii ''user_name'') of
           Inl e \<Rightarrow> Inl e
         | Inr user_name \<Rightarrow>
             (let data_dict = data_dict(ascii ''user_name'' \<mapsto> DamtomoVideoIE_user_name user_name)
              in case getitem data_dict (ascii ''song_title'') of
                   Inl e \<Rightarrow> Inl e
                 | Inr t \<Rightarrow>
                     (case getitem data_dict (ascii ''song_artist'') of
                        Inl e \<Rightarrow> Inl e
                      | Inr a \<Rightarrow>
                          (case getitem data_dict (ascii ''user_name'') of
                             Inl e \<Rightarrow> Inl e
                           | Inr u \<Rightarrow>
                               Inr (description, uploader_id, data_dict,
                                    t @ ascii ''-'' @ a @ ascii ''-'' @ u)))))\<close>

text \<open>
  Lines 54 to 56: the text of the first \<^verbatim>\<open>streamingUrl\<close> element in the name space of the
  request, stripped. \<^verbatim>\<open>find\<close> gives \<^verbatim>\<open>None\<close> when there is no such element, and \<^verbatim>\<open>.text\<close>
  is \<^verbatim>\<open>None\<close> for an element without text; both make the getter raise \<^verbatim>\<open>AttributeError\<close>.
\<close>

definition DamtomoVideoIE_m3u8_url :: "xml \<Rightarrow> error + ustr option" where
  "DamtomoVideoIE_m3u8_url stream_tree =
     try_get stream_tree
       (\<lambda>x. case xml_find (ascii ''https://www.clubdam.com/app/damtomo/karaokeMovie/GetStreamingDkmUrlXML'')
                     (ascii ''streamingUrl'') x of
               None \<Rightarrow> Inl AttributeError
             | Some e \<Rightarrow>
                 (case el_text e of
                    None \<Rightarrow> Inl AttributeError
                  | Some t \<Rightarrow> Inr (Some (strip t))))"

text \<open>
  Lines 60 to 77: the returned dictionary; its values are evaluated in the order they are
  written, with the patterns \<open>date_re\<close> and \<open>digits_re\<close>.
\<close>

definition DamtomoVideoIE_assemble ::
  "ustr \<Rightarrow> ustr \<Rightarrow> ustr option \<Rightarrow> ustr option \<Rightarrow> dict \<Rightarrow> ustr \<Rightarrow> error + info" where
  "DamtomoVideoIE_assemble video_id title' uploader_id' description' data_dict m3u8_url =
     (case getitem data_dict (ascii ''user_name'') of
        Inl e \<Rightarrow> Inl e
      | Inr user_name \<Rightarrow>
     (case try_get data_dict
             (\<lambda>x. case getitem x (ascii ''date'') of
                     Inl e \<Rightarrow> Inl e
                   | Inr d \<Rightarrow>
                       (case search_regex date_re d of
                          None \<Rightarrow> Inl AttributeError
                        | Some v \<Rightarrow> Inr (Some (replace_chr (of_char CHR ''/'') [] v)))) of
        Inl e \<Rightarrow> Inl e
      | Inr upload_date' \<Rightarrow>
     (case getitem data_dict (ascii ''audience'') of
        Inl e \<Rightarrow> Inl e
      | Inr audience \<Rightarrow>
     (case getitem data_dict (ascii ''nice'') of
        Inl e \<Rightarrow> Inl e
      | Inr nice \<Rightarrow>
     (case getitem data_dict (ascii ''song_title'') of
        Inl e \<Rightarrow> Inl e
      | Inr song_title' \<Rightarrow>
     (case getitem data_dict (ascii ''song_artist'') of
        Inl e \<Rightarrow> Inl e
      | Inr song_artist' \<Rightarrow>
          Inr \<lparr> id' = video_id,
                title = title',
                uploader_id = uploader_id',
                description = description',
                formats = [\<lparr> format_id = ascii ''hls'', url = m3u8_url, ext = ascii ''mp4'',
                             protocol = ascii ''m3u8_native'' \<rparr>],
                uploader = user_name,
                upload_date = upload_date',
                view_count = int_or_none (search_regex digits_re audience),
                like_count = int_or_none (search_regex digits_re nice),
                song_title = song_title',
                song_artist = song_artist' \<rparr>))))))"

text \<open>
  The whole call, from the resource id that \<^verbatim>\<open>_match_id\<close> took from the URL. The first
  component of the result lists the URLs requested, in order; the second is the exception
  raised or the dictionary returned. The marker of the server's error page is
  \<^verbatim>\<open><h2>\<close>, U+4E88 U+671F U+305B U+306C U+30A8 U+30E9 U+30FC U+304C U+767A U+751F U+3057
  U+307E U+3057 U+305F U+3002, \<^verbatim>\<open></h2>\<close>.
\<close>

definition DamtomoVideoIE_real_extract :: "host \<Rightarrow> ustr \<Rightarrow> ustr list \<times> (error + info)" where
  "DamtomoVideoIE_real_extract h video_id =
     (let page_url = ascii ''https://www.clubdam.com/app/damtomo/karaokeMovie/StreamingDkm.do?karaokeMovieId='' @ video_id
      in case download_webpage_handle h page_url of
           Inl e \<Rightarrow> ([page_url], Inl e)
         | Inr (webpage, handle_url) \<Rightarrow>
             if handle_url = ascii ''https://www.clubdam.com/sorry/'' then
               ([page_url], Inl (ExtractorError ''You are rate-limited. Try again later.'' True))
             else if py_in (ascii ''<h2>'' @
                            [20104, 26399, 12379, 12396, 12456, 12521, 12540, 12364, 30330, 29983,
                             12375, 12414, 12375, 12383, 12290] @ ascii ''</h2>'') webpage then
               ([page_url],
                Inl (ExtractorError ''There is an error on server-side. Try again later.'' True))
             else
               (case DamtomoVideoIE_scrape (clean_html h) webpage of
                  Inl e \<Rightarrow> ([page_url], Inl e)
                | Inr (description', uploader_id', data_dict, title') \<Rightarrow>
                    (let xml_url = ascii ''https://www.clubdam.com/app/damtomo/karaokeMovie/GetStreamingDkmUrlXML.do?movieSelectFlg=2&karaokeMovieId='' @ video_id
                     in case download_xml h xml_url of
                          Inl e \<Rightarrow> ([page_url, xml_url], Inl e)
                        | Inr stream_tree \<Rightarrow>
                            (case DamtomoVideoIE_m3u8_url stream_tree of
                               Inl e \<Rightarrow> ([page_url, xml_url], Inl e)
                             | Inr None \<Rightarrow>
                                 ([page_url, xml_url],
                                  Inl (ExtractorError ''Failed to obtain m3u8 URL'' False))
                             | Inr (Some m3u8_url) \<Rightarrow>
                                 if m3u8_url = [] then
                                   ([page_url, xml_url],
                                    Inl (ExtractorError ''Failed to obtain m3u8 URL'' False))
                                 else
                                   ([page_url, xml_url],
                                    DamtomoVideoIE_assemble video_id title' uploader_id' description'
                                      data_dict m3u8_url)))))"

section \<open>\<^verbatim>\<open>DamtomoRecordIE._real_extract\<close>\<close>

text \<open>
  Lines 130 and 131 of the source: the dictionary of the labelled blocks, with the patterns
  \<open>field_re\<close> and \<open>spaces_re\<close>. Groups 2 and 3 take part in every match of the first, so \<^verbatim>\<open>g.group(2)\<close> and \<^verbatim>\<open>g.group(3)\<close> are strings. The first
  comprehension writes the matches in source order, a later one over an earlier one with
  the same key; the second keeps the entries with a non-empty value.
\<close>

definition DamtomoRecordIE_data_dict :: "(ustr \<Rightarrow> ustr) \<Rightarrow> ustr \<Rightarrow> dict" where
  \<open>DamtomoRecordIE_data_dict clean webpage =
     (let data_dict = foldl
            (\<lambda>d g. case (match_group g 2, match_group g 3) of
                     (Some k, Some v) \<Rightarrow> d(k \<mapsto> clean v)
                   | _ \<Rightarrow> d)
            Map.empty
            (re_finditer field_re webpage)
      in (\<lambda>k. case data_dict k of
                None \<Rightarrow> None
              | Some v \<Rightarrow> if v \<noteq> [] then Some (re_sub spaces_re (ascii '' '') v)
                          else None))\<close>

text \<open>
  Line 135: the new value of \<^verbatim>\<open>data_dict['user_name']\<close>, with the pattern \<open>suffix_re\<close>.
\<close>

definition DamtomoRecordIE_user_name :: "ustr \<Rightarrow> ustr" where
  "DamtomoRecordIE_user_name user_name =
     re_sub suffix_re [] user_name"

text \<open>
  Lines 125 to 136: the two optional fields, the dictionary, the user name without its suffix,
  and the title, with the patterns \<open>description_re\<close> and \<open>uploader_id_re\<close>.
\<close>

definition DamtomoRecordIE_scrape ::
  "(ustr \<Rightarrow> ustr) \<Rightarrow> ustr \<Rightarrow> error + (ustr option \<times> ustr option \<times> dict \<times> ustr)" where
  \<open>DamtomoRecordIE_scrape clean webpage =
     (let description = search_regex description_re webpage;
          uploader_id = search_regex uploader_id_re webpage;
          data_dict = DamtomoRecordIE_data_dict clean webpage
      in case getitem data_dict (ascii ''user_name'') of
           Inl e \<Rightarrow> Inl e
         | Inr user_name \<Rightarrow>
             (let data_dict = data_dict(ascii ''user_name'' \<mapsto> DamtomoRecordIE_user_name user_name)
              in case getitem data_dict (ascii ''song_title'') of
                   Inl e \<Rightarrow> Inl e
                 | Inr t \<Rightarrow>
                     (case getitem data_dict (ascii ''song_artist'') of
                        Inl e \<Rightarrow> Inl e
                      | Inr a \<Rightarrow>
                          (case getitem data_dict (ascii ''user_name'') of
                             Inl e \<Rightarrow> Inl e
                           | Inr u \<Rightarrow>
                               Inr (description, uploader_id, data_dict,
                                    t @ ascii ''-'' @ a @ ascii ''-'' @ u)))))\<close>

text \<open>
  Lines 141 to 143: the text of the first \<^verbatim>\<open>streamingUrl\<close> element in the name space of the
  request, stripped. \<^verbatim>\<open>find\<close> gives \<^verbatim>\<open>None\<close> when there is no such element, and \<^verbatim>\<open>.text\<close>
  is \<^verbatim>\<open>None\<close> for an element without text; both make the getter raise \<^verbatim>\<open>AttributeError\<close>.
\<close>

definition DamtomoRecordIE_m3u8_url :: "xml \<Rightarrow> error + ustr option" where
  "DamtomoRecordIE_m3u8_url stream_tree =
     try_get stream_tree
       (\<lambda>x. case xml_find (ascii ''https://www.clubdam.com/app/damtomo/karaokePost/GetStreamingKrkUrlXML'')
                     (ascii ''streamingUrl'') x of
               None \<Rightarrow> Inl AttributeError
             | Some e \<Rightarrow>
                 (case el_text e of
                    None \<Rightarrow> Inl AttributeError
                  | Some t \<Rightarrow> Inr (Some (strip t))))"

text \<open>
  Lines 147 to 164: the returned dictionary; its values are evaluated in the order they are
  written, with the patterns \<open>date_re\<close> and \<open>digits_re\<close>.
\<close>

definition DamtomoRecordIE_assemble ::
  "ustr \<Rightarrow> ustr \<Rightarrow> ustr option \<Rightarrow> ustr option \<Rightarrow> dict \<Rightarrow> ustr \<Rightarrow> error + info" where
  "DamtomoRecordIE_assemble video_id title' uploader_id' description' data_dict m3u8_url =
     (case getitem data_dict (ascii ''user_name'') of
        Inl e \<Rightarrow> Inl e
      | Inr user_name \<Rightarrow>
     (case try_get data_dict
             (\<lambda>x. case getitem x (ascii ''date'') of
                     Inl e \<Rightarrow> Inl e
                   | Inr d \<Rightarrow>
                       (case search_regex date_re d of
                          None \<Rightarrow> Inl AttributeError
                        | Some v \<Rightarrow> Inr (Some (replace_chr (of_char CHR ''/'') [] v)))) of
        Inl e \<Rightarrow> Inl e
      | Inr upload_date' \<Rightarrow>
     (case getitem data_dict (ascii ''audience'') of
        Inl e \<Rightarrow> Inl e
      | Inr audience \<Rightarrow>
     (case getitem data_dict (ascii ''nice'') of
        Inl e \<Rightarrow> Inl e
      | Inr nice \<Rightarrow>
     (case getitem data_dict (ascii ''song_title'') of
        Inl e \<Rightarrow> Inl e
      | Inr song_title' \<Rightarrow>
     (case getitem data_dict (ascii ''song_artist'') of
        Inl e \<Rightarrow> Inl e
      | Inr song_artist' \<Rightarrow>
          Inr \<lparr> id' = video_id,
                title = title',
                uploader_id = uploader_id',
                description = description',
                formats = [\<lparr> format_id = ascii ''hls'', url = m3u8_url, ext = ascii ''mp4'',
                             protocol = ascii ''m3u8_native'' \<rparr>],
                uploader = user_name,
                upload_date = upload_date',
                view_count = int_or_none (search_regex digits_re audience),
                like_count = int_or_none (search_regex digits_re nice),
                song_title = song_title',
                song_artist = song_artist' \<rparr>))))))"

text \<open>
  The whole call, from the resource id that \<^verbatim>\<open>_match_id\<close> took from the URL. The first
  component of the result lists the URLs requested, in order; the second is the exception
  raised or the dictionary returned. The marker of the server's error page is
  \<^verbatim>\<open><h2>\<close>, U+4E88 U+671F U+305B U+306C U+30A8 U+30E9 U+30FC U+304C U+767A U+751F U+3057
  U+307E U+3057 U+305F U+3002, \<^verbatim>\<open></h2>\<close>.
\<close>

definition DamtomoRecordIE_real_extract :: "host \<Rightarrow> ustr \<Rightarrow> ustr list \<times> (error + info)" where
  "DamtomoRecordIE_real_extract h video_id =
     (let page_url = ascii ''https://www.clubdam.com/app/damtomo/karaokePost/StreamingKrk.do?karaokeContributeId='' @ video_id
      in case download_webpage_handle h page_url of
           Inl e \<Rightarrow> ([page_url], Inl e)
         | Inr (webpage, handle_url) \<Rightarrow>
             if handle_url = ascii ''https://www.clubdam.com/sorry/'' then
               ([page_url], Inl (ExtractorError ''You are rate-limited. Try again later.'' True))
             else if py_in (ascii ''<h2>'' @
                            [20104, 26399, 12379, 12396, 12456, 12521, 12540, 12364, 30330, 29983,
                             12375, 12414, 12375, 12383, 12290] @ ascii ''</h2>'') webpage then
               ([page_url],
                Inl (ExtractorError ''There is an error on server-side. Try again later.'' True))
             else
               (case DamtomoRecordIE_scrape (clean_html h) webpage of
                  Inl e \<Rightarrow> ([page_url], Inl e)
                | Inr (description', uploader_id', data_dict, title') \<Rightarrow>
                    (let xml_url = ascii ''https://www.clubdam.com/app/damtomo/karaokePost/GetStreamingKrkUrlXML.do?karaokeContributeId='' @ video_id
                     in case download_xml h xml_url of
                          Inl e \<Rightarrow> ([page_url, xml_url], Inl e)
                        | Inr stream_tree \<Rightarrow>
                            (case DamtomoRecordIE_m3u8_url stream_tree of
                               Inl e \<Rightarrow> ([page_url, xml_url], Inl e)
                             | Inr None \<Rightarrow>
                                 ([page_url, xml_url],
                                  Inl (ExtractorError ''Failed to obtain m3u8 URL'' False))
                             | Inr (Some m3u8_url) \<Rightarrow>
                                 if m3u8_url = [] then
                                   ([page_url, xml_url],
                                    Inl (ExtractorError ''Failed to obtain m3u8 URL'' False))
                                 else
                                   ([page_url, xml_url],
                                    DamtomoRecordIE_assemble video_id title' uploader_id' description'
                                      data_dict m3u8_url)))))"

section \<open>Names for the literals of the module\<close>

text \<open>
  The URLs, the name spaces, the marker and the messages are written in the source where
  they are used; the statements below name them.
\<close>

abbreviation rate_limit_url :: ustr where
  "rate_limit_url \<equiv> ascii ''https://www.clubdam.com/sorry/''"

abbreviation error_marker :: ustr where
  "error_marker \<equiv>
     ascii ''<h2>'' @
     [20104, 26399, 12379, 12396, 12456, 12521, 12540, 12364, 30330, 29983,
      12375, 12414, 12375, 12383, 12290] @ ascii ''</h2>''"

abbreviation video_page_url :: "ustr \<Rightarrow> ustr" where
  "video_page_url video_id \<equiv>
     ascii ''https://www.clubdam.com/app/damtomo/karaokeMovie/StreamingDkm.do?karaokeMovieId='' @ video_id"

abbreviation video_xml_url :: "ustr \<Rightarrow> ustr" where
  "video_xml_url video_id \<equiv>
     ascii ''https://www.clubdam.com/app/damtomo/karaokeMovie/GetStreamingDkmUrlXML.do?movieSelectFlg=2&karaokeMovieId='' @ video_id"

abbreviation video_ns :: ustr where
  "video_ns \<equiv> ascii ''https://www.clubdam.com/app/damtomo/karaokeMovie/GetStreamingDkmUrlXML''"

abbreviation record_page_url :: "ustr \<Rightarrow> ustr" where
  "record_page_url video_id \<equiv>
     ascii ''https://www.clubdam.com/app/damtomo/karaokePost/StreamingKrk.do?karaokeContributeId='' @ video_id"

abbreviation record_xml_url :: "ustr \<Rightarrow> ustr" where
  "record_xml_url video_id \<equiv>
     ascii ''https://www.clubdam.com/app/damtomo/karaokePost/GetStreamingKrkUrlXML.do?karaokeContributeId='' @ video_id"

abbreviation record_ns :: ustr where
  "record_ns \<equiv> ascii ''https://www.clubdam.com/app/damtomo/karaokePost/GetStreamingKrkUrlXML''"

abbreviation RateLimited :: error where
  "RateLimited \<equiv> ExtractorError ''You are rate-limited. Try again later.'' True"

abbreviation ServerError :: error where
  "ServerError \<equiv> ExtractorError ''There is an error on server-side. Try again later.'' True"

abbreviation ManifestNotFound :: error where
  "ManifestNotFound \<equiv> ExtractorError ''Failed to obtain m3u8 URL'' False"

abbreviation hls_format :: "ustr \<Rightarrow> format" where
  "hls_format m3u8_url \<equiv>
     \<lparr> format_id = ascii ''hls'', url = m3u8_url, ext = ascii ''mp4'',
       protocol = ascii ''m3u8_native'' \<rparr>"

section \<open>What the claims speak of\<close>

text \<open>
  \<open>matches r c w rest c'\<close>: the text \<open>w\<close>, followed by \<open>rest\<close>, is an occurrence of the pattern
  \<open>r\<close>, and the groups \<open>c\<close> become \<open>c'\<close>.
\<close>

fun matches :: "re \<Rightarrow> caps \<Rightarrow> ustr \<Rightarrow> ustr \<Rightarrow> caps \<Rightarrow> bool" where
  "matches (Str u) c w rest c' \<longleftrightarrow> w = u \<and> c' = c"
| "matches (Atom cl) c w rest c' \<longleftrightarrow> (\<exists>x. w = [x] \<and> cmatch cl x) \<and> c' = c"
| "matches (Rep cl m greedy) c w rest c' \<longleftrightarrow> m \<le> length w \<and> list_all (cmatch cl) w \<and> c' = c"
| "matches (Seq a b) c w rest c' \<longleftrightarrow>
     (\<exists>w1 w2 c1. w = w1 @ w2 \<and> matches a c w1 (w2 @ rest) c1 \<and> matches b c1 w2 rest c')"
| "matches (Alt a b) c w rest c' \<longleftrightarrow> matches a c w rest c' \<or> matches b c w rest c'"
| "matches (Grp n r) c w rest c' \<longleftrightarrow> (\<exists>c1. matches r c w rest c1 \<and> c' = c1(n \<mapsto> w))"
| "matches (Back n) c w rest c' \<longleftrightarrow> c n = Some w \<and> c' = c"
| "matches Eos c w rest c' \<longleftrightarrow> w = [] \<and> (rest = [] \<or> rest = [10]) \<and> c' = c"

text \<open>A text shaped YYYY/MM/DD: four digits, a slash, two digits, a slash, two digits.\<close>

fun date_shaped :: "ustr \<Rightarrow> bool" where
  "date_shaped [a, b, c, d, e, f, g, h, i, j] =
     (is_digit a \<and> is_digit b \<and> is_digit c \<and> is_digit d \<and> e = of_char CHR ''/'' \<and>
      is_digit f \<and> is_digit g \<and> h = of_char CHR ''/'' \<and> is_digit i \<and> is_digit j)"
| "date_shaped _ = False"

text \<open>
  The integer that a list of decimal digits denotes, the most significant digit first: a
  digit followed by \<open>n\<close> more digits counts \<open>10 ^ n\<close> times.
\<close>

fun base_ten :: "nat list \<Rightarrow> int" where
  "base_ten [] = 0"
| "base_ten (d # ds) = int d * 10 ^ length ds + base_ten ds"

text \<open>Every run of white space collapsed to one space.\<close>

function collapse_ws :: "ustr \<Rightarrow> ustr" where
  "collapse_ws [] = []"
| "collapse_ws (x # xs) =
     (if is_space x then of_char CHR '' '' # collapse_ws (dropWhile is_space xs)
      else x # collapse_ws xs)"
  by pat_completeness auto
termination
  by (relation "measure length") (auto simp: length_dropWhile_le le_imp_less_Suc)

text \<open>
  A block \<^verbatim>\<open><TAG class="LABEL">CONTENT</TAG>\<close>: the tag is \<^verbatim>\<open>p\<close> or \<^verbatim>\<open>div\<close>, white space
  separates it from \<^verbatim>\<open>class\<close>, the label is not empty and has no double quote and no
  space, the content is not empty and may hold any characters, line breaks too.
\<close>

definition field_block :: "ustr \<Rightarrow> ustr \<Rightarrow> ustr \<Rightarrow> ustr \<Rightarrow> bool" where
  \<open>field_block m tag label content \<longleftrightarrow>
     (\<exists>ws. m = ascii ''<'' @ tag @ ws @ ascii ''class="'' @ label @ ascii ''">'' @ content @
                ascii ''</'' @ tag @ ascii ''>'' \<and>
           ws \<noteq> [] \<and> list_all is_space ws) \<and>
     (tag = ascii ''p'' \<or> tag = ascii ''div'') \<and>
     label \<noteq> [] \<and> list_all (\<lambda>c. c \<notin> set (ascii ''" '')) label \<and>
     content \<noteq> []\<close>

text \<open>The text without the white space at its end.\<close>

definition rstrip :: "ustr \<Rightarrow> ustr" where
  "rstrip s = rev (dropWhile is_space (rev s))"

text \<open>
  The text without a final token U+3055 U+3093 and without the white space just before the
  token; a text that does not end in the token is left as it is.
\<close>

definition drop_polite_suffix :: "ustr \<Rightarrow> ustr" where
  "drop_polite_suffix s =
     (if suffix [12373, 12435] s then rstrip (take (length s - 2) s) else s)"

section \<open>Example inputs\<close>

text \<open>
  A page with the six labelled blocks of the record fixture and the anchor of the
  uploader's profile, the same page without its date, a manifest document with the
  \<^verbatim>\<open>streamingUrl\<close> element in a given name space, and a host that serves a given page
  and document and cleans a value by stripping it.
\<close>

definition example_page_no_date :: ustr where
  \<open>example_page_no_date =
     ascii ''<a href="https://www.clubdam.com/app/damtomo/member/info/Profile.do?damtomoId=MzAyMDExNTY">'' @
     ascii ''<p class="user_name">'' @ [65326, 65313, 65326, 65313, 32, 12373, 12435] @ ascii ''</p>'' @
     ascii ''<p class="song_title">'' @ [12452, 12459] @ ascii ''SUMMER ['' @ [33391, 38899] @ ascii '']</p>'' @
     ascii ''<div class="song_artist">ORANGE  RANGE</div>'' @
     ascii ''<p class="audience">4 '' @ [22238, 35222, 32884] @ ascii ''</p>'' @
     ascii ''<p class="nice">1</p>''\<close>

definition example_page :: ustr where
  \<open>example_page = example_page_no_date @ ascii ''<p class="date">2021/07/21 12:00</p>''\<close>

definition example_tree :: "ustr \<Rightarrow> xml" where
  "example_tree uri =
     Element (ascii ''{'' @ uri @ ascii ''}response'') None
       [Element (ascii ''{'' @ uri @ ascii ''}status'') (Some (ascii ''OK'')) [],
        Element (ascii ''{'' @ uri @ ascii ''}data'') None
          [Element (ascii ''{'' @ uri @ ascii ''}streamingUrl'')
             (Some (ascii '' https://example.com/stream.m3u8'' @ [10])) []]]"

definition example_host :: "ustr \<Rightarrow> ustr \<Rightarrow> xml \<Rightarrow> host" where
  "example_host page final_url tree =
     \<lparr> download_webpage_handle = (\<lambda>u. Inr (page, final_url)),
       download_xml = (\<lambda>u. Inr tree),
       clean_html = strip \<rparr>"

text \<open>A page with one block, labelled \<^verbatim>\<open>user_name\<close>, around a given name.\<close>

definition example_name_page :: "ustr \<Rightarrow> ustr" where
  \<open>example_name_page name = ascii ''<p class="user_name">'' @ name @ ascii ''</p>''\<close>

text \<open>
  A dictionary with given values of \<^verbatim>\<open>audience\<close> and \<^verbatim>\<open>nice\<close>, the three other keys that
  are read without a guard, and no \<^verbatim>\<open>date\<close>.
\<close>

definition example_fields :: "ustr \<Rightarrow> ustr \<Rightarrow> dict" where
  "example_fields audience nice =
     map_of [(ascii ''audience'', audience), (ascii ''nice'', nice),
             (ascii ''user_name'', ascii ''u''), (ascii ''song_title'', ascii ''s''),
             (ascii ''song_artist'', ascii ''a'')]"

text \<open>
  The resource id of the record fixture, the two hosts that serve the example page with a
  manifest in the name space of one extractor, and the result expected for the page.
\<close>

definition example_id :: ustr where
  "example_id = ascii ''27376862''"

definition example_video_host :: host where
  "example_video_host = example_host example_page (video_page_url example_id) (example_tree video_ns)"

definition example_record_host :: host where
  "example_record_host = example_host example_page (record_page_url example_id) (example_tree record_ns)"

definition example_info :: info where
  "example_info =
     \<lparr> id' = example_id,
       title = [12452, 12459] @ ascii ''SUMMER ['' @ [33391, 38899] @ ascii '']-ORANGE RANGE-'' @
               [65326, 65313, 65326, 65313],
       uploader_id = Some (ascii ''MzAyMDExNTY''),
       description = None,
       formats = [hls_format (ascii ''https://example.com/stream.m3u8'')],
       uploader = [65326, 65313, 65326, 65313],
       upload_date = Some (ascii ''20210721''),
       view_count = Some 4,
       like_count = Some 1,
       song_title = [12452, 12459] @ ascii ''SUMMER ['' @ [33391, 38899] @ ascii '']'',
       song_artist = ascii ''ORANGE RANGE'' \<rparr>"

section \<open>The matcher and the search\<close>

subsection \<open>Repetition\<close>

lemma rep_greedy_short:
  "length (takeWhile (cmatch cl) s) < m \<Longrightarrow> rep_greedy cl m s k = None"
  by (induction s arbitrary: m) auto

lemma rep_greedy_max:
  "m \<le> length (takeWhile (cmatch cl) s) \<Longrightarrow> k (dropWhile (cmatch cl) s) = Some r \<Longrightarrow>
   rep_greedy cl m s k = Some r"
  by (induction s arbitrary: m) (auto split: if_splits)

lemma rep_greedy_reject:
  "(\<And>x xs. cmatch cl x \<Longrightarrow> k (x # xs) = None) \<Longrightarrow> k (dropWhile (cmatch cl) s) = None \<Longrightarrow>
   rep_greedy cl m s k = None"
  by (induction s arbitrary: m) auto

lemma rep_greedy_suffix:
  "rep_greedy cl m s k = Some r \<Longrightarrow>
   \<exists>w s'. s = w @ s' \<and> m \<le> length w \<and> list_all (cmatch cl) w \<and> k s' = Some r"
proof (induction s arbitrary: m)
  case Nil
  then show ?case by (auto split: if_splits)
next
  case (Cons x xs)
  show ?case
  proof (cases "cmatch cl x \<and> rep_greedy cl (m - 1) xs k = Some r")
    case True
    with Cons.IH obtain w s' where "xs = w @ s'" "m - 1 \<le> length w" "list_all (cmatch cl) w" "k s' = Some r"
      by blast
    with True have "x # xs = (x # w) @ s' \<and> m \<le> length (x # w) \<and> list_all (cmatch cl) (x # w) \<and> k s' = Some r"
      by auto
    then show ?thesis by blast
  next
    case False
    with Cons.prems have "m = 0 \<and> k (x # xs) = Some r"
      by (auto split: if_splits option.splits)
    then have "x # xs = [] @ (x # xs) \<and> m \<le> length ([]::ustr) \<and> list_all (cmatch cl) [] \<and> k (x # xs) = Some r"
      by simp
    then show ?thesis by blast
  qed
qed

lemma rep_lazy_suffix:
  "rep_lazy cl m s k = Some r \<Longrightarrow>
   \<exists>w s'. s = w @ s' \<and> m \<le> length w \<and> list_all (cmatch cl) w \<and> k s' = Some r"
proof (induction s arbitrary: m)
  case Nil
  then show ?case by (auto split: if_splits)
next
  case (Cons x xs)
  show ?case
  proof (cases "m = 0 \<and> k (x # xs) = Some r")
    case True
    then have "x # xs = [] @ (x # xs) \<and> m \<le> length ([]::ustr) \<and> list_all (cmatch cl) [] \<and> k (x # xs) = Some r"
      by simp
    then show ?thesis by blast
  next
    case False
    with Cons.prems have c: "cmatch cl x" and "rep_lazy cl (m - 1) xs k = Some r"
      by (auto split: if_splits option.splits)
    with Cons.IH obtain w s' where "xs = w @ s'" "m - 1 \<le> length w" "list_all (cmatch cl) w" "k s' = Some r"
      by blast
    with c have "x # xs = (x # w) @ s' \<and> m \<le> length (x # w) \<and> list_all (cmatch cl) (x # w) \<and> k s' = Some r"
      by auto
    then show ?thesis by blast
  qed
qed

subsection \<open>The matcher consumes a prefix\<close>

lemma mt_suffix:
  "mt r s c k = Some res \<Longrightarrow> \<exists>w s' c'. s = w @ s' \<and> k s' c' = Some res"
proof (induction r arbitrary: s c k)
  case (Str w)
  then show ?case by (auto simp: prefix_def split: if_splits)
next
  case (Atom cl)
  then obtain x xs where "s = [x] @ xs" "k xs c = Some res"
    by (cases s) (auto split: if_splits)
  then show ?case by blast
next
  case (Rep cl m g)
  then show ?case
    by (cases g) (auto dest!: rep_greedy_suffix rep_lazy_suffix)
next
  case (Seq a b)
  from Seq.prems have "mt a s c (\<lambda>s' c'. mt b s' c' k) = Some res" by simp
  from Seq.IH(1)[OF this] obtain w1 s1 c1 where 1: "s = w1 @ s1" "mt b s1 c1 k = Some res" by blast
  from Seq.IH(2)[OF 1(2)] obtain w2 s2 c2 where "s1 = w2 @ s2" "k s2 c2 = Some res" by blast
  with 1 have "s = (w1 @ w2) @ s2 \<and> k s2 c2 = Some res" by simp
  then show ?case by blast
next
  case (Alt a b)
  then show ?case by (auto split: option.splits)
next
  case (Grp n r)
  from Grp.prems have "mt r s c (\<lambda>s' c'. k s' (c'(n \<mapsto> take (length s - length s') s))) = Some res"
    by simp
  from Grp.IH[OF this] show ?case by blast
next
  case (Back n)
  then show ?case by (auto simp: prefix_def split: option.splits if_splits)
next
  case Eos
  then show ?case by (auto split: if_splits)
qed

lemma re_match_suffix:
  "re_match r s = Some (post, c) \<Longrightarrow> \<exists>w. s = w @ post"
  unfolding re_match_def by (drule mt_suffix) auto

subsection \<open>Search\<close>

lemma scan_pre:
  "scan r pre s = map_option (\<lambda>(p, m, post, c). (pre @ p, m, post, c)) (scan r [] s)"
proof (induction s arbitrary: pre)
  case Nil
  then show ?case by (auto split: option.splits)
next
  case (Cons x xs)
  have "scan r (pre @ [x]) xs = map_option (\<lambda>(p, m, post, c). ((pre @ [x]) @ p, m, post, c)) (scan r [] xs)"
    by (rule Cons.IH)
  moreover have "scan r [x] xs = map_option (\<lambda>(p, m, post, c). ([x] @ p, m, post, c)) (scan r [] xs)"
    using Cons.IH[of "[x]"] by simp
  ultimately show ?case
    by (cases "scan r [] xs") (auto split: option.splits)
qed

lemma re_search_Nil:
  "re_search r [] = (case re_match r [] of Some (s', c) \<Rightarrow> Some ([], [], s', c) | None \<Rightarrow> None)"
  by (simp add: re_search_def)

lemma re_search_Cons:
  "re_search r (x # xs) =
     (case re_match r (x # xs) of
        Some (s', c) \<Rightarrow> Some ([], take (length (x # xs) - length s') (x # xs), s', c)
      | None \<Rightarrow> map_option (\<lambda>(p, m, post, c). (x # p, m, post, c)) (re_search r xs))"
  unfolding re_search_def using scan_pre[of r "[x]" xs] by (simp split: option.splits)

lemma re_search_hit:
  "re_match r s = Some (post, c) \<Longrightarrow> re_search r s = Some ([], take (length s - length post) s, post, c)"
  by (cases s) (auto simp: re_search_Nil re_search_Cons dest: re_match_suffix)

lemma re_search_skip:
  "(\<And>i. i < length s1 \<Longrightarrow> re_match r (drop i (s1 @ s2)) = None) \<Longrightarrow>
   re_search r (s1 @ s2) = map_option (\<lambda>(p, m, post, c). (s1 @ p, m, post, c)) (re_search r s2)"
proof (induction s1)
  case Nil
  then show ?case by (simp add: option.map_ident case_prod_beta)
next
  case (Cons x xs)
  have 0: "re_match r (x # xs @ s2) = None" using Cons.prems[of 0] by simp
  have "\<And>i. i < length xs \<Longrightarrow> re_match r (drop i (xs @ s2)) = None"
    using Cons.prems[of "Suc i" for i] by simp
  from Cons.IH[OF this] 0 show ?case
    by (simp add: re_search_Cons option.map_comp comp_def case_prod_beta)
qed

lemma re_search_None_iff:
  "re_search r s = None \<longleftrightarrow> (\<forall>i\<le>length s. re_match r (drop i s) = None)"
proof (induction s)
  case Nil
  then show ?case by (auto simp: re_search_Nil split: option.splits)
next
  case (Cons x xs)
  have "(\<forall>i\<le>length (x # xs). re_match r (drop i (x # xs)) = None) \<longleftrightarrow>
        re_match r (x # xs) = None \<and> (\<forall>i\<le>length xs. re_match r (drop i xs) = None)"
  proof -
    have "(\<forall>i\<le>Suc (length xs). re_match r (drop i (x # xs)) = None) \<longleftrightarrow>
          re_match r (drop 0 (x # xs)) = None \<and> (\<forall>i\<le>length xs. re_match r (drop (Suc i) (x # xs)) = None)"
      by (metis Suc_le_mono less_Suc_eq_0_disj less_Suc_eq_le zero_less_Suc)
    then show ?thesis by simp
  qed
  with Cons.IH show ?case
    by (auto simp: re_search_Cons split: option.splits)
qed

lemma re_search_Some:
  "re_search r s = Some (pre, m, post, c) \<Longrightarrow>
   s = pre @ m @ post \<and> re_match r (m @ post) = Some (post, c) \<and>
   (\<forall>i<length pre. re_match r (drop i s) = None)"
proof (induction s arbitrary: pre)
  case Nil
  then show ?case by (auto simp: re_search_Nil split: option.splits dest: re_match_suffix)
next
  case (Cons x xs)
  show ?case
  proof (cases "re_match r (x # xs)")
    case (Some a)
    obtain s' c' where a: "a = (s', c')" by (cases a)
    with Some obtain w where w: "x # xs = w @ s'" by (auto dest: re_match_suffix)
    from Some a have "re_search r (x # xs) = Some ([], take (length (x # xs) - length s') (x # xs), s', c')"
      by (simp add: re_search_hit)
    with Cons.prems have "pre = []" "m = take (length (x # xs) - length s') (x # xs)" "post = s'" "c = c'"
      by auto
    moreover have "take (length (x # xs) - length s') (x # xs) = w"
      unfolding w by simp
    ultimately show ?thesis using Some a w by simp
  next
    case None
    with Cons.prems obtain p where p: "re_search r xs = Some (p, m, post, c)" "pre = x # p"
      by (auto simp: re_search_Cons)
    from Cons.IH[OF p(1)] have ih: "xs = p @ m @ post" "re_match r (m @ post) = Some (post, c)"
      "\<forall>i<length p. re_match r (drop i xs) = None" by auto
    have "\<forall>i<length pre. re_match r (drop i (x # xs)) = None"
    proof (intro allI impI)
      fix i assume "i < length pre"
      then show "re_match r (drop i (x # xs)) = None"
        using None ih(3) p(2) by (cases i) auto
    qed
    with ih p show ?thesis by simp
  qed
qed

section \<open>The substring test\<close>

lemma py_in_iff: "py_in n h \<longleftrightarrow> (\<exists>pre post. h = pre @ n @ post)"
proof (induction h)
  case Nil
  then show ?case by auto
next
  case (Cons x xs)
  show ?case
  proof
    assume "py_in n (x # xs)"
    then consider "prefix n (x # xs)" | "py_in n xs" by auto
    then show "\<exists>pre post. x # xs = pre @ n @ post"
    proof cases
      case 1
      then obtain post where "x # xs = n @ post" by (auto simp: prefix_def)
      then have "x # xs = [] @ n @ post" by simp
      then show ?thesis by blast
    next
      case 2
      with Cons.IH obtain pre post where "xs = pre @ n @ post" by blast
      then have "x # xs = (x # pre) @ n @ post" by simp
      then show ?thesis by blast
    qed
  next
    assume "\<exists>pre post. x # xs = pre @ n @ post"
    then obtain pre post where e: "x # xs = pre @ n @ post" by blast
    show "py_in n (x # xs)"
    proof (cases pre)
      case Nil
      with e have "prefix n (x # xs)" by (simp add: prefix_def)
      then show ?thesis by simp
    next
      case (Cons y ys)
      with e have "xs = ys @ n @ post" by simp
      with Cons.IH have "py_in n xs" by blast
      then show ?thesis by simp
    qed
  qed
qed

section \<open>Lemmas on the helpers and the patterns\<close>

lemma strip_empty_iff: "strip t = [] \<longleftrightarrow> list_all is_space t"
proof -
  have "dropWhile is_space (rev (dropWhile is_space t)) = [] \<longleftrightarrow> dropWhile is_space t = []"
  proof
    assume a: "dropWhile is_space (rev (dropWhile is_space t)) = []"
    show "dropWhile is_space t = []"
    proof (rule ccontr)
      assume n: "dropWhile is_space t \<noteq> []"
      then have "\<not> is_space (hd (dropWhile is_space t))" by (rule hd_dropWhile)
      moreover from a have "\<forall>x\<in>set (rev (dropWhile is_space t)). is_space x"
        by (simp add: dropWhile_eq_Nil_conv)
      ultimately show False using n by (metis hd_in_set set_rev)
    qed
  next
    assume "dropWhile is_space t = []"
    then have "dropWhile is_space (rev (dropWhile is_space t)) = dropWhile is_space (rev [])"
      by (simp only:)
    then show "dropWhile is_space (rev (dropWhile is_space t)) = []" by simp
  qed
  then show ?thesis
    by (simp add: strip_def dropWhile_eq_Nil_conv list_all_iff)
qed

lemma video_m3u8_url:
  "DamtomoVideoIE_m3u8_url tree =
     Inr (case xml_find (ascii ''https://www.clubdam.com/app/damtomo/karaokeMovie/GetStreamingDkmUrlXML'')
                 (ascii ''streamingUrl'') tree of
            None \<Rightarrow> None
          | Some e \<Rightarrow> map_option strip (el_text e))"
  by (simp add: DamtomoVideoIE_m3u8_url_def try_get_def split: option.splits)

lemma record_m3u8_url:
  "DamtomoRecordIE_m3u8_url tree =
     Inr (case xml_find (ascii ''https://www.clubdam.com/app/damtomo/karaokePost/GetStreamingKrkUrlXML'')
                 (ascii ''streamingUrl'') tree of
            None \<Rightarrow> None
          | Some e \<Rightarrow> map_option strip (el_text e))"
  by (simp add: DamtomoRecordIE_m3u8_url_def try_get_def split: option.splits)

lemma video_assemble_url:
  "DamtomoVideoIE_assemble video_id t u d dd m = Inr r \<Longrightarrow>
   formats r = [\<lparr> format_id = ascii ''hls'', url = m, ext = ascii ''mp4'', protocol = ascii ''m3u8_native'' \<rparr>]"
  by (auto simp: DamtomoVideoIE_assemble_def split: sum.splits)

lemma record_assemble_url:
  "DamtomoRecordIE_assemble video_id t u d dd m = Inr r \<Longrightarrow>
   formats r = [\<lparr> format_id = ascii ''hls'', url = m, ext = ascii ''mp4'', protocol = ascii ''m3u8_native'' \<rparr>]"
  by (auto simp: DamtomoRecordIE_assemble_def split: sum.splits)

lemma video_manifest:
  assumes "download_webpage_handle h
      (ascii ''https://www.clubdam.com/app/damtomo/karaokeMovie/StreamingDkm.do?karaokeMovieId='' @ video_id)
      = Inr (webpage, final_url)"
    and "final_url \<noteq> ascii ''https://www.clubdam.com/sorry/''"
    and "\<not> py_in (ascii ''<h2>'' @
             [20104, 26399, 12379, 12396, 12456, 12521, 12540, 12364, 30330, 29983,
              12375, 12414, 12375, 12383, 12290] @ ascii ''</h2>'') webpage"
    and "DamtomoVideoIE_scrape (clean_html h) webpage = Inr (d, u, dd, t)"
    and "download_xml h
      (ascii ''https://www.clubdam.com/app/damtomo/karaokeMovie/GetStreamingDkmUrlXML.do?movieSelectFlg=2&karaokeMovieId='' @ video_id)
      = Inr tree"
  shows "DamtomoVideoIE_real_extract h video_id =
     ([ascii ''https://www.clubdam.com/app/damtomo/karaokeMovie/StreamingDkm.do?karaokeMovieId='' @ video_id,
       ascii ''https://www.clubdam.com/app/damtomo/karaokeMovie/GetStreamingDkmUrlXML.do?movieSelectFlg=2&karaokeMovieId='' @ video_id],
      case xml_find (ascii ''https://www.clubdam.com/app/damtomo/karaokeMovie/GetStreamingDkmUrlXML'')
             (ascii ''streamingUrl'') tree of
        None \<Rightarrow> Inl (ExtractorError ''Failed to obtain m3u8 URL'' False)
      | Some e \<Rightarrow>
          (case el_text e of
             None \<Rightarrow> Inl (ExtractorError ''Failed to obtain m3u8 URL'' False)
           | Some x \<Rightarrow>
               if list_all is_space x then Inl (ExtractorError ''Failed to obtain m3u8 URL'' False)
               else DamtomoVideoIE_assemble video_id t u d dd (strip x)))"
  using assms
  by (simp add: DamtomoVideoIE_real_extract_def video_m3u8_url strip_empty_iff split: option.splits)

lemma record_manifest:
  assumes "download_webpage_handle h
      (ascii ''https://www.clubdam.com/app/damtomo/karaokePost/StreamingKrk.do?karaokeContributeId='' @ video_id)
      = Inr (webpage, final_url)"
    and "final_url \<noteq> ascii ''https://www.clubdam.com/sorry/''"
    and "\<not> py_in (ascii ''<h2>'' @
             [20104, 26399, 12379, 12396, 12456, 12521, 12540, 12364, 30330, 29983,
              12375, 12414, 12375, 12383, 12290] @ ascii ''</h2>'') webpage"
    and "DamtomoRecordIE_scrape (clean_html h) webpage = Inr (d, u, dd, t)"
    and "download_xml h
      (ascii ''https://www.clubdam.com/app/damtomo/karaokePost/GetStreamingKrkUrlXML.do?karaokeContributeId='' @ video_id)
      = Inr tree"
  shows "DamtomoRecordIE_real_extract h video_id =
     ([ascii ''https://www.clubdam.com/app/damtomo/karaokePost/StreamingKrk.do?karaokeContributeId='' @ video_id,
       ascii ''https://www.clubdam.com/app/damtomo/karaokePost/GetStreamingKrkUrlXML.do?karaokeContributeId='' @ video_id],
      case xml_find (ascii ''https://www.clubdam.com/app/damtomo/karaokePost/GetStreamingKrkUrlXML'')
             (ascii ''streamingUrl'') tree of
        None \<Rightarrow> Inl (ExtractorError ''Failed to obtain m3u8 URL'' False)
      | Some e \<Rightarrow>
          (case el_text e of
             None \<Rightarrow> Inl (ExtractorError ''Failed to obtain m3u8 URL'' False)
           | Some x \<Rightarrow>
               if list_all is_space x then Inl (ExtractorError ''Failed to obtain m3u8 URL'' False)
               else DamtomoRecordIE_assemble video_id t u d dd (strip x)))"
  using assms
  by (simp add: DamtomoRecordIE_real_extract_def record_m3u8_url strip_empty_iff split: option.splits)


subsection \<open>The two extractors share their scraping and assembly\<close>

lemma record_data_dict: "DamtomoRecordIE_data_dict = DamtomoVideoIE_data_dict"
  by (intro ext) (simp only: DamtomoRecordIE_data_dict_def DamtomoVideoIE_data_dict_def)

lemma record_user_name: "DamtomoRecordIE_user_name = DamtomoVideoIE_user_name"
  by (intro ext) (simp only: DamtomoRecordIE_user_name_def DamtomoVideoIE_user_name_def)

lemma record_scrape: "DamtomoRecordIE_scrape = DamtomoVideoIE_scrape"
  by (intro ext)
    (simp only: DamtomoRecordIE_scrape_def DamtomoVideoIE_scrape_def
      record_data_dict record_user_name)

lemma record_assemble: "DamtomoRecordIE_assemble = DamtomoVideoIE_assemble"
  by (intro ext) (simp only: DamtomoRecordIE_assemble_def DamtomoVideoIE_assemble_def)

subsection \<open>The scrape in terms of the dictionary\<close>

lemma video_scrape_Inr:
  assumes "DamtomoVideoIE_scrape clean webpage = Inr (d, u, dd, t)"
  shows "\<exists>un st sa.
           DamtomoVideoIE_data_dict clean webpage (ascii ''user_name'') = Some un \<and>
           DamtomoVideoIE_data_dict clean webpage (ascii ''song_title'') = Some st \<and>
           DamtomoVideoIE_data_dict clean webpage (ascii ''song_artist'') = Some sa \<and>
           dd = (DamtomoVideoIE_data_dict clean webpage)
                  (ascii ''user_name'' \<mapsto> DamtomoVideoIE_user_name un) \<and>
           t = st @ ascii ''-'' @ sa @ ascii ''-'' @ DamtomoVideoIE_user_name un"
  using assms
  by (auto simp: DamtomoVideoIE_scrape_def getitem_def ascii_def Let_def split: option.splits)

lemma video_scrape_Inl:
  "DamtomoVideoIE_scrape clean webpage = Inl e \<longleftrightarrow>
     (if DamtomoVideoIE_data_dict clean webpage (ascii ''user_name'') = None
      then e = KeyError (ascii ''user_name'')
      else if DamtomoVideoIE_data_dict clean webpage (ascii ''song_title'') = None
      then e = KeyError (ascii ''song_title'')
      else DamtomoVideoIE_data_dict clean webpage (ascii ''song_artist'') = None \<and>
           e = KeyError (ascii ''song_artist''))"
  by (auto simp: DamtomoVideoIE_scrape_def getitem_def ascii_def Let_def split: option.splits)

lemma rep_greedy_longest:
  "m \<le> length (takeWhile (cmatch cl) s) \<Longrightarrow> k (dropWhile (cmatch cl) s) \<noteq> None \<Longrightarrow>
   rep_greedy cl m s k = k (dropWhile (cmatch cl) s)"
  by (induction s arbitrary: m) (auto split: if_splits)

lemma re_search_skip_while:
  assumes "\<And>x xs. P x \<Longrightarrow> re_match r (x # xs) = None"
  shows "re_search r s =
     map_option (\<lambda>(p, m, post, c). (takeWhile P s @ p, m, post, c)) (re_search r (dropWhile P s))"
proof (induction s)
  case Nil
  show ?case by (cases "re_search r []") auto
next
  case (Cons x xs)
  show ?case
  proof (cases "P x")
    case True
    with assms have "re_match r (x # xs) = None" by simp
    with True Cons.IH show ?thesis
      by (cases "re_search r (dropWhile P xs)") (auto simp: re_search_Cons)
  next
    case False
    then show ?thesis by (cases "re_search r (x # xs)") auto
  qed
qed

subsection \<open>The pattern of the counts\<close>

lemma take_length_dropWhile:
  "take (length s - length (dropWhile P s)) s = takeWhile P s"
proof -
  have "length s = length (takeWhile P s) + length (dropWhile P s)"
    by (metis length_append takeWhile_dropWhile_id)
  then have "length s - length (dropWhile P s) = length (takeWhile P s)" by simp
  then show ?thesis by (simp add: takeWhile_eq_take[symmetric])
qed

lemma digits_match:
  "re_match digits_re s =
     (if takeWhile is_digit s = [] then None
      else Some (dropWhile is_digit s, [Suc 0 \<mapsto> takeWhile is_digit s]))"
proof (cases "takeWhile is_digit s = []")
  case True
  then have "length (takeWhile (cmatch Digit) s) < Suc 0" by (simp add: cmatch.simps[abs_def])
  then show ?thesis using True
    by (simp add: digits_re_def re_match_def rep_greedy_short)
next
  case False
  then have "Suc 0 \<le> length (takeWhile (cmatch Digit) s)"
    by (cases "takeWhile is_digit s") (simp_all add: cmatch.simps[abs_def])
  then show ?thesis using False
    by (simp add: digits_re_def re_match_def rep_greedy_longest take_length_dropWhile)
       (simp add: cmatch.simps[abs_def])
qed

lemma digits_search:
  "search_regex digits_re s =
     (if takeWhile is_digit (dropWhile (\<lambda>c. \<not> is_digit c) s) = [] then None
      else Some (takeWhile is_digit (dropWhile (\<lambda>c. \<not> is_digit c) s)))"
proof -
  let ?t = "dropWhile (\<lambda>c. \<not> is_digit c) s"
  have "re_match digits_re (x # xs) = None" if "\<not> is_digit x" for x xs
    using that by (simp add: digits_match)
  then have s: "re_search digits_re s =
      map_option (\<lambda>(p, m, post, c). (takeWhile (\<lambda>c. \<not> is_digit c) s @ p, m, post, c)) (re_search digits_re ?t)"
    by (rule re_search_skip_while)
  show ?thesis
  proof (cases "takeWhile is_digit ?t = []")
    case True
    have e: "?t = []"
    proof (rule ccontr)
      assume n: "?t \<noteq> []"
      then have "is_digit (hd ?t)" using hd_dropWhile[of "\<lambda>c. \<not> is_digit c" s] by simp
      with n True show False by (cases ?t) auto
    qed
    have "re_search digits_re [] = None"
      by (simp add: re_search_Nil digits_match)
    then have "re_search digits_re ?t = None"
      by (simp only: e)
    with s True show ?thesis by (simp add: search_regex_def)
  next
    case False
    then have "re_match digits_re ?t = Some (dropWhile is_digit ?t, [Suc 0 \<mapsto> takeWhile is_digit ?t])"
      by (simp add: digits_match)
    then have "re_search digits_re ?t =
        Some ([], take (length ?t - length (dropWhile is_digit ?t)) ?t, dropWhile is_digit ?t,
              [Suc 0 \<mapsto> takeWhile is_digit ?t])"
      by (rule re_search_hit)
    with s False show ?thesis by (simp add: search_regex_def)
  qed
qed

lemma rep_greedy_complete:
  "list_all (cmatch cl) w \<Longrightarrow> m \<le> length w \<Longrightarrow> k s' \<noteq> None \<Longrightarrow> rep_greedy cl m (w @ s') k \<noteq> None"
proof (induction w arbitrary: m)
  case Nil
  then show ?case by (cases s') (auto split: option.splits)
next
  case (Cons x w)
  then have "rep_greedy cl (m - 1) (w @ s') k \<noteq> None" by simp
  with Cons.prems show ?case by auto
qed

lemma rep_lazy_complete:
  "list_all (cmatch cl) w \<Longrightarrow> m \<le> length w \<Longrightarrow> k s' \<noteq> None \<Longrightarrow> rep_lazy cl m (w @ s') k \<noteq> None"
proof (induction w arbitrary: m)
  case Nil
  then show ?case by (cases s') auto
next
  case (Cons x w)
  then have "rep_lazy cl (m - 1) (w @ s') k \<noteq> None" by simp
  with Cons.prems show ?case by (auto split: option.splits)
qed

lemma mt_sound:
  "mt r s c k = Some res \<Longrightarrow> \<exists>w s' c'. s = w @ s' \<and> matches r c w s' c' \<and> k s' c' = Some res"
proof (induction r arbitrary: s c k)
  case (Str u)
  then have u: "prefix u s" "k (drop (length u) s) c = Some res"
    by (auto split: if_splits)
  then have "s = u @ drop (length u) s" by (auto simp: prefix_def)
  with u have "s = u @ drop (length u) s \<and> matches (Str u) c u (drop (length u) s) c \<and>
      k (drop (length u) s) c = Some res" by simp
  then show ?case by blast
next
  case (Atom cl)
  then obtain x xs where "s = [x] @ xs" "cmatch cl x" "k xs c = Some res"
    by (cases s) (auto split: if_splits)
  then have "s = [x] @ xs \<and> matches (Atom cl) c [x] xs c \<and> k xs c = Some res" by simp
  then show ?case by blast
next
  case (Rep cl m g)
  then have "\<exists>w s'. s = w @ s' \<and> m \<le> length w \<and> list_all (cmatch cl) w \<and> k s' c = Some res"
    by (cases g) (auto dest!: rep_greedy_suffix rep_lazy_suffix)
  then obtain w s' where "s = w @ s'" "m \<le> length w" "list_all (cmatch cl) w" "k s' c = Some res"
    by blast
  then have "s = w @ s' \<and> matches (Rep cl m g) c w s' c \<and> k s' c = Some res" by simp
  then show ?case by blast
next
  case (Seq a b)
  from Seq.prems have "mt a s c (\<lambda>s' c'. mt b s' c' k) = Some res" by simp
  from Seq.IH(1)[OF this] obtain w1 s1 c1 where
    1: "s = w1 @ s1" "matches a c w1 s1 c1" "mt b s1 c1 k = Some res" by blast
  from Seq.IH(2)[OF 1(3)] obtain w2 s2 c2 where
    2: "s1 = w2 @ s2" "matches b c1 w2 s2 c2" "k s2 c2 = Some res" by blast
  from 1 2 have "s = (w1 @ w2) @ s2 \<and> matches (Seq a b) c (w1 @ w2) s2 c2 \<and> k s2 c2 = Some res"
    by auto
  then show ?case by blast
next
  case (Alt a b)
  show ?case
  proof (cases "mt a s c k")
    case None
    with Alt.prems have "mt b s c k = Some res" by simp
    from Alt.IH(2)[OF this] obtain w s' c' where
      "s = w @ s'" "matches b c w s' c'" "k s' c' = Some res" by blast
    then have "s = w @ s' \<and> matches (Alt a b) c w s' c' \<and> k s' c' = Some res" by simp
    then show ?thesis by blast
  next
    case (Some r')
    with Alt.prems have "mt a s c k = Some res" by simp
    from Alt.IH(1)[OF this] obtain w s' c' where
      "s = w @ s'" "matches a c w s' c'" "k s' c' = Some res" by blast
    then have "s = w @ s' \<and> matches (Alt a b) c w s' c' \<and> k s' c' = Some res" by simp
    then show ?thesis by blast
  qed
next
  case (Grp n r)
  from Grp.prems have "mt r s c (\<lambda>s' c'. k s' (c'(n \<mapsto> take (length s - length s') s))) = Some res"
    by simp
  from Grp.IH[OF this] obtain w s' c1 where
    "s = w @ s'" "matches r c w s' c1" "k s' (c1(n \<mapsto> take (length s - length s') s)) = Some res"
    by blast
  then have "s = w @ s' \<and> matches (Grp n r) c w s' (c1(n \<mapsto> w)) \<and> k s' (c1(n \<mapsto> w)) = Some res"
    by auto
  then show ?case by blast
next
  case (Back n)
  then obtain u where u: "c n = Some u" "prefix u s" "k (drop (length u) s) c = Some res"
    by (auto split: option.splits if_splits)
  then have "s = u @ drop (length u) s" by (auto simp: prefix_def)
  with u have "s = u @ drop (length u) s \<and> matches (Back n) c u (drop (length u) s) c \<and>
      k (drop (length u) s) c = Some res" by simp
  then show ?case by blast
next
  case Eos
  then have "s = [] @ s \<and> matches Eos c [] s c \<and> k s c = Some res"
    by (auto split: if_splits)
  then show ?case by blast
qed

lemma mt_complete:
  "matches r c w s' c' \<Longrightarrow> k s' c' \<noteq> None \<Longrightarrow> mt r (w @ s') c k \<noteq> None"
proof (induction r arbitrary: c w s' c' k)
  case (Str u)
  then show ?case by auto
next
  case (Atom cl)
  then show ?case by auto
next
  case (Rep cl m g)
  then have "list_all (cmatch cl) w" "m \<le> length w" "(\<lambda>s'. k s' c) s' \<noteq> None" by auto
  then have "rep_greedy cl m (w @ s') (\<lambda>s'. k s' c) \<noteq> None"
    "rep_lazy cl m (w @ s') (\<lambda>s'. k s' c) \<noteq> None"
    by (rule rep_greedy_complete, rule rep_lazy_complete)
  then show ?case by simp
next
  case (Seq a b)
  from Seq.prems obtain w1 w2 c1 where
    w: "w = w1 @ w2" "matches a c w1 (w2 @ s') c1" "matches b c1 w2 s' c'" by auto
  have "mt b (w2 @ s') c1 k \<noteq> None"
    using w(3) Seq.prems(2) by (rule Seq.IH(2))
  then have "(\<lambda>s' c'. mt b s' c' k) (w2 @ s') c1 \<noteq> None" by simp
  with w(2) have "mt a (w1 @ w2 @ s') c (\<lambda>s' c'. mt b s' c' k) \<noteq> None"
    by (rule Seq.IH(1))
  with w show ?case by simp
next
  case (Alt a b)
  from Alt.prems(1) consider "matches a c w s' c'" | "matches b c w s' c'" by auto
  then show ?case
  proof cases
    case 1
    then have "mt a (w @ s') c k \<noteq> None" using Alt.prems(2) by (rule Alt.IH(1))
    then show ?thesis by auto
  next
    case 2
    then have "mt b (w @ s') c k \<noteq> None" using Alt.prems(2) by (rule Alt.IH(2))
    then show ?thesis by (auto split: option.splits)
  qed
next
  case (Grp n r)
  from Grp.prems obtain c1 where c1: "matches r c w s' c1" "c' = c1(n \<mapsto> w)" by auto
  from Grp.prems(2) have "k s' (c1(n \<mapsto> w)) \<noteq> None"
    unfolding c1(2) .
  then have "(\<lambda>s'' c''. k s'' (c''(n \<mapsto> take (length (w @ s') - length s'') (w @ s')))) s' c1 \<noteq> None"
    by simp
  with c1(1) have "mt r (w @ s') c (\<lambda>s'' c''. k s'' (c''(n \<mapsto> take (length (w @ s') - length s'') (w @ s')))) \<noteq> None"
    by (rule Grp.IH)
  then show ?case by simp
next
  case (Back n)
  then show ?case by auto
next
  case Eos
  then show ?case by auto
qed

lemma re_match_sound:
  "re_match r s = Some (s', c') \<Longrightarrow> \<exists>w. s = w @ s' \<and> matches r Map.empty w s' c'"
  unfolding re_match_def by (drule mt_sound) auto

lemma re_match_complete:
  "matches r Map.empty w s' c' \<Longrightarrow> re_match r (w @ s') \<noteq> None"
  unfolding re_match_def by (rule mt_complete) simp_all

lemma re_match_None_iff:
  "re_match r s = None \<longleftrightarrow> (\<forall>w s' c'. s = w @ s' \<longrightarrow> \<not> matches r Map.empty w s' c')"
proof
  assume "re_match r s = None"
  then show "\<forall>w s' c'. s = w @ s' \<longrightarrow> \<not> matches r Map.empty w s' c'"
    using re_match_complete by blast
next
  assume a: "\<forall>w s' c'. s = w @ s' \<longrightarrow> \<not> matches r Map.empty w s' c'"
  show "re_match r s = None"
  proof (cases "re_match r s")
    case (Some p)
    then obtain s' c' where "re_match r s = Some (s', c')" by (cases p) auto
    from re_match_sound[OF this] a show ?thesis by blast
  qed simp
qed



lemma matches_Seq_Atom:
  "matches (Seq (Atom cl) b) c w rest c' \<longleftrightarrow>
     (\<exists>x w2. w = x # w2 \<and> cmatch cl x \<and> matches b c w2 rest c')"
proof
  assume "matches (Seq (Atom cl) b) c w rest c'"
  then show "\<exists>x w2. w = x # w2 \<and> cmatch cl x \<and> matches b c w2 rest c'" by auto
next
  assume "\<exists>x w2. w = x # w2 \<and> cmatch cl x \<and> matches b c w2 rest c'"
  then obtain x w2 where "w = [x] @ w2" "matches (Atom cl) c [x] (w2 @ rest) c" "matches b c w2 rest c'"
    by auto
  then show "matches (Seq (Atom cl) b) c w rest c'" unfolding matches.simps(4) by blast
qed

lemma matches_Seq_Str:
  "matches (Seq (Str u) b) c w rest c' \<longleftrightarrow> (\<exists>w2. w = u @ w2 \<and> matches b c w2 rest c')"
  by auto

lemma matches_Seq_Rep:
  "matches (Seq (Rep cl m g) b) c w rest c' \<longleftrightarrow>
     (\<exists>w1 w2. w = w1 @ w2 \<and> m \<le> length w1 \<and> list_all (cmatch cl) w1 \<and> matches b c w2 rest c')"
  by auto

lemma date_shaped_length: "date_shaped s \<Longrightarrow> length s = 10"
  by (induction s rule: date_shaped.induct) auto

lemma date_matches:
  "matches date_re c w rest c'
   \<longleftrightarrow> date_shaped w \<and> c' = c(Suc 0 \<mapsto> w)"
proof
  assume "matches date_re c w rest c'"
  then show "date_shaped w \<and> c' = c(Suc 0 \<mapsto> w)"
    by (auto simp: date_re_def matches_Seq_Atom matches_Seq_Str ascii_def simp del: matches.simps(4))
next
  assume a: "date_shaped w \<and> c' = c(Suc 0 \<mapsto> w)"
  then obtain x1 x2 x3 x4 x5 x6 x7 x8 x9 x10 where w: "w = [x1, x2, x3, x4, x5, x6, x7, x8, x9, x10]"
    by (auto elim: date_shaped.elims)
  with a show "matches date_re c w rest c'"
    by (simp add: date_re_def matches_Seq_Atom matches_Seq_Str ascii_def del: matches.simps(4))
qed

lemma date_match:
  "re_match date_re s =
     (if date_shaped (take 10 s) then Some (drop 10 s, [Suc 0 \<mapsto> take 10 s]) else None)"

proof (cases "re_match date_re s")
  case None
  have "\<not> date_shaped (take 10 s)"
  proof
    assume "date_shaped (take 10 s)"
    then have "matches date_re Map.empty (take 10 s) (drop 10 s) [Suc 0 \<mapsto> take 10 s]"
      by (simp only: date_matches)
    moreover have "s = take 10 s @ drop 10 s" by simp
    ultimately show False using None unfolding re_match_None_iff by blast
  qed
  with None show ?thesis by simp
next
  case (Some p)
  obtain s' c' where p: "p = (s', c')" by (cases p)
  with Some obtain w where w: "s = w @ s'" "matches date_re Map.empty w s' c'"
    by (auto dest: re_match_sound)
  then have d: "date_shaped w" "c' = [Suc 0 \<mapsto> w]" by (simp_all only: date_matches)
  then have "length w = 10" by (simp add: date_shaped_length)
  with w(1) have "take 10 s = w" "drop 10 s = s'" by simp_all
  with d Some p show ?thesis by simp
qed



lemma date_search_Some:
  assumes "re_search date_re v
           = Some (pre, m, post, c)"
  shows "v = pre @ m @ post \<and> date_shaped m \<and> c = [Suc 0 \<mapsto> m] \<and>
         (\<forall>pre' sub post'. v = pre' @ sub @ post' \<and> date_shaped sub \<longrightarrow> length pre \<le> length pre')"
proof -
  from re_search_Some[OF assms] have
    v: "v = pre @ m @ post" and
    h: "re_match date_re (m @ post) = Some (post, c)" and
    n: "\<forall>i<length pre. re_match date_re (drop i v) = None" by auto
  from h have d: "date_shaped (take 10 (m @ post))" "post = drop 10 (m @ post)"
    "c = [Suc 0 \<mapsto> take 10 (m @ post)]"
    by (auto simp: date_match split: if_splits)
  from d(1) have "length (take 10 (m @ post)) = 10" by (rule date_shaped_length)
  then have "10 \<le> length m + length post" by simp
  moreover from d(2) have "length post = length (m @ post) - 10" by (metis length_drop)
  then have "length post = length m + length post - 10" by (simp only: length_append)
  ultimately have "length m = 10" by arith
  then have t: "take 10 (m @ post) = m" by simp
  have "length pre \<le> length pre'" if "v = pre' @ sub @ post'" "date_shaped sub" for pre' sub post'
  proof (rule ccontr)
    assume "\<not> length pre \<le> length pre'"
    then have "re_match date_re (drop (length pre') v) = None" using n by simp
    moreover have "drop (length pre') v = sub @ post'" using that(1) by simp
    moreover have "take 10 (sub @ post') = sub" using date_shaped_length[OF that(2)] by simp
    ultimately show False using that(2) by (simp add: date_match)
  qed
  with v d t show ?thesis by auto
qed

lemma date_search_None:
  assumes "re_search date_re v = None"
  shows "\<not> (\<exists>pre sub post. v = pre @ sub @ post \<and> date_shaped sub)"
proof
  assume "\<exists>pre sub post. v = pre @ sub @ post \<and> date_shaped sub"
  then obtain pre sub post where v: "v = pre @ sub @ post" "date_shaped sub" by blast
  from assms have "\<forall>i\<le>length v. re_match date_re (drop i v) = None"
    by (simp only: re_search_None_iff)
  moreover have "length pre \<le> length v" using v(1) by simp
  ultimately have "re_match date_re (drop (length pre) v) = None" by blast
  moreover have "drop (length pre) v = sub @ post" using v(1) by simp
  moreover have "take 10 (sub @ post) = sub" using date_shaped_length[OF v(2)] by simp
  ultimately show False using v(2) by (simp add: date_match)
qed

lemma not_digit_slash: "\<not> is_digit (of_char CHR ''/'')"
  by (simp add: is_digit_def decimal_def digit_zeros_def)

lemma date_shaped_replace:
  "date_shaped sub \<Longrightarrow>
   replace_chr (of_char CHR ''/'') [] sub = take 4 sub @ take 2 (drop 5 sub) @ take 2 (drop 8 sub)"
  using not_digit_slash
  by (induction sub rule: date_shaped.induct) (auto simp: replace_chr_def)

lemma upload_date_getter:
  "try_get data_dict
     (\<lambda>x. case getitem x (ascii ''date'') of
             Inl e \<Rightarrow> Inl e
           | Inr d \<Rightarrow>
               (case search_regex date_re d of
                  None \<Rightarrow> Inl AttributeError
                | Some v \<Rightarrow> Inr (Some (replace_chr (of_char CHR ''/'') [] v)))) =
   Inr (case data_dict (ascii ''date'') of
          None \<Rightarrow> None
        | Some d \<Rightarrow> map_option (replace_chr (of_char CHR ''/'') []) (search_regex date_re d))"
  by (simp add: try_get_def getitem_def split: option.splits)

subsection \<open>The assembly in terms of the dictionary\<close>

lemma video_assemble_Inr:
  assumes "dd (ascii ''user_name'') = Some un" "dd (ascii ''audience'') = Some a"
    "dd (ascii ''nice'') = Some n" "dd (ascii ''song_title'') = Some st"
    "dd (ascii ''song_artist'') = Some sa"
  shows "DamtomoVideoIE_assemble video_id t u d dd m =
     Inr \<lparr> id' = video_id, title = t, uploader_id = u, description = d,
           formats = [\<lparr> format_id = ascii ''hls'', url = m, ext = ascii ''mp4'',
                        protocol = ascii ''m3u8_native'' \<rparr>],
           uploader = un,
           upload_date = (case dd (ascii ''date'') of
                            None \<Rightarrow> None
                          | Some v \<Rightarrow> map_option (replace_chr (of_char CHR ''/'') [])
                                        (search_regex date_re v)),
           view_count = int_or_none (search_regex digits_re a),
           like_count = int_or_none (search_regex digits_re n),
           song_title = st, song_artist = sa \<rparr>"
  using assms unfolding DamtomoVideoIE_assemble_def upload_date_getter
  by (simp add: getitem_def)

lemma video_assemble_Inl:
  "DamtomoVideoIE_assemble video_id t u d dd m = Inl e \<longleftrightarrow>
     (if dd (ascii ''user_name'') = None then e = KeyError (ascii ''user_name'')
      else if dd (ascii ''audience'') = None then e = KeyError (ascii ''audience'')
      else if dd (ascii ''nice'') = None then e = KeyError (ascii ''nice'')
      else if dd (ascii ''song_title'') = None then e = KeyError (ascii ''song_title'')
      else dd (ascii ''song_artist'') = None \<and> e = KeyError (ascii ''song_artist''))"
  unfolding DamtomoVideoIE_assemble_def upload_date_getter
  by (auto simp: getitem_def split: option.splits)

subsection \<open>The example page\<close>

lemmas eval_re =
  ascii_def re_finditer.simps re_sub.simps re_search_def re_match_def match_group_def is_space_def
  field_re_def spaces_re_def suffix_re_def description_re_def uploader_id_re_def

lemma example_finditer_no_date:
  \<open>re_finditer field_re example_page_no_date =
     [(ascii ''<p class="user_name">'' @ [65326, 65313, 65326, 65313, 32, 12373, 12435] @ ascii ''</p>'',
       [1 \<mapsto> ascii ''p'', 2 \<mapsto> ascii ''user_name'',
        3 \<mapsto> [65326, 65313, 65326, 65313, 32, 12373, 12435]]),
      (ascii ''<p class="song_title">'' @ [12452, 12459] @ ascii ''SUMMER ['' @ [33391, 38899] @ ascii '']</p>'',
       [1 \<mapsto> ascii ''p'', 2 \<mapsto> ascii ''song_title'',
        3 \<mapsto> [12452, 12459] @ ascii ''SUMMER ['' @ [33391, 38899] @ ascii '']'']),
      (ascii ''<div class="song_artist">ORANGE  RANGE</div>'',
       [1 \<mapsto> ascii ''div'', 2 \<mapsto> ascii ''song_artist'', 3 \<mapsto> ascii ''ORANGE  RANGE'']),
      (ascii ''<p class="audience">4 '' @ [22238, 35222, 32884] @ ascii ''</p>'',
       [1 \<mapsto> ascii ''p'', 2 \<mapsto> ascii ''audience'', 3 \<mapsto> [52, 32, 22238, 35222, 32884]]),
      (ascii ''<p class="nice">1</p>'',
       [1 \<mapsto> ascii ''p'', 2 \<mapsto> ascii ''nice'', 3 \<mapsto> ascii ''1''])]\<close>
  by (simp add: example_page_no_date_def eval_re)

lemma example_finditer:
  \<open>re_finditer field_re example_page =
     [(ascii ''<p class="user_name">'' @ [65326, 65313, 65326, 65313, 32, 12373, 12435] @ ascii ''</p>'',
       [1 \<mapsto> ascii ''p'', 2 \<mapsto> ascii ''user_name'',
        3 \<mapsto> [65326, 65313, 65326, 65313, 32, 12373, 12435]]),
      (ascii ''<p class="song_title">'' @ [12452, 12459] @ ascii ''SUMMER ['' @ [33391, 38899] @ ascii '']</p>'',
       [1 \<mapsto> ascii ''p'', 2 \<mapsto> ascii ''song_title'',
        3 \<mapsto> [12452, 12459] @ ascii ''SUMMER ['' @ [33391, 38899] @ ascii '']'']),
      (ascii ''<div class="song_artist">ORANGE  RANGE</div>'',
       [1 \<mapsto> ascii ''div'', 2 \<mapsto> ascii ''song_artist'', 3 \<mapsto> ascii ''ORANGE  RANGE'']),
      (ascii ''<p class="audience">4 '' @ [22238, 35222, 32884] @ ascii ''</p>'',
       [1 \<mapsto> ascii ''p'', 2 \<mapsto> ascii ''audience'', 3 \<mapsto> [52, 32, 22238, 35222, 32884]]),
      (ascii ''<p class="nice">1</p>'',
       [1 \<mapsto> ascii ''p'', 2 \<mapsto> ascii ''nice'', 3 \<mapsto> ascii ''1'']),
      (ascii ''<p class="date">2021/07/21 12:00</p>'',
       [1 \<mapsto> ascii ''p'', 2 \<mapsto> ascii ''date'', 3 \<mapsto> ascii ''2021/07/21 12:00''])]\<close>
  by (simp add: example_page_def example_page_no_date_def eval_re)

lemmas eval_dict = ascii_def re_sub.simps re_search_def re_match_def match_group_def is_space_def
  spaces_re_def strip_def

lemma example_data_dict:
  "DamtomoVideoIE_data_dict strip example_page_no_date (ascii ''user_name'') =
     Some [65326, 65313, 65326, 65313, 32, 12373, 12435]"
  "DamtomoVideoIE_data_dict strip example_page_no_date (ascii ''song_title'') =
     Some ([12452, 12459] @ ascii ''SUMMER ['' @ [33391, 38899] @ ascii '']'')"
  "DamtomoVideoIE_data_dict strip example_page_no_date (ascii ''song_artist'') =
     Some (ascii ''ORANGE RANGE'')"
  "DamtomoVideoIE_data_dict strip example_page_no_date (ascii ''audience'') =
     Some ([52, 32, 22238, 35222, 32884])"
  "DamtomoVideoIE_data_dict strip example_page_no_date (ascii ''nice'') = Some (ascii ''1'')"
  "DamtomoVideoIE_data_dict strip example_page_no_date (ascii ''date'') = None"
  unfolding DamtomoVideoIE_data_dict_def example_finditer_no_date
  by (simp_all add: eval_dict)

lemma example_data_dict_date:
  "DamtomoVideoIE_data_dict strip example_page (ascii ''user_name'') =
     Some [65326, 65313, 65326, 65313, 32, 12373, 12435]"
  "DamtomoVideoIE_data_dict strip example_page (ascii ''song_title'') =
     Some ([12452, 12459] @ ascii ''SUMMER ['' @ [33391, 38899] @ ascii '']'')"
  "DamtomoVideoIE_data_dict strip example_page (ascii ''song_artist'') =
     Some (ascii ''ORANGE RANGE'')"
  "DamtomoVideoIE_data_dict strip example_page (ascii ''audience'') =
     Some ([52, 32, 22238, 35222, 32884])"
  "DamtomoVideoIE_data_dict strip example_page (ascii ''nice'') = Some (ascii ''1'')"
  "DamtomoVideoIE_data_dict strip example_page (ascii ''date'') = Some (ascii ''2021/07/21 12:00'')"
  unfolding DamtomoVideoIE_data_dict_def example_finditer
  by (simp_all add: eval_dict)

lemma example_user_name:
  "DamtomoVideoIE_user_name [65326, 65313, 65326, 65313, 32, 12373, 12435] = [65326, 65313, 65326, 65313]"
  "DamtomoVideoIE_user_name [31665, 12398, 12300, 20013, 12398, 20154, 12301, 12373, 12435] =
     [31665, 12398, 12300, 20013, 12398, 20154, 12301]"
  "DamtomoVideoIE_user_name [65326, 65313, 65326, 65313] = [65326, 65313, 65326, 65313]"
  "DamtomoVideoIE_user_name [88, 12373, 12435, 32] = [88]"
  by (simp_all add: DamtomoVideoIE_user_name_def eval_re)

lemma example_optional:
  "search_regex description_re example_page_no_date = None"
  "search_regex uploader_id_re example_page_no_date = Some (ascii ''MzAyMDExNTY'')"
  "search_regex description_re example_page = None"
  "search_regex uploader_id_re example_page = Some (ascii ''MzAyMDExNTY'')"
  by (simp_all add: search_regex_def example_page_def example_page_no_date_def eval_re)

lemma example_marker:
  "\<not> py_in (ascii ''<h2>'' @
             [20104, 26399, 12379, 12396, 12456, 12521, 12540, 12364, 30330, 29983,
              12375, 12414, 12375, 12383, 12290] @ ascii ''</h2>'') example_page_no_date"
  "\<not> py_in (ascii ''<h2>'' @
             [20104, 26399, 12379, 12396, 12456, 12521, 12540, 12364, 30330, 29983,
              12375, 12414, 12375, 12383, 12290] @ ascii ''</h2>'') example_page"
  by (simp_all add: example_page_def example_page_no_date_def ascii_def)

lemma example_find:
  "xml_find uri (ascii ''streamingUrl'') (example_tree uri) =
     Some (Element (ascii ''{'' @ uri @ ascii ''}streamingUrl'')
             (Some (ascii '' https://example.com/stream.m3u8'' @ [10])) [])"
  by (simp add: xml_find_def example_tree_def ascii_def)

lemma example_strip:
  "strip (ascii '' https://example.com/stream.m3u8'' @ [10]) = ascii ''https://example.com/stream.m3u8''"
  by (simp add: strip_def ascii_def is_space_def)

subsection \<open>The first run of digits\<close>

lemma first_run:
  assumes "\<forall>c\<in>set pre. \<not> is_digit c" "run \<noteq> []" "\<forall>c\<in>set run. is_digit c"
    "post = [] \<or> \<not> is_digit (hd post)"
  shows "takeWhile is_digit (dropWhile (\<lambda>c. \<not> is_digit c) (pre @ run @ post)) = run"
proof -
  from assms(1) have "dropWhile (\<lambda>c. \<not> is_digit c) (pre @ run @ post) =
      dropWhile (\<lambda>c. \<not> is_digit c) (run @ post)"
    by (simp add: dropWhile_append2)
  also from assms(2,3) have "\<dots> = run @ post" by (cases run) auto
  finally have "takeWhile is_digit (dropWhile (\<lambda>c. \<not> is_digit c) (pre @ run @ post)) =
      takeWhile is_digit (run @ post)" by simp
  also from assms(3) have "\<dots> = run @ takeWhile is_digit post" by (simp add: takeWhile_append2)
  also from assms(4) have "takeWhile is_digit post = []" by (cases post) auto
  finally show ?thesis by simp
qed

lemma digits_value_snoc:
  "digits_value (s @ [c]) = 10 * digits_value s + int (the (decimal c))"
  by (simp add: digits_value_def)

lemma base_ten_snoc: "base_ten (ds @ [d]) = 10 * base_ten ds + int d"
  by (induction ds) (simp_all add: algebra_simps)

lemma digits_value_base_ten: "digits_value s = base_ten (map (\<lambda>c. the (decimal c)) s)"
proof (induction s rule: rev_induct)
  case Nil
  show ?case by (simp add: digits_value_def)
next
  case (snoc c s)
  then show ?case by (simp add: digits_value_snoc base_ten_snoc)
qed

lemma count_run:
  assumes "\<forall>c\<in>set pre. \<not> is_digit c" "run \<noteq> []" "\<forall>c\<in>set run. is_digit c"
    "post = [] \<or> \<not> is_digit (hd post)"
  shows "int_or_none (search_regex digits_re (pre @ run @ post)) =
           (if length run \<le> 4300 then Some (base_ten (map (\<lambda>c. the (decimal c)) run)) else None)"
  using assms(2,3)
  by (simp add: digits_search first_run[OF assms] py_int_def list_all_iff int_max_str_digits_def
      digits_value_base_ten)

lemma count_none:
  assumes "\<forall>c\<in>set a. \<not> is_digit c"
  shows "int_or_none (search_regex digits_re a) = None"
proof -
  from assms have "dropWhile (\<lambda>c. \<not> is_digit c) a = []" by simp
  then have "takeWhile is_digit (dropWhile (\<lambda>c. \<not> is_digit c) a) = []" by (simp only: takeWhile.simps)
  then have "search_regex digits_re a = None" by (simp only: digits_search simp_thms if_True)
  then show ?thesis by simp
qed

lemma ascii_eq_iff: "ascii a = ascii b \<longleftrightarrow> a = b"
proof -
  have "inj (of_char :: char \<Rightarrow> nat)" by (rule injI) simp
  then show ?thesis unfolding ascii_def by (rule inj_map_eq_map)
qed

lemma example_scrape:
  "DamtomoVideoIE_scrape strip example_page =
     Inr (None, Some (ascii ''MzAyMDExNTY''),
          (DamtomoVideoIE_data_dict strip example_page)
            (ascii ''user_name'' \<mapsto> [65326, 65313, 65326, 65313]),
          [12452, 12459] @ ascii ''SUMMER ['' @ [33391, 38899] @ ascii '']-ORANGE RANGE-'' @
          [65326, 65313, 65326, 65313])"
  "DamtomoVideoIE_scrape strip example_page_no_date =
     Inr (None, Some (ascii ''MzAyMDExNTY''),
          (DamtomoVideoIE_data_dict strip example_page_no_date)
            (ascii ''user_name'' \<mapsto> [65326, 65313, 65326, 65313]),
          [12452, 12459] @ ascii ''SUMMER ['' @ [33391, 38899] @ ascii '']-ORANGE RANGE-'' @
          [65326, 65313, 65326, 65313])"
  by (simp_all add: DamtomoVideoIE_scrape_def example_optional example_data_dict
      example_data_dict_date example_user_name getitem_def ascii_eq_iff)
     (simp_all add: ascii_def)

lemmas eval_digit = is_digit_def decimal_def digit_zeros_def

lemma example_date:
  "search_regex date_re (ascii ''2021/07/21 12:00'') = Some (ascii ''2021/07/21'')"
  by (simp add: search_regex_def re_search_def re_match_def date_re_def ascii_def eval_digit)

lemma example_counts:
  "int_or_none (search_regex digits_re [52, 32, 22238, 35222, 32884]) = Some 4"
  "int_or_none (search_regex digits_re (ascii ''1'')) = Some 1"
  "int_or_none (search_regex digits_re [20877, 29983, 28961, 12375]) = None"
  by (simp_all add: search_regex_def re_search_def re_match_def digits_re_def ascii_def eval_digit
      py_int_def digits_value_def int_max_str_digits_def)

lemma example_fields:
  "example_fields a n (ascii ''audience'') = Some a"
  "example_fields a n (ascii ''nice'') = Some n"
  "example_fields a n (ascii ''user_name'') = Some (ascii ''u'')"
  "example_fields a n (ascii ''song_title'') = Some (ascii ''s'')"
  "example_fields a n (ascii ''song_artist'') = Some (ascii ''a'')"
  by (simp_all add: example_fields_def ascii_eq_iff)

lemma example_fields_date: "example_fields a n (ascii ''date'') = None"
  by (simp add: example_fields_def ascii_eq_iff)

subsection \<open>The shape of a whole call\<close>

lemma video_real_extract_Inr:
  assumes "DamtomoVideoIE_real_extract h video_id = (tr, Inr r)"
  shows "\<exists>webpage final_url d u dd t tree m.
           download_webpage_handle h (video_page_url video_id) = Inr (webpage, final_url) \<and>
           final_url \<noteq> rate_limit_url \<and> \<not> py_in error_marker webpage \<and>
           DamtomoVideoIE_scrape (clean_html h) webpage = Inr (d, u, dd, t) \<and>
           download_xml h (video_xml_url video_id) = Inr tree \<and>
           DamtomoVideoIE_m3u8_url tree = Inr (Some m) \<and> m \<noteq> [] \<and>
           DamtomoVideoIE_assemble video_id t u d dd m = Inr r \<and>
           tr = [video_page_url video_id, video_xml_url video_id]"
  using assms unfolding DamtomoVideoIE_real_extract_def Let_def
  by (auto split: sum.splits prod.splits if_splits option.splits)

lemma record_real_extract_Inr:
  assumes "DamtomoRecordIE_real_extract h video_id = (tr, Inr r)"
  shows "\<exists>webpage final_url d u dd t tree m.
           download_webpage_handle h (record_page_url video_id) = Inr (webpage, final_url) \<and>
           final_url \<noteq> rate_limit_url \<and> \<not> py_in error_marker webpage \<and>
           DamtomoRecordIE_scrape (clean_html h) webpage = Inr (d, u, dd, t) \<and>
           download_xml h (record_xml_url video_id) = Inr tree \<and>
           DamtomoRecordIE_m3u8_url tree = Inr (Some m) \<and> m \<noteq> [] \<and>
           DamtomoRecordIE_assemble video_id t u d dd m = Inr r \<and>
           tr = [record_page_url video_id, record_xml_url video_id]"
  using assms unfolding DamtomoRecordIE_real_extract_def Let_def
  by (auto split: sum.splits prod.splits if_splits option.splits)

lemma video_assemble_fields:
  assumes "DamtomoVideoIE_assemble video_id t u d dd m = Inr r"
  shows "id' r = video_id \<and> title r = t \<and> uploader_id r = u \<and> description r = d \<and>
         formats r = [hls_format m] \<and> dd (ascii ''user_name'') = Some (uploader r) \<and>
         dd (ascii ''song_title'') = Some (song_title r) \<and>
         dd (ascii ''song_artist'') = Some (song_artist r) \<and>
         dd (ascii ''audience'') \<noteq> None \<and> dd (ascii ''nice'') \<noteq> None"
  using assms unfolding DamtomoVideoIE_assemble_def upload_date_getter
  by (auto simp: getitem_def split: option.splits)

subsection \<open>The example calls\<close>

lemma example_assemble:
  "DamtomoVideoIE_assemble example_id
      ([12452, 12459] @ ascii ''SUMMER ['' @ [33391, 38899] @ ascii '']-ORANGE RANGE-'' @
          [65326, 65313, 65326, 65313])
      (Some (ascii ''MzAyMDExNTY'')) None
      ((DamtomoVideoIE_data_dict strip example_page)
            (ascii ''user_name'' \<mapsto> [65326, 65313, 65326, 65313]))
      (ascii ''https://example.com/stream.m3u8'') = Inr example_info"
  unfolding example_info_def
  apply (subst video_assemble_Inr)
  apply (simp_all add: example_data_dict_date ascii_eq_iff example_date)
  apply (simp add: example_counts)
  apply (simp add: replace_chr_def ascii_def)
  done

lemma example_assemble_no_date:
  "DamtomoVideoIE_assemble example_id
      ([12452, 12459] @ ascii ''SUMMER ['' @ [33391, 38899] @ ascii '']-ORANGE RANGE-'' @
          [65326, 65313, 65326, 65313])
      (Some (ascii ''MzAyMDExNTY'')) None
      ((DamtomoVideoIE_data_dict strip example_page_no_date)
            (ascii ''user_name'' \<mapsto> [65326, 65313, 65326, 65313]))
      (ascii ''https://example.com/stream.m3u8'') = Inr (example_info\<lparr>upload_date := None\<rparr>)"
  unfolding example_info_def
  apply (subst video_assemble_Inr)
  apply (simp_all add: example_data_dict ascii_eq_iff)
  apply (simp add: example_counts)
  done

lemma example_video_extract:
  "DamtomoVideoIE_real_extract example_video_host example_id =
     ([video_page_url example_id, video_xml_url example_id], Inr example_info)"
  unfolding DamtomoVideoIE_real_extract_def Let_def example_video_host_def
  using example_marker(2) example_scrape(1) example_assemble example_find[of video_ns] example_strip
  by (simp add: example_host_def video_m3u8_url ascii_eq_iff) (simp add: ascii_def)

lemma example_record_extract:
  "DamtomoRecordIE_real_extract example_record_host example_id =
     ([record_page_url example_id, record_xml_url example_id], Inr example_info)"
  unfolding DamtomoRecordIE_real_extract_def Let_def example_record_host_def record_scrape
    record_assemble
  using example_marker(2) example_scrape(1) example_assemble example_find[of record_ns] example_strip
  by (simp add: example_host_def record_m3u8_url ascii_eq_iff) (simp add: ascii_def)

lemma example_video_extract_no_date:
  "DamtomoVideoIE_real_extract
     (example_host example_page_no_date (video_page_url example_id) (example_tree video_ns))
     example_id =
     ([video_page_url example_id, video_xml_url example_id],
      Inr (example_info\<lparr>upload_date := None\<rparr>))"
  unfolding DamtomoVideoIE_real_extract_def Let_def
  using example_marker(1) example_scrape(2) example_assemble_no_date example_find[of video_ns]
    example_strip
  by (simp add: example_host_def video_m3u8_url ascii_eq_iff) (simp add: ascii_def)

lemma example_record_on_video_host:
  "DamtomoRecordIE_real_extract example_video_host example_id =
     ([record_page_url example_id, record_xml_url example_id], Inl ManifestNotFound)"
  unfolding DamtomoRecordIE_real_extract_def Let_def example_video_host_def record_scrape
    record_assemble
  using example_marker(2) example_scrape(1)
  by (simp add: example_host_def record_m3u8_url ascii_eq_iff xml_find_def example_tree_def)
     (simp add: ascii_def)

section \<open>The two error pages\<close>

text \<open>
  C1. In either extractor, when the first request comes back from
  \<^verbatim>\<open>https://www.clubdam.com/sorry/\<close>, the call raises the expected \<^verbatim>\<open>ExtractorError\<close> that
  tells of the rate limit, whatever the page, the cleaning function and the manifest
  document are; the page is the only request made.
\<close>

theorem rate_limited:
  "(download_webpage_handle h
      (ascii ''https://www.clubdam.com/app/damtomo/karaokeMovie/StreamingDkm.do?karaokeMovieId='' @ video_id)
      = Inr (webpage, ascii ''https://www.clubdam.com/sorry/'') \<longrightarrow>
    DamtomoVideoIE_real_extract h video_id =
      ([ascii ''https://www.clubdam.com/app/damtomo/karaokeMovie/StreamingDkm.do?karaokeMovieId='' @ video_id],
       Inl (ExtractorError ''You are rate-limited. Try again later.'' True))) \<and>
   (download_webpage_handle h
      (ascii ''https://www.clubdam.com/app/damtomo/karaokePost/StreamingKrk.do?karaokeContributeId='' @ video_id)
      = Inr (webpage, ascii ''https://www.clubdam.com/sorry/'') \<longrightarrow>
    DamtomoRecordIE_real_extract h video_id =
      ([ascii ''https://www.clubdam.com/app/damtomo/karaokePost/StreamingKrk.do?karaokeContributeId='' @ video_id],
       Inl (ExtractorError ''You are rate-limited. Try again later.'' True)))"
  by (simp add: DamtomoVideoIE_real_extract_def DamtomoRecordIE_real_extract_def)

theorem rate_limited_witness:
  "download_webpage_handle
     (example_host example_page (ascii ''https://www.clubdam.com/sorry/'') (example_tree []))
     (ascii ''https://www.clubdam.com/app/damtomo/karaokeMovie/StreamingDkm.do?karaokeMovieId='' @ ascii ''2414316'')
     = Inr (example_page, ascii ''https://www.clubdam.com/sorry/'') \<and>
   DamtomoVideoIE_real_extract
     (example_host example_page (ascii ''https://www.clubdam.com/sorry/'') (example_tree []))
     (ascii ''2414316'') =
     ([ascii ''https://www.clubdam.com/app/damtomo/karaokeMovie/StreamingDkm.do?karaokeMovieId='' @ ascii ''2414316''],
      Inl (ExtractorError ''You are rate-limited. Try again later.'' True)) \<and>
   DamtomoRecordIE_real_extract
     (example_host example_page (ascii ''https://www.clubdam.com/sorry/'') (example_tree []))
     (ascii ''2414316'') =
     ([ascii ''https://www.clubdam.com/app/damtomo/karaokePost/StreamingKrk.do?karaokeContributeId='' @ ascii ''2414316''],
      Inl (ExtractorError ''You are rate-limited. Try again later.'' True))"
  using rate_limited [of "example_host example_page (ascii ''https://www.clubdam.com/sorry/'') (example_tree [])"
      "ascii ''2414316''" example_page]
  by (simp add: example_host_def)

text \<open>
  C2. In either extractor, when the first request is not redirected to the rate-limit
  page and the page contains the marker of the server's error page, the call raises the
  expected \<^verbatim>\<open>ExtractorError\<close> that tells of the server-side error; the page is the only
  request made, it is made once, and there is no result.
\<close>

theorem server_error:
  "(download_webpage_handle h
      (ascii ''https://www.clubdam.com/app/damtomo/karaokeMovie/StreamingDkm.do?karaokeMovieId='' @ video_id)
      = Inr (pre @ ascii ''<h2>'' @
             [20104, 26399, 12379, 12396, 12456, 12521, 12540, 12364, 30330, 29983,
              12375, 12414, 12375, 12383, 12290] @ ascii ''</h2>'' @ post, final_url) \<and>
    final_url \<noteq> ascii ''https://www.clubdam.com/sorry/'' \<longrightarrow>
    DamtomoVideoIE_real_extract h video_id =
      ([ascii ''https://www.clubdam.com/app/damtomo/karaokeMovie/StreamingDkm.do?karaokeMovieId='' @ video_id],
       Inl (ExtractorError ''There is an error on server-side. Try again later.'' True))) \<and>
   (download_webpage_handle h
      (ascii ''https://www.clubdam.com/app/damtomo/karaokePost/StreamingKrk.do?karaokeContributeId='' @ video_id)
      = Inr (pre @ ascii ''<h2>'' @
             [20104, 26399, 12379, 12396, 12456, 12521, 12540, 12364, 30330, 29983,
              12375, 12414, 12375, 12383, 12290] @ ascii ''</h2>'' @ post, final_url) \<and>
    final_url \<noteq> ascii ''https://www.clubdam.com/sorry/'' \<longrightarrow>
    DamtomoRecordIE_real_extract h video_id =
      ([ascii ''https://www.clubdam.com/app/damtomo/karaokePost/StreamingKrk.do?karaokeContributeId='' @ video_id],
       Inl (ExtractorError ''There is an error on server-side. Try again later.'' True)))"
proof -
  have "py_in (ascii ''<h2>'' @
             [20104, 26399, 12379, 12396, 12456, 12521, 12540, 12364, 30330, 29983,
              12375, 12414, 12375, 12383, 12290] @ ascii ''</h2>'')
          (pre @ ascii ''<h2>'' @
             [20104, 26399, 12379, 12396, 12456, 12521, 12540, 12364, 30330, 29983,
              12375, 12414, 12375, 12383, 12290] @ ascii ''</h2>'' @ post)"
    unfolding py_in_iff by (intro exI[of _ pre] exI[of _ post]) simp
  then show ?thesis
    by (simp add: DamtomoVideoIE_real_extract_def DamtomoRecordIE_real_extract_def)
qed

theorem server_error_witness:
  "download_webpage_handle
     (example_host
        (ascii ''<html><body>'' @ ascii ''<h2>'' @
         [20104, 26399, 12379, 12396, 12456, 12521, 12540, 12364, 30330, 29983,
          12375, 12414, 12375, 12383, 12290] @ ascii ''</h2>'' @ ascii ''</body></html>'')
        (ascii ''https://www.clubdam.com/app/damtomo/karaokePost/StreamingKrk.do?karaokeContributeId=27376862'')
        (example_tree []))
     (ascii ''https://www.clubdam.com/app/damtomo/karaokePost/StreamingKrk.do?karaokeContributeId='' @ ascii ''27376862'')
     = Inr (ascii ''<html><body>'' @ ascii ''<h2>'' @
            [20104, 26399, 12379, 12396, 12456, 12521, 12540, 12364, 30330, 29983,
             12375, 12414, 12375, 12383, 12290] @ ascii ''</h2>'' @ ascii ''</body></html>'',
            ascii ''https://www.clubdam.com/app/damtomo/karaokePost/StreamingKrk.do?karaokeContributeId=27376862'') \<and>
   ascii ''https://www.clubdam.com/app/damtomo/karaokePost/StreamingKrk.do?karaokeContributeId=27376862''
     \<noteq> ascii ''https://www.clubdam.com/sorry/'' \<and>
   DamtomoVideoIE_real_extract
     (example_host
        (ascii ''<html><body>'' @ ascii ''<h2>'' @
         [20104, 26399, 12379, 12396, 12456, 12521, 12540, 12364, 30330, 29983,
          12375, 12414, 12375, 12383, 12290] @ ascii ''</h2>'' @ ascii ''</body></html>'')
        (ascii ''https://www.clubdam.com/app/damtomo/karaokePost/StreamingKrk.do?karaokeContributeId=27376862'')
        (example_tree []))
     (ascii ''27376862'') =
     ([ascii ''https://www.clubdam.com/app/damtomo/karaokeMovie/StreamingDkm.do?karaokeMovieId='' @ ascii ''27376862''],
      Inl (ExtractorError ''There is an error on server-side. Try again later.'' True)) \<and>
   DamtomoRecordIE_real_extract
     (example_host
        (ascii ''<html><body>'' @ ascii ''<h2>'' @
         [20104, 26399, 12379, 12396, 12456, 12521, 12540, 12364, 30330, 29983,
          12375, 12414, 12375, 12383, 12290] @ ascii ''</h2>'' @ ascii ''</body></html>'')
        (ascii ''https://www.clubdam.com/app/damtomo/karaokePost/StreamingKrk.do?karaokeContributeId=27376862'')
        (example_tree []))
     (ascii ''27376862'') =
     ([ascii ''https://www.clubdam.com/app/damtomo/karaokePost/StreamingKrk.do?karaokeContributeId='' @ ascii ''27376862''],
      Inl (ExtractorError ''There is an error on server-side. Try again later.'' True))"
  using server_error [of
      "example_host
        (ascii ''<html><body>'' @ ascii ''<h2>'' @
         [20104, 26399, 12379, 12396, 12456, 12521, 12540, 12364, 30330, 29983,
          12375, 12414, 12375, 12383, 12290] @ ascii ''</h2>'' @ ascii ''</body></html>'')
        (ascii ''https://www.clubdam.com/app/damtomo/karaokePost/StreamingKrk.do?karaokeContributeId=27376862'')
        (example_tree [])"
      "ascii ''27376862''" "ascii ''<html><body>''" "ascii ''</body></html>''"
      "ascii ''https://www.clubdam.com/app/damtomo/karaokePost/StreamingKrk.do?karaokeContributeId=27376862''"]
  by (simp add: example_host_def ascii_def)

section \<open>The manifest\<close>

text \<open>
  C3. In either extractor, once the page has passed the two checks, the scrape has given
  its four values and the manifest document has arrived: when the document has no
  \<^verbatim>\<open>streamingUrl\<close> element in the extractor's name space below its root, or the first such
  element has no text, or its text is empty or all white space, the call raises the
  \<^verbatim>\<open>ExtractorError\<close> of the missing manifest; otherwise the call goes on to assemble the
  result with the stripped text of that element, which is the URL of the one format of
  any result.
\<close>

theorem manifest_url:
  "(download_webpage_handle h (video_page_url video_id) = Inr (webpage, final_url) \<and>
    final_url \<noteq> rate_limit_url \<and> \<not> py_in error_marker webpage \<and>
    DamtomoVideoIE_scrape (clean_html h) webpage = Inr (d, u, dd, t) \<and>
    download_xml h (video_xml_url video_id) = Inr tree \<longrightarrow>
    DamtomoVideoIE_real_extract h video_id =
      ([video_page_url video_id, video_xml_url video_id],
       case xml_find video_ns (ascii ''streamingUrl'') tree of
         None \<Rightarrow> Inl ManifestNotFound
       | Some e \<Rightarrow>
           (case el_text e of
              None \<Rightarrow> Inl ManifestNotFound
            | Some x \<Rightarrow>
                if list_all is_space x then Inl ManifestNotFound
                else DamtomoVideoIE_assemble video_id t u d dd (strip x)))) \<and>
   (download_webpage_handle h (record_page_url video_id) = Inr (webpage, final_url) \<and>
    final_url \<noteq> rate_limit_url \<and> \<not> py_in error_marker webpage \<and>
    DamtomoRecordIE_scrape (clean_html h) webpage = Inr (d, u, dd, t) \<and>
    download_xml h (record_xml_url video_id) = Inr tree \<longrightarrow>
    DamtomoRecordIE_real_extract h video_id =
      ([record_page_url video_id, record_xml_url video_id],
       case xml_find record_ns (ascii ''streamingUrl'') tree of
         None \<Rightarrow> Inl ManifestNotFound
       | Some e \<Rightarrow>
           (case el_text e of
              None \<Rightarrow> Inl ManifestNotFound
            | Some x \<Rightarrow>
                if list_all is_space x then Inl ManifestNotFound
                else DamtomoRecordIE_assemble video_id t u d dd (strip x)))) \<and>
   (\<forall>m r. DamtomoVideoIE_assemble video_id t u d dd m = Inr r \<longrightarrow> formats r = [hls_format m]) \<and>
   (\<forall>m r. DamtomoRecordIE_assemble video_id t u d dd m = Inr r \<longrightarrow> formats r = [hls_format m])"
  using video_manifest[of h video_id webpage final_url d u dd t tree]
    record_manifest[of h video_id webpage final_url d u dd t tree]
    video_assemble_url[of video_id t u d dd] record_assemble_url[of video_id t u d dd]
  by blast

theorem manifest_url_witness:
  "DamtomoVideoIE_scrape (clean_html example_video_host) example_page =
     Inr (None, Some (ascii ''MzAyMDExNTY''),
          (DamtomoVideoIE_data_dict strip example_page)
            (ascii ''user_name'' \<mapsto> [65326, 65313, 65326, 65313]),
          title example_info) \<and>
   DamtomoVideoIE_real_extract example_video_host example_id =
     ([video_page_url example_id, video_xml_url example_id], Inr example_info) \<and>
   formats example_info = [hls_format (ascii ''https://example.com/stream.m3u8'')] \<and>
   DamtomoRecordIE_real_extract example_video_host example_id =
     ([record_page_url example_id, record_xml_url example_id], Inl ManifestNotFound)"
proof -
  let ?dd = "(DamtomoVideoIE_data_dict strip example_page)
            (ascii ''user_name'' \<mapsto> [65326, 65313, 65326, 65313])"
  have c: "clean_html example_video_host = strip"
    by (simp add: example_video_host_def example_host_def)
  have 1: "download_webpage_handle example_video_host (video_page_url example_id) =
      Inr (example_page, video_page_url example_id)"
    "download_webpage_handle example_video_host (record_page_url example_id) =
      Inr (example_page, video_page_url example_id)"
    by (simp_all add: example_video_host_def example_host_def)
  have 2: "video_page_url example_id \<noteq> rate_limit_url"
    by (simp add: ascii_def)
  have 3: "\<not> py_in error_marker example_page" by (rule example_marker)
  have 4: "DamtomoVideoIE_scrape (clean_html example_video_host) example_page =
      Inr (None, Some (ascii ''MzAyMDExNTY''), ?dd, title example_info)"
    "DamtomoRecordIE_scrape (clean_html example_video_host) example_page =
      Inr (None, Some (ascii ''MzAyMDExNTY''), ?dd, title example_info)"
    unfolding c record_scrape using example_scrape(1) by (simp_all add: example_info_def)
  have 5: "download_xml example_video_host (video_xml_url example_id) = Inr (example_tree video_ns)"
    "download_xml example_video_host (record_xml_url example_id) = Inr (example_tree video_ns)"
    by (simp_all add: example_video_host_def example_host_def)
  have 6: "xml_find record_ns (ascii ''streamingUrl'') (example_tree video_ns) = None"
    by (simp add: xml_find_def example_tree_def ascii_def)
  have 7: "\<not> list_all is_space (ascii '' https://example.com/stream.m3u8'' @ [10])"
    by (simp add: ascii_def is_space_def)
  have 8: "DamtomoVideoIE_assemble example_id (title example_info) (Some (ascii ''MzAyMDExNTY''))
      None ?dd (ascii ''https://example.com/stream.m3u8'') = Inr example_info"
    using example_assemble by (simp add: example_info_def)
  from manifest_url[of example_video_host example_id example_page "video_page_url example_id"
      None "Some (ascii ''MzAyMDExNTY'')" ?dd "title example_info" "example_tree video_ns"]
    1 2 3 4 5
  have "DamtomoVideoIE_real_extract example_video_host example_id =
      ([video_page_url example_id, video_xml_url example_id],
       case xml_find video_ns (ascii ''streamingUrl'') (example_tree video_ns) of
         None \<Rightarrow> Inl ManifestNotFound
       | Some e \<Rightarrow>
           (case el_text e of
              None \<Rightarrow> Inl ManifestNotFound
            | Some x \<Rightarrow>
                if list_all is_space x then Inl ManifestNotFound
                else DamtomoVideoIE_assemble example_id (title example_info)
                       (Some (ascii ''MzAyMDExNTY'')) None ?dd (strip x)))"
    and "DamtomoRecordIE_real_extract example_video_host example_id =
      ([record_page_url example_id, record_xml_url example_id],
       case xml_find record_ns (ascii ''streamingUrl'') (example_tree video_ns) of
         None \<Rightarrow> Inl ManifestNotFound
       | Some e \<Rightarrow>
           (case el_text e of
              None \<Rightarrow> Inl ManifestNotFound
            | Some x \<Rightarrow>
                if list_all is_space x then Inl ManifestNotFound
                else DamtomoRecordIE_assemble example_id (title example_info)
                       (Some (ascii ''MzAyMDExNTY'')) None ?dd (strip x)))"
    and "formats example_info = [hls_format (ascii ''https://example.com/stream.m3u8'')]"
    using 8 by blast+
  then show ?thesis
    using 4(1) 6 7 8 by (simp add: example_find example_strip)
qed

section \<open>The title\<close>

text \<open>
  C6. When a call of either extractor returns a result, the page it fetched has the blocks
  \<^verbatim>\<open>song_title\<close>, \<^verbatim>\<open>song_artist\<close> and \<^verbatim>\<open>user_name\<close>, and the title of the result is the
  song title, a hyphen, the artist, a hyphen, and the user name after line 48 (135) has
  removed its suffix.
\<close>

theorem title_composed:
  "(DamtomoVideoIE_real_extract h video_id = (tr, Inr r) \<longrightarrow>
      (\<exists>webpage final_url st sa un.
         download_webpage_handle h (video_page_url video_id) = Inr (webpage, final_url) \<and>
         DamtomoVideoIE_data_dict (clean_html h) webpage (ascii ''song_title'') = Some st \<and>
         DamtomoVideoIE_data_dict (clean_html h) webpage (ascii ''song_artist'') = Some sa \<and>
         DamtomoVideoIE_data_dict (clean_html h) webpage (ascii ''user_name'') = Some un \<and>
         title r = st @ ascii ''-'' @ sa @ ascii ''-'' @ DamtomoVideoIE_user_name un)) \<and>
   (DamtomoRecordIE_real_extract h video_id = (tr, Inr r) \<longrightarrow>
      (\<exists>webpage final_url st sa un.
         download_webpage_handle h (record_page_url video_id) = Inr (webpage, final_url) \<and>
         DamtomoRecordIE_data_dict (clean_html h) webpage (ascii ''song_title'') = Some st \<and>
         DamtomoRecordIE_data_dict (clean_html h) webpage (ascii ''song_artist'') = Some sa \<and>
         DamtomoRecordIE_data_dict (clean_html h) webpage (ascii ''user_name'') = Some un \<and>
         title r = st @ ascii ''-'' @ sa @ ascii ''-'' @ DamtomoRecordIE_user_name un))"
proof (intro conjI impI)
  assume "DamtomoVideoIE_real_extract h video_id = (tr, Inr r)"
  from video_real_extract_Inr[OF this] obtain webpage final_url d u dd t tree m where
    1: "download_webpage_handle h (video_page_url video_id) = Inr (webpage, final_url)"
    and 2: "DamtomoVideoIE_scrape (clean_html h) webpage = Inr (d, u, dd, t)"
    and 3: "DamtomoVideoIE_assemble video_id t u d dd m = Inr r"
    by blast
  from video_scrape_Inr[OF 2] obtain un st sa where
    4: "DamtomoVideoIE_data_dict (clean_html h) webpage (ascii ''user_name'') = Some un"
    "DamtomoVideoIE_data_dict (clean_html h) webpage (ascii ''song_title'') = Some st"
    "DamtomoVideoIE_data_dict (clean_html h) webpage (ascii ''song_artist'') = Some sa"
    "t = st @ ascii ''-'' @ sa @ ascii ''-'' @ DamtomoVideoIE_user_name un"
    by blast
  from video_assemble_fields[OF 3] have "title r = t" by simp
  with 1 4 show "\<exists>webpage final_url st sa un.
         download_webpage_handle h (video_page_url video_id) = Inr (webpage, final_url) \<and>
         DamtomoVideoIE_data_dict (clean_html h) webpage (ascii ''song_title'') = Some st \<and>
         DamtomoVideoIE_data_dict (clean_html h) webpage (ascii ''song_artist'') = Some sa \<and>
         DamtomoVideoIE_data_dict (clean_html h) webpage (ascii ''user_name'') = Some un \<and>
         title r = st @ ascii ''-'' @ sa @ ascii ''-'' @ DamtomoVideoIE_user_name un"
    by blast
next
  assume "DamtomoRecordIE_real_extract h video_id = (tr, Inr r)"
  from record_real_extract_Inr[OF this] obtain webpage final_url d u dd t tree m where
    1: "download_webpage_handle h (record_page_url video_id) = Inr (webpage, final_url)"
    and 2: "DamtomoVideoIE_scrape (clean_html h) webpage = Inr (d, u, dd, t)"
    and 3: "DamtomoVideoIE_assemble video_id t u d dd m = Inr r"
    unfolding record_scrape record_assemble by blast
  from video_scrape_Inr[OF 2] obtain un st sa where
    4: "DamtomoVideoIE_data_dict (clean_html h) webpage (ascii ''user_name'') = Some un"
    "DamtomoVideoIE_data_dict (clean_html h) webpage (ascii ''song_title'') = Some st"
    "DamtomoVideoIE_data_dict (clean_html h) webpage (ascii ''song_artist'') = Some sa"
    "t = st @ ascii ''-'' @ sa @ ascii ''-'' @ DamtomoVideoIE_user_name un"
    by blast
  from video_assemble_fields[OF 3] have "title r = t" by simp
  with 1 4 show "\<exists>webpage final_url st sa un.
         download_webpage_handle h (record_page_url video_id) = Inr (webpage, final_url) \<and>
         DamtomoRecordIE_data_dict (clean_html h) webpage (ascii ''song_title'') = Some st \<and>
         DamtomoRecordIE_data_dict (clean_html h) webpage (ascii ''song_artist'') = Some sa \<and>
         DamtomoRecordIE_data_dict (clean_html h) webpage (ascii ''user_name'') = Some un \<and>
         title r = st @ ascii ''-'' @ sa @ ascii ''-'' @ DamtomoRecordIE_user_name un"
    unfolding record_data_dict record_user_name by blast
qed

text \<open>
  The record fixture: the title is U+30A4 U+30AB \<^verbatim>\<open>SUMMER [\<close> U+826F U+97F3 \<^verbatim>\<open>]-ORANGE RANGE-\<close>
  U+FF2E U+FF21 U+FF2E U+FF21.
\<close>

theorem title_composed_witness:
  "DamtomoRecordIE_real_extract example_record_host example_id =
     ([record_page_url example_id, record_xml_url example_id], Inr example_info) \<and>
   DamtomoRecordIE_data_dict (clean_html example_record_host) example_page (ascii ''song_title'') =
     Some ([12452, 12459] @ ascii ''SUMMER ['' @ [33391, 38899] @ ascii '']'') \<and>
   DamtomoRecordIE_data_dict (clean_html example_record_host) example_page (ascii ''song_artist'') =
     Some (ascii ''ORANGE RANGE'') \<and>
   DamtomoRecordIE_data_dict (clean_html example_record_host) example_page (ascii ''user_name'') =
     Some [65326, 65313, 65326, 65313, 32, 12373, 12435] \<and>
   title example_info =
     [12452, 12459, 83, 85, 77, 77, 69, 82, 32, 91, 33391, 38899, 93, 45,
      79, 82, 65, 78, 71, 69, 32, 82, 65, 78, 71, 69, 45, 65326, 65313, 65326, 65313]"
proof -
  have c: "clean_html example_record_host = strip"
    "download_webpage_handle example_record_host (record_page_url example_id) =
       Inr (example_page, record_page_url example_id)"
    by (simp_all add: example_record_host_def example_host_def)
  from title_composed[of example_record_host example_id
      "[record_page_url example_id, record_xml_url example_id]" example_info]
    example_record_extract
  obtain st sa un where
    d: "DamtomoRecordIE_data_dict strip example_page (ascii ''song_title'') = Some st"
    "DamtomoRecordIE_data_dict strip example_page (ascii ''song_artist'') = Some sa"
    "DamtomoRecordIE_data_dict strip example_page (ascii ''user_name'') = Some un"
    and t: "title example_info = st @ ascii ''-'' @ sa @ ascii ''-'' @ DamtomoRecordIE_user_name un"
    unfolding c by auto
  from d have v: "st = [12452, 12459] @ ascii ''SUMMER ['' @ [33391, 38899] @ ascii '']''"
    "sa = ascii ''ORANGE RANGE''" "un = [65326, 65313, 65326, 65313, 32, 12373, 12435]"
    unfolding record_data_dict by (simp_all add: example_data_dict_date)
  have "title example_info =
     [12452, 12459, 83, 85, 77, 77, 69, 82, 32, 91, 33391, 38899, 93, 45,
      79, 82, 65, 78, 71, 69, 32, 82, 65, 78, 71, 69, 45, 65326, 65313, 65326, 65313]"
    unfolding t v record_user_name example_user_name by (simp add: ascii_def)
  then show ?thesis
    using example_record_extract d unfolding c v by simp
qed

section \<open>The upload date and the counts\<close>

lemma upload_date_found:
  assumes "v = pre @ sub @ post" "date_shaped sub"
    "\<forall>pre' sub' post'. v = pre' @ sub' @ post' \<and> date_shaped sub' \<longrightarrow> length pre \<le> length pre'"
  shows "map_option (replace_chr (of_char CHR ''/'') []) (search_regex date_re v) =
         Some (take 4 sub @ take 2 (drop 5 sub) @ take 2 (drop 8 sub))"
proof (cases "re_search date_re v")
  case None
  from date_search_None[OF this] assms(1,2) show ?thesis by blast
next
  case (Some x)
  obtain p m q c where x: "x = (p, m, q, c)" by (cases x)
  from date_search_Some[OF Some[unfolded x]] have
    s: "v = p @ m @ q" "date_shaped m" "c = [Suc 0 \<mapsto> m]"
    "\<forall>pre' sub' post'. v = pre' @ sub' @ post' \<and> date_shaped sub' \<longrightarrow> length p \<le> length pre'"
    by auto
  from s(4) assms(1,2) have "length p \<le> length pre" by blast
  moreover from assms(3) s(1,2) have "length pre \<le> length p" by blast
  ultimately have l: "length p = length pre" by simp
  with s(1) assms(1) have "p = pre" "m @ q = sub @ post" by auto
  moreover have "length m = length sub"
    using date_shaped_length[OF s(2)] date_shaped_length[OF assms(2)] by simp
  ultimately have "m = sub" by auto
  with Some x s(3) have "search_regex date_re v = Some sub" by (simp add: search_regex_def)
  then show ?thesis using date_shaped_replace[OF assms(2)] by simp
qed

lemma upload_date_absent:
  assumes "\<not> (\<exists>pre sub post. v = pre @ sub @ post \<and> date_shaped sub)"
  shows "search_regex date_re v = None"
proof (cases "re_search date_re v")
  case None
  then show ?thesis by (simp add: search_regex_def)
next
  case (Some x)
  obtain p m q c where x: "x = (p, m, q, c)" by (cases x)
  from date_search_Some[OF Some[unfolded x]] assms show ?thesis by blast
qed

text \<open>
  C7. For a dictionary with the key \<^verbatim>\<open>date\<close> (and the five keys the assembly reads without
  a guard), either extractor assembles a result and no exception is raised. When the value
  of \<^verbatim>\<open>date\<close> has a part shaped YYYY/MM/DD, the upload date of the result is the leftmost
  such part without its two slashes, YYYYMMDD; when it has none, the upload date is absent.
\<close>

theorem upload_date_reformatted:
  assumes "dd (ascii ''date'') = Some v"
    and "dd (ascii ''user_name'') = Some un" and "dd (ascii ''audience'') = Some a"
    and "dd (ascii ''nice'') = Some n" and "dd (ascii ''song_title'') = Some st"
    and "dd (ascii ''song_artist'') = Some sa"
  shows "\<exists>r. DamtomoVideoIE_assemble video_id t u d dd m = Inr r \<and>
             DamtomoRecordIE_assemble video_id t u d dd m = Inr r \<and>
             (\<forall>pre sub post.
                v = pre @ sub @ post \<and> date_shaped sub \<and>
                (\<forall>pre' sub' post'. v = pre' @ sub' @ post' \<and> date_shaped sub' \<longrightarrow>
                                    length pre \<le> length pre') \<longrightarrow>
                upload_date r = Some (take 4 sub @ take 2 (drop 5 sub) @ take 2 (drop 8 sub))) \<and>
             ((\<forall>pre sub post. v = pre @ sub @ post \<longrightarrow> \<not> date_shaped sub) \<longrightarrow>
                upload_date r = None)"
proof -
  let ?r = "\<lparr> id' = video_id, title = t, uploader_id = u, description = d,
           formats = [hls_format m], uploader = un,
           upload_date = map_option (replace_chr (of_char CHR ''/'') []) (search_regex date_re v),
           view_count = int_or_none (search_regex digits_re a),
           like_count = int_or_none (search_regex digits_re n),
           song_title = st, song_artist = sa \<rparr>"
  have r: "DamtomoVideoIE_assemble video_id t u d dd m = Inr ?r"
    using assms by (simp add: video_assemble_Inr)
  have "upload_date ?r = Some (take 4 sub @ take 2 (drop 5 sub) @ take 2 (drop 8 sub))"
    if "v = pre @ sub @ post" "date_shaped sub"
      "\<forall>pre' sub' post'. v = pre' @ sub' @ post' \<and> date_shaped sub' \<longrightarrow> length pre \<le> length pre'"
    for pre sub post
    using upload_date_found[OF that] by simp
  moreover have "upload_date ?r = None"
    if "\<forall>pre sub post. v = pre @ sub @ post \<longrightarrow> \<not> date_shaped sub"
  proof -
    from that have "\<not> (\<exists>pre sub post. v = pre @ sub @ post \<and> date_shaped sub)" by blast
    then have "search_regex date_re v = None" by (rule upload_date_absent)
    then show ?thesis by simp
  qed
  ultimately show ?thesis using r unfolding record_assemble by blast
qed

theorem upload_date_reformatted_witness:
  "(\<exists>r. DamtomoVideoIE_assemble example_id (title example_info) None None
           (map_of [(ascii ''date'', ascii ''2021/07/21 12:00''), (ascii ''user_name'', ascii ''u''),
                    (ascii ''audience'', ascii ''4''), (ascii ''nice'', ascii ''1''),
                    (ascii ''song_title'', ascii ''s''), (ascii ''song_artist'', ascii ''a'')])
           (ascii ''m'') = Inr r \<and>
        DamtomoRecordIE_assemble example_id (title example_info) None None
           (map_of [(ascii ''date'', ascii ''2021/07/21 12:00''), (ascii ''user_name'', ascii ''u''),
                    (ascii ''audience'', ascii ''4''), (ascii ''nice'', ascii ''1''),
                    (ascii ''song_title'', ascii ''s''), (ascii ''song_artist'', ascii ''a'')])
           (ascii ''m'') = Inr r \<and>
        upload_date r = Some (ascii ''20210721'')) \<and>
   (\<exists>r. DamtomoVideoIE_assemble example_id (title example_info) None None
           (map_of [(ascii ''date'', [20877, 29983, 28961, 12375]), (ascii ''user_name'', ascii ''u''),
                    (ascii ''audience'', ascii ''4''), (ascii ''nice'', ascii ''1''),
                    (ascii ''song_title'', ascii ''s''), (ascii ''song_artist'', ascii ''a'')])
           (ascii ''m'') = Inr r \<and>
        DamtomoRecordIE_assemble example_id (title example_info) None None
           (map_of [(ascii ''date'', [20877, 29983, 28961, 12375]), (ascii ''user_name'', ascii ''u''),
                    (ascii ''audience'', ascii ''4''), (ascii ''nice'', ascii ''1''),
                    (ascii ''song_title'', ascii ''s''), (ascii ''song_artist'', ascii ''a'')])
           (ascii ''m'') = Inr r \<and>
        upload_date r = None)"
proof
  let ?dd = "map_of [(ascii ''date'', ascii ''2021/07/21 12:00''), (ascii ''user_name'', ascii ''u''),
                    (ascii ''audience'', ascii ''4''), (ascii ''nice'', ascii ''1''),
                    (ascii ''song_title'', ascii ''s''), (ascii ''song_artist'', ascii ''a'')]"
  have k: "?dd (ascii ''date'') = Some (ascii ''2021/07/21 12:00'')"
    "?dd (ascii ''user_name'') = Some (ascii ''u'')" "?dd (ascii ''audience'') = Some (ascii ''4'')"
    "?dd (ascii ''nice'') = Some (ascii ''1'')" "?dd (ascii ''song_title'') = Some (ascii ''s'')"
    "?dd (ascii ''song_artist'') = Some (ascii ''a'')"
    by (simp_all add: ascii_eq_iff)
  from upload_date_reformatted[OF k, of example_id "title example_info" None None "ascii ''m''"]
  obtain r where r: "DamtomoVideoIE_assemble example_id (title example_info) None None ?dd (ascii ''m'') = Inr r"
    "DamtomoRecordIE_assemble example_id (title example_info) None None ?dd (ascii ''m'') = Inr r"
    and f: "\<forall>pre sub post.
                ascii ''2021/07/21 12:00'' = pre @ sub @ post \<and> date_shaped sub \<and>
                (\<forall>pre' sub' post'. ascii ''2021/07/21 12:00'' = pre' @ sub' @ post' \<and> date_shaped sub' \<longrightarrow>
                                    length pre \<le> length pre') \<longrightarrow>
                upload_date r = Some (take 4 sub @ take 2 (drop 5 sub) @ take 2 (drop 8 sub))"
    by blast
  have "ascii ''2021/07/21 12:00'' = [] @ ascii ''2021/07/21'' @ ascii '' 12:00''"
    by (simp add: ascii_def)
  moreover have "date_shaped (ascii ''2021/07/21'')"
    by (simp add: ascii_def eval_digit)
  ultimately have "upload_date r = Some (take 4 (ascii ''2021/07/21'') @
      take 2 (drop 5 (ascii ''2021/07/21'')) @ take 2 (drop 8 (ascii ''2021/07/21'')))"
    using f by (metis le0 list.size(3))
  then have "upload_date r = Some (ascii ''20210721'')" by (simp add: ascii_def)
  with r show "\<exists>r. DamtomoVideoIE_assemble example_id (title example_info) None None ?dd (ascii ''m'') = Inr r \<and>
        DamtomoRecordIE_assemble example_id (title example_info) None None ?dd (ascii ''m'') = Inr r \<and>
        upload_date r = Some (ascii ''20210721'')" by blast
next
  let ?dd = "map_of [(ascii ''date'', [20877, 29983, 28961, 12375]), (ascii ''user_name'', ascii ''u''),
                    (ascii ''audience'', ascii ''4''), (ascii ''nice'', ascii ''1''),
                    (ascii ''song_title'', ascii ''s''), (ascii ''song_artist'', ascii ''a'')]"
  have k: "?dd (ascii ''date'') = Some [20877, 29983, 28961, 12375]"
    "?dd (ascii ''user_name'') = Some (ascii ''u'')" "?dd (ascii ''audience'') = Some (ascii ''4'')"
    "?dd (ascii ''nice'') = Some (ascii ''1'')" "?dd (ascii ''song_title'') = Some (ascii ''s'')"
    "?dd (ascii ''song_artist'') = Some (ascii ''a'')"
    by (simp_all add: ascii_eq_iff)
  from upload_date_reformatted[OF k, of example_id "title example_info" None None "ascii ''m''"]
  obtain r where r: "DamtomoVideoIE_assemble example_id (title example_info) None None ?dd (ascii ''m'') = Inr r"
    "DamtomoRecordIE_assemble example_id (title example_info) None None ?dd (ascii ''m'') = Inr r"
    and f: "(\<forall>pre sub post. [20877, 29983, 28961, 12375] = pre @ sub @ post \<longrightarrow> \<not> date_shaped sub) \<longrightarrow>
                upload_date r = None"
    by blast
  have "\<not> date_shaped sub" if "[20877, 29983, 28961, 12375] = pre @ sub @ post" for pre sub post
  proof
    assume "date_shaped sub"
    then have "length sub = 10" by (rule date_shaped_length)
    moreover from that have "length [20877, 29983, 28961, 12375::nat] = length (pre @ sub @ post)"
      by (simp only:)
    ultimately show False by simp
  qed
  with f have "upload_date r = None" by blast
  with r show "\<exists>r. DamtomoVideoIE_assemble example_id (title example_info) None None ?dd (ascii ''m'') = Inr r \<and>
        DamtomoRecordIE_assemble example_id (title example_info) None None ?dd (ascii ''m'') = Inr r \<and>
        upload_date r = None" by blast
qed

lemma count_long_run:
  assumes "4300 < n" "is_digit z"
  shows "int_or_none (search_regex digits_re (replicate n z)) = None"
proof -
  from assms have "replicate n z \<noteq> []" "\<forall>c\<in>set (replicate n z). is_digit c" by auto
  from count_run[of "[]" "replicate n z" "[]", OF _ this] assms(1) show ?thesis by simp
qed

text \<open>
  C8, as the code has it. For a dictionary with the keys \<^verbatim>\<open>audience\<close> and \<^verbatim>\<open>nice\<close> (and the
  three other keys the assembly reads without a guard), either extractor assembles a result
  whose view count and like count are read from the values of \<^verbatim>\<open>audience\<close> and \<^verbatim>\<open>nice\<close>:
  the first run of decimal digits, taken as long as it goes, is the count, read in base
  ten, when the run has at most 4300 digits; a longer run gives an absent count, and so
  does a value without a digit.
\<close>

theorem counts_first_digits:
  assumes "dd (ascii ''audience'') = Some a" and "dd (ascii ''nice'') = Some n"
    and "dd (ascii ''user_name'') = Some un" and "dd (ascii ''song_title'') = Some st"
    and "dd (ascii ''song_artist'') = Some sa"
  shows "\<exists>r. DamtomoVideoIE_assemble video_id t u d dd m = Inr r \<and>
             DamtomoRecordIE_assemble video_id t u d dd m = Inr r \<and>
             (\<forall>pre run post.
                a = pre @ run @ post \<and> (\<forall>c\<in>set pre. \<not> is_digit c) \<and> run \<noteq> [] \<and>
                (\<forall>c\<in>set run. is_digit c) \<and> (post = [] \<or> \<not> is_digit (hd post)) \<longrightarrow>
                view_count r =
                  (if length run \<le> 4300 then Some (base_ten (map (\<lambda>c. the (decimal c)) run))
                   else None)) \<and>
             ((\<forall>c\<in>set a. \<not> is_digit c) \<longrightarrow> view_count r = None) \<and>
             (\<forall>pre run post.
                n = pre @ run @ post \<and> (\<forall>c\<in>set pre. \<not> is_digit c) \<and> run \<noteq> [] \<and>
                (\<forall>c\<in>set run. is_digit c) \<and> (post = [] \<or> \<not> is_digit (hd post)) \<longrightarrow>
                like_count r =
                  (if length run \<le> 4300 then Some (base_ten (map (\<lambda>c. the (decimal c)) run))
                   else None)) \<and>
             ((\<forall>c\<in>set n. \<not> is_digit c) \<longrightarrow> like_count r = None)"
proof -
  let ?r = "\<lparr> id' = video_id, title = t, uploader_id = u, description = d,
           formats = [hls_format m], uploader = un,
           upload_date = (case dd (ascii ''date'') of
                            None \<Rightarrow> None
                          | Some v \<Rightarrow> map_option (replace_chr (of_char CHR ''/'') [])
                                        (search_regex date_re v)),
           view_count = int_or_none (search_regex digits_re a),
           like_count = int_or_none (search_regex digits_re n),
           song_title = st, song_artist = sa \<rparr>"
  let ?v = "\<lambda>run. if length run \<le> 4300 then Some (base_ten (map (\<lambda>c. the (decimal c)) run))
                  else None"
  have r: "DamtomoVideoIE_assemble video_id t u d dd m = Inr ?r"
    using assms by (simp add: video_assemble_Inr)
  have "view_count ?r = ?v run"
    if "a = pre @ run @ post" "\<forall>c\<in>set pre. \<not> is_digit c" "run \<noteq> []"
      "\<forall>c\<in>set run. is_digit c" "post = [] \<or> \<not> is_digit (hd post)" for pre run post
    using count_run[OF that(2-5)] that(1) by simp
  moreover have "view_count ?r = None" if "\<forall>c\<in>set a. \<not> is_digit c"
    using count_none[OF that] by simp
  moreover have "like_count ?r = ?v run"
    if "n = pre @ run @ post" "\<forall>c\<in>set pre. \<not> is_digit c" "run \<noteq> []"
      "\<forall>c\<in>set run. is_digit c" "post = [] \<or> \<not> is_digit (hd post)" for pre run post
    using count_run[OF that(2-5)] that(1) by simp
  moreover have "like_count ?r = None" if "\<forall>c\<in>set n. \<not> is_digit c"
    using count_none[OF that] by simp
  ultimately show ?thesis using r unfolding record_assemble by blast
qed

text \<open>
  The examples of the specification: the value 4, U+0020, U+56DE U+8996 U+8074 gives the
  count 4, and the value U+518D U+751F U+7121 U+3057 gives no count. In a second dictionary
  the value U+518D U+751F, space, 1204, space, U+56DE gives 1204, and the value of the
  full-width digits U+FF12 U+FF10 U+FF17 gives 207.
\<close>

theorem counts_first_digits_witness:
  "(\<exists>r. DamtomoVideoIE_assemble example_id (title example_info) None None
           (example_fields [52, 32, 22238, 35222, 32884] [20877, 29983, 28961, 12375])
           (ascii ''m'') = Inr r \<and>
        DamtomoRecordIE_assemble example_id (title example_info) None None
           (example_fields [52, 32, 22238, 35222, 32884] [20877, 29983, 28961, 12375])
           (ascii ''m'') = Inr r \<and>
        view_count r = Some 4 \<and> like_count r = None) \<and>
   (\<exists>r. DamtomoVideoIE_assemble example_id (title example_info) None None
           (example_fields [20877, 29983, 32, 49, 50, 48, 52, 32, 22238] [65298, 65296, 65303])
           (ascii ''m'') = Inr r \<and>
        DamtomoRecordIE_assemble example_id (title example_info) None None
           (example_fields [20877, 29983, 32, 49, 50, 48, 52, 32, 22238] [65298, 65296, 65303])
           (ascii ''m'') = Inr r \<and>
        view_count r = Some 1204 \<and> like_count r = Some 207)"
proof
  let ?a = "[52, 32, 22238, 35222, 32884] :: ustr"
  let ?n = "[20877, 29983, 28961, 12375] :: ustr"
  from counts_first_digits[where video_id = example_id and t = "title example_info" and u = None
      and d = None and m = "ascii ''m''", OF example_fields[of ?a ?n]]
  obtain r where r: "DamtomoVideoIE_assemble example_id (title example_info) None None
        (example_fields ?a ?n) (ascii ''m'') = Inr r"
    "DamtomoRecordIE_assemble example_id (title example_info) None None
        (example_fields ?a ?n) (ascii ''m'') = Inr r"
    and v: "\<forall>pre run post.
                ?a = pre @ run @ post \<and> (\<forall>c\<in>set pre. \<not> is_digit c) \<and>
                run \<noteq> [] \<and> (\<forall>c\<in>set run. is_digit c) \<and> (post = [] \<or> \<not> is_digit (hd post)) \<longrightarrow>
                view_count r =
                  (if length run \<le> 4300 then Some (base_ten (map (\<lambda>c. the (decimal c)) run))
                   else None)"
    and l: "(\<forall>c\<in>set ?n. \<not> is_digit c) \<longrightarrow> like_count r = None"
    by blast
  have "?a = [] @ [52] @ [32, 22238, 35222, 32884] \<and>
      (\<forall>c\<in>set ([]::ustr). \<not> is_digit c) \<and> [52::nat] \<noteq> [] \<and> (\<forall>c\<in>set [52]. is_digit c) \<and>
      ([32, 22238, 35222, 32884] = [] \<or> \<not> is_digit (hd [32, 22238, 35222, 32884]))"
    by (simp add: eval_digit)
  with v have "view_count r =
      (if length [52::nat] \<le> 4300 then Some (base_ten (map (\<lambda>c. the (decimal c)) [52])) else None)"
    by blast
  then have "view_count r = Some 4" by (simp add: eval_digit)
  moreover have "\<forall>c\<in>set ?n. \<not> is_digit c"
    by (simp add: eval_digit)
  with l have "like_count r = None" by blast
  ultimately show "\<exists>r. DamtomoVideoIE_assemble example_id (title example_info) None None
        (example_fields ?a ?n) (ascii ''m'') = Inr r \<and>
      DamtomoRecordIE_assemble example_id (title example_info) None None
        (example_fields ?a ?n) (ascii ''m'') = Inr r \<and>
      view_count r = Some 4 \<and> like_count r = None"
    using r by blast
next
  let ?a = "[20877, 29983, 32, 49, 50, 48, 52, 32, 22238] :: ustr"
  let ?n = "[65298, 65296, 65303] :: ustr"
  from counts_first_digits[where video_id = example_id and t = "title example_info" and u = None
      and d = None and m = "ascii ''m''", OF example_fields[of ?a ?n]]
  obtain r where r: "DamtomoVideoIE_assemble example_id (title example_info) None None
        (example_fields ?a ?n) (ascii ''m'') = Inr r"
    "DamtomoRecordIE_assemble example_id (title example_info) None None
        (example_fields ?a ?n) (ascii ''m'') = Inr r"
    and v: "\<forall>pre run post.
                ?a = pre @ run @ post \<and> (\<forall>c\<in>set pre. \<not> is_digit c) \<and>
                run \<noteq> [] \<and> (\<forall>c\<in>set run. is_digit c) \<and> (post = [] \<or> \<not> is_digit (hd post)) \<longrightarrow>
                view_count r =
                  (if length run \<le> 4300 then Some (base_ten (map (\<lambda>c. the (decimal c)) run))
                   else None)"
    and l: "\<forall>pre run post.
                ?n = pre @ run @ post \<and> (\<forall>c\<in>set pre. \<not> is_digit c) \<and>
                run \<noteq> [] \<and> (\<forall>c\<in>set run. is_digit c) \<and> (post = [] \<or> \<not> is_digit (hd post)) \<longrightarrow>
                like_count r =
                  (if length run \<le> 4300 then Some (base_ten (map (\<lambda>c. the (decimal c)) run))
                   else None)"
    by blast
  have "?a = [20877, 29983, 32] @ [49, 50, 48, 52] @ [32, 22238] \<and>
      (\<forall>c\<in>set [20877, 29983, 32]. \<not> is_digit c) \<and> [49, 50, 48, 52::nat] \<noteq> [] \<and>
      (\<forall>c\<in>set [49, 50, 48, 52]. is_digit c) \<and>
      ([32, 22238] = [] \<or> \<not> is_digit (hd [32, 22238]))"
    by (simp add: eval_digit)
  with v have "view_count r =
      (if length [49, 50, 48, 52::nat] \<le> 4300
       then Some (base_ten (map (\<lambda>c. the (decimal c)) [49, 50, 48, 52])) else None)"
    by blast
  then have "view_count r = Some 1204" by (simp add: eval_digit)
  moreover have "?n = [] @ [65298, 65296, 65303] @ [] \<and>
      (\<forall>c\<in>set ([]::ustr). \<not> is_digit c) \<and> [65298, 65296, 65303::nat] \<noteq> [] \<and>
      (\<forall>c\<in>set [65298, 65296, 65303]. is_digit c) \<and>
      (([]::ustr) = [] \<or> \<not> is_digit (hd []))"
    by (simp add: eval_digit)
  with l have "like_count r =
      (if length [65298, 65296, 65303::nat] \<le> 4300
       then Some (base_ten (map (\<lambda>c. the (decimal c)) [65298, 65296, 65303])) else None)"
    by blast
  then have "like_count r = Some 207" by (simp add: eval_digit)
  ultimately show "\<exists>r. DamtomoVideoIE_assemble example_id (title example_info) None None
        (example_fields ?a ?n) (ascii ''m'') = Inr r \<and>
      DamtomoRecordIE_assemble example_id (title example_info) None None
        (example_fields ?a ?n) (ascii ''m'') = Inr r \<and>
      view_count r = Some 1204 \<and> like_count r = Some 207"
    using r by blast
qed

text \<open>
  The claim as it is written fails on a value of 4301 zeros: the value is one run of
  decimal digits, which denotes the integer 0, and the count is absent.
\<close>

theorem long_run_counterexample:
  "list_all is_digit (replicate 4301 48) \<and>
   base_ten (map (\<lambda>c. the (decimal c)) (replicate 4301 48)) = 0 \<and>
   DamtomoVideoIE_assemble example_id (title example_info) None None
     (example_fields (replicate 4301 48) (ascii ''1'')) (ascii ''m'') =
     Inr \<lparr> id' = example_id, title = title example_info, uploader_id = None, description = None,
           formats = [hls_format (ascii ''m'')], uploader = ascii ''u'', upload_date = None,
           view_count = None, like_count = Some 1,
           song_title = ascii ''s'', song_artist = ascii ''a'' \<rparr> \<and>
   DamtomoRecordIE_assemble example_id (title example_info) None None
     (example_fields (replicate 4301 48) (ascii ''1'')) (ascii ''m'') =
     Inr \<lparr> id' = example_id, title = title example_info, uploader_id = None, description = None,
           formats = [hls_format (ascii ''m'')], uploader = ascii ''u'', upload_date = None,
           view_count = None, like_count = Some 1,
           song_title = ascii ''s'', song_artist = ascii ''a'' \<rparr>"
proof -
  have z: "is_digit 48" "the (decimal 48) = 0" by (simp_all add: eval_digit)
  have 1: "list_all is_digit (replicate n 48)" for n
    using z(1) by (simp add: list_all_iff)
  have 2: "base_ten (map (\<lambda>c. the (decimal c)) (replicate n 48)) = 0" for n
    using z(2) by (induction n) simp_all
  have 3: "int_or_none (search_regex digits_re (replicate 4301 48)) = None"
    using z(1) by (intro count_long_run) simp_all
  have 4: "DamtomoVideoIE_assemble example_id (title example_info) None None
     (example_fields (replicate 4301 48) (ascii ''1'')) (ascii ''m'') =
     Inr \<lparr> id' = example_id, title = title example_info, uploader_id = None, description = None,
           formats = [hls_format (ascii ''m'')], uploader = ascii ''u'', upload_date = None,
           view_count = None, like_count = Some 1,
           song_title = ascii ''s'', song_artist = ascii ''a'' \<rparr>"
    by (subst video_assemble_Inr[OF example_fields(3,1,2,4,5)])
       (simp add: 3 example_counts example_fields_date)
  from 1 2 4 show ?thesis unfolding record_assemble by simp
qed

section \<open>The two extractors side by side\<close>

text \<open>
  C10. The scraping and the assembly of the two extractors are the same functions: for
  every page, cleaning function and dictionary they give the same dictionary, user name,
  description, uploader id, title and result. Two calls with the same resource id, whose
  hosts clean alike and serve the same page, not redirected to the rate-limit page for one
  call only, and manifest documents whose first \<^verbatim>\<open>streamingUrl\<close> elements, each in the name
  space of its extractor, have the same text, end alike: with the same exception or the
  same result, after as many requests.
\<close>

theorem extractors_agree:
  "DamtomoRecordIE_data_dict clean webpage = DamtomoVideoIE_data_dict clean webpage \<and>
   DamtomoRecordIE_user_name un = DamtomoVideoIE_user_name un \<and>
   DamtomoRecordIE_scrape clean webpage = DamtomoVideoIE_scrape clean webpage \<and>
   DamtomoRecordIE_assemble video_id t u d dd m = DamtomoVideoIE_assemble video_id t u d dd m \<and>
   (download_webpage_handle hv (video_page_url video_id) = Inr (webpage, final_v) \<and>
    download_webpage_handle hr (record_page_url video_id) = Inr (webpage, final_r) \<and>
    (final_v = rate_limit_url \<longleftrightarrow> final_r = rate_limit_url) \<and>
    clean_html hv = clean_html hr \<and>
    download_xml hv (video_xml_url video_id) = Inr tree_v \<and>
    download_xml hr (record_xml_url video_id) = Inr tree_r \<and>
    xml_find video_ns (ascii ''streamingUrl'') tree_v = Some ev \<and>
    xml_find record_ns (ascii ''streamingUrl'') tree_r = Some er \<and>
    el_text ev = el_text er \<longrightarrow>
    snd (DamtomoVideoIE_real_extract hv video_id) = snd (DamtomoRecordIE_real_extract hr video_id) \<and>
    length (fst (DamtomoVideoIE_real_extract hv video_id)) =
      length (fst (DamtomoRecordIE_real_extract hr video_id)))"
proof -
  have "snd (DamtomoVideoIE_real_extract hv video_id) = snd (DamtomoRecordIE_real_extract hr video_id) \<and>
    length (fst (DamtomoVideoIE_real_extract hv video_id)) =
      length (fst (DamtomoRecordIE_real_extract hr video_id))"
    if "download_webpage_handle hv (video_page_url video_id) = Inr (webpage, final_v)"
      "download_webpage_handle hr (record_page_url video_id) = Inr (webpage, final_r)"
      "final_v = rate_limit_url \<longleftrightarrow> final_r = rate_limit_url"
      "clean_html hv = clean_html hr"
      "download_xml hv (video_xml_url video_id) = Inr tree_v"
      "download_xml hr (record_xml_url video_id) = Inr tree_r"
      "xml_find video_ns (ascii ''streamingUrl'') tree_v = Some ev"
      "xml_find record_ns (ascii ''streamingUrl'') tree_r = Some er"
      "el_text ev = el_text er"
    using that
    unfolding DamtomoVideoIE_real_extract_def DamtomoRecordIE_real_extract_def Let_def
      record_scrape record_assemble video_m3u8_url record_m3u8_url
    by (auto split: sum.splits option.splits)
  then show ?thesis
    by (simp add: record_data_dict record_user_name record_scrape record_assemble)
qed

theorem extractors_agree_witness:
  "DamtomoVideoIE_real_extract example_video_host example_id =
     ([video_page_url example_id, video_xml_url example_id], Inr example_info) \<and>
   DamtomoRecordIE_real_extract example_record_host example_id =
     ([record_page_url example_id, record_xml_url example_id], Inr example_info) \<and>
   snd (DamtomoVideoIE_real_extract example_video_host example_id) =
     snd (DamtomoRecordIE_real_extract example_record_host example_id)"
proof -
  have "download_webpage_handle example_video_host (video_page_url example_id) =
      Inr (example_page, video_page_url example_id)"
    "download_webpage_handle example_record_host (record_page_url example_id) =
      Inr (example_page, record_page_url example_id)"
    "clean_html example_video_host = clean_html example_record_host"
    "download_xml example_video_host (video_xml_url example_id) = Inr (example_tree video_ns)"
    "download_xml example_record_host (record_xml_url example_id) = Inr (example_tree record_ns)"
    by (simp_all add: example_video_host_def example_record_host_def example_host_def)
  moreover have "video_page_url example_id = rate_limit_url \<longleftrightarrow>
      record_page_url example_id = rate_limit_url"
    by (simp add: ascii_def)
  moreover note example_find[of video_ns] example_find[of record_ns]
  moreover have "el_text (Element (ascii ''{'' @ video_ns @ ascii ''}streamingUrl'')
             (Some (ascii '' https://example.com/stream.m3u8'' @ [10])) []) =
      el_text (Element (ascii ''{'' @ record_ns @ ascii ''}streamingUrl'')
             (Some (ascii '' https://example.com/stream.m3u8'' @ [10])) [])"
    by simp
  ultimately have "snd (DamtomoVideoIE_real_extract example_video_host example_id) =
     snd (DamtomoRecordIE_real_extract example_record_host example_id)"
    using extractors_agree[of strip example_page "[]" example_id "[]" None None Map.empty "[]"
        example_video_host "video_page_url example_id" example_record_host
        "record_page_url example_id" "example_tree video_ns" "example_tree record_ns"]
    by blast
  then show ?thesis using example_video_extract example_record_extract by simp
qed

section \<open>The required keys\<close>

lemma video_success_keys:
  assumes "DamtomoVideoIE_real_extract h video_id = (tr, Inr r)"
  shows "\<exists>webpage final_url.
           download_webpage_handle h (video_page_url video_id) = Inr (webpage, final_url) \<and>
           (\<forall>k\<in>{ascii ''user_name'', ascii ''song_title'', ascii ''song_artist'',
                 ascii ''audience'', ascii ''nice''}.
              DamtomoVideoIE_data_dict (clean_html h) webpage k \<noteq> None)"
proof -
  from video_real_extract_Inr[OF assms] obtain webpage final_url d u dd t tree m where
    1: "download_webpage_handle h (video_page_url video_id) = Inr (webpage, final_url)"
    and 2: "DamtomoVideoIE_scrape (clean_html h) webpage = Inr (d, u, dd, t)"
    and 3: "DamtomoVideoIE_assemble video_id t u d dd m = Inr r"
    by blast
  from video_scrape_Inr[OF 2] obtain un st sa where
    4: "DamtomoVideoIE_data_dict (clean_html h) webpage (ascii ''user_name'') = Some un"
    "DamtomoVideoIE_data_dict (clean_html h) webpage (ascii ''song_title'') = Some st"
    "DamtomoVideoIE_data_dict (clean_html h) webpage (ascii ''song_artist'') = Some sa"
    "dd = (DamtomoVideoIE_data_dict (clean_html h) webpage)
            (ascii ''user_name'' \<mapsto> DamtomoVideoIE_user_name un)"
    by blast
  from video_assemble_fields[OF 3] have "dd (ascii ''audience'') \<noteq> None" "dd (ascii ''nice'') \<noteq> None"
    by simp_all
  with 4(4) have "DamtomoVideoIE_data_dict (clean_html h) webpage (ascii ''audience'') \<noteq> None"
    "DamtomoVideoIE_data_dict (clean_html h) webpage (ascii ''nice'') \<noteq> None"
    by (simp_all add: ascii_eq_iff)
  with 1 4(1-3) show ?thesis by auto
qed

lemma video_scrape_fails:
  assumes "download_webpage_handle h (video_page_url video_id) = Inr (webpage, final_url)"
    "final_url \<noteq> rate_limit_url" "\<not> py_in error_marker webpage"
    "DamtomoVideoIE_scrape (clean_html h) webpage = Inl e"
  shows "DamtomoVideoIE_real_extract h video_id = ([video_page_url video_id], Inl e)"
  using assms unfolding DamtomoVideoIE_real_extract_def Let_def by simp

lemma record_scrape_fails:
  assumes "download_webpage_handle h (record_page_url video_id) = Inr (webpage, final_url)"
    "final_url \<noteq> rate_limit_url" "\<not> py_in error_marker webpage"
    "DamtomoRecordIE_scrape (clean_html h) webpage = Inl e"
  shows "DamtomoRecordIE_real_extract h video_id = ([record_page_url video_id], Inl e)"
  using assms unfolding DamtomoRecordIE_real_extract_def Let_def by simp

lemma video_scrape_missing:
  assumes "DamtomoVideoIE_data_dict clean webpage (ascii ''user_name'') = None \<or>
           DamtomoVideoIE_data_dict clean webpage (ascii ''song_title'') = None \<or>
           DamtomoVideoIE_data_dict clean webpage (ascii ''song_artist'') = None"
  shows "\<exists>k\<in>{ascii ''user_name'', ascii ''song_title'', ascii ''song_artist''}.
           DamtomoVideoIE_data_dict clean webpage k = None \<and>
           DamtomoVideoIE_scrape clean webpage = Inl (KeyError k)"
proof -
  let ?dd = "DamtomoVideoIE_data_dict clean webpage"
  from assms consider
    (1) "?dd (ascii ''user_name'') = None"
    | (2) "?dd (ascii ''user_name'') \<noteq> None" "?dd (ascii ''song_title'') = None"
    | (3) "?dd (ascii ''user_name'') \<noteq> None" "?dd (ascii ''song_title'') \<noteq> None"
      "?dd (ascii ''song_artist'') = None"
    by argo
  then show ?thesis
  proof cases
    case 1
    then have "DamtomoVideoIE_scrape clean webpage = Inl (KeyError (ascii ''user_name''))"
      by (auto simp: video_scrape_Inl)
    with 1 show ?thesis by blast
  next
    case 2
    then have "DamtomoVideoIE_scrape clean webpage = Inl (KeyError (ascii ''song_title''))"
      by (auto simp: video_scrape_Inl)
    with 2 show ?thesis by blast
  next
    case 3
    then have "DamtomoVideoIE_scrape clean webpage = Inl (KeyError (ascii ''song_artist''))"
      by (auto simp: video_scrape_Inl)
    with 3 show ?thesis by blast
  qed
qed

lemma video_assemble_missing:
  assumes "\<exists>k\<in>{ascii ''user_name'', ascii ''song_title'', ascii ''song_artist'',
                 ascii ''audience'', ascii ''nice''}. dd k = None"
  shows "\<exists>k\<in>{ascii ''user_name'', ascii ''song_title'', ascii ''song_artist'',
                 ascii ''audience'', ascii ''nice''}.
           dd k = None \<and> DamtomoVideoIE_assemble video_id t u d dd m = Inl (KeyError k)"
proof -
  from assms have "dd (ascii ''user_name'') = None \<or> dd (ascii ''audience'') = None \<or>
      dd (ascii ''nice'') = None \<or> dd (ascii ''song_title'') = None \<or>
      dd (ascii ''song_artist'') = None"
    by auto
  then consider
    (1) "dd (ascii ''user_name'') = None"
    | (2) "dd (ascii ''user_name'') \<noteq> None" "dd (ascii ''audience'') = None"
    | (3) "dd (ascii ''user_name'') \<noteq> None" "dd (ascii ''audience'') \<noteq> None"
      "dd (ascii ''nice'') = None"
    | (4) "dd (ascii ''user_name'') \<noteq> None" "dd (ascii ''audience'') \<noteq> None"
      "dd (ascii ''nice'') \<noteq> None" "dd (ascii ''song_title'') = None"
    | (5) "dd (ascii ''user_name'') \<noteq> None" "dd (ascii ''audience'') \<noteq> None"
      "dd (ascii ''nice'') \<noteq> None" "dd (ascii ''song_title'') \<noteq> None"
      "dd (ascii ''song_artist'') = None"
    by argo
  then show ?thesis
  proof cases
    case 1
    then have "DamtomoVideoIE_assemble video_id t u d dd m = Inl (KeyError (ascii ''user_name''))"
      by (auto simp: video_assemble_Inl)
    with 1 show ?thesis by blast
  next
    case 2
    then have "DamtomoVideoIE_assemble video_id t u d dd m = Inl (KeyError (ascii ''audience''))"
      by (auto simp: video_assemble_Inl)
    with 2 show ?thesis by blast
  next
    case 3
    then have "DamtomoVideoIE_assemble video_id t u d dd m = Inl (KeyError (ascii ''nice''))"
      by (auto simp: video_assemble_Inl)
    with 3 show ?thesis by blast
  next
    case 4
    then have "DamtomoVideoIE_assemble video_id t u d dd m = Inl (KeyError (ascii ''song_title''))"
      by (auto simp: video_assemble_Inl)
    with 4 show ?thesis by blast
  next
    case 5
    then have "DamtomoVideoIE_assemble video_id t u d dd m = Inl (KeyError (ascii ''song_artist''))"
      by (auto simp: video_assemble_Inl)
    with 5 show ?thesis by blast
  qed
qed

lemma video_assemble_no_date:
  assumes "dd (ascii ''date'') = None"
    "\<forall>k\<in>{ascii ''user_name'', ascii ''song_title'', ascii ''song_artist'',
          ascii ''audience'', ascii ''nice''}. dd k \<noteq> None"
  shows "\<exists>r'. DamtomoVideoIE_assemble video_id t u d dd m = Inr r' \<and> upload_date r' = None"
proof -
  from assms(2) obtain un a' n st sa where
    k: "dd (ascii ''user_name'') = Some un" "dd (ascii ''audience'') = Some a'"
    "dd (ascii ''nice'') = Some n" "dd (ascii ''song_title'') = Some st"
    "dd (ascii ''song_artist'') = Some sa"
    by auto
  from video_assemble_Inr[OF k, of video_id t u d m] assms(1) show ?thesis by simp
qed

lemma record_success_keys:
  assumes "DamtomoRecordIE_real_extract h video_id = (tr, Inr r)"
  shows "\<exists>webpage final_url.
           download_webpage_handle h (record_page_url video_id) = Inr (webpage, final_url) \<and>
           (\<forall>k\<in>{ascii ''user_name'', ascii ''song_title'', ascii ''song_artist'',
                 ascii ''audience'', ascii ''nice''}.
              DamtomoRecordIE_data_dict (clean_html h) webpage k \<noteq> None)"
proof -
  from record_real_extract_Inr[OF assms] obtain webpage final_url d u dd t tree m where
    1: "download_webpage_handle h (record_page_url video_id) = Inr (webpage, final_url)"
    and 2: "DamtomoVideoIE_scrape (clean_html h) webpage = Inr (d, u, dd, t)"
    and 3: "DamtomoVideoIE_assemble video_id t u d dd m = Inr r"
    unfolding record_scrape record_assemble by blast
  from video_scrape_Inr[OF 2] obtain un st sa where
    4: "DamtomoVideoIE_data_dict (clean_html h) webpage (ascii ''user_name'') = Some un"
    "DamtomoVideoIE_data_dict (clean_html h) webpage (ascii ''song_title'') = Some st"
    "DamtomoVideoIE_data_dict (clean_html h) webpage (ascii ''song_artist'') = Some sa"
    "dd = (DamtomoVideoIE_data_dict (clean_html h) webpage)
            (ascii ''user_name'' \<mapsto> DamtomoVideoIE_user_name un)"
    by blast
  from video_assemble_fields[OF 3] have "dd (ascii ''audience'') \<noteq> None" "dd (ascii ''nice'') \<noteq> None"
    by simp_all
  with 4(4) have "DamtomoVideoIE_data_dict (clean_html h) webpage (ascii ''audience'') \<noteq> None"
    "DamtomoVideoIE_data_dict (clean_html h) webpage (ascii ''nice'') \<noteq> None"
    by (simp_all add: ascii_eq_iff)
  with 1 4(1-3) show ?thesis unfolding record_data_dict by auto
qed

lemma video_missing_call:
  assumes "download_webpage_handle h (video_page_url video_id) = Inr (webpage, final_url)"
    "final_url \<noteq> rate_limit_url" "\<not> py_in error_marker webpage"
    "DamtomoVideoIE_data_dict (clean_html h) webpage (ascii ''user_name'') = None \<or>
     DamtomoVideoIE_data_dict (clean_html h) webpage (ascii ''song_title'') = None \<or>
     DamtomoVideoIE_data_dict (clean_html h) webpage (ascii ''song_artist'') = None"
  shows "\<exists>k\<in>{ascii ''user_name'', ascii ''song_title'', ascii ''song_artist''}.
         DamtomoVideoIE_data_dict (clean_html h) webpage k = None \<and>
         DamtomoVideoIE_real_extract h video_id = ([video_page_url video_id], Inl (KeyError k))"
proof -
  from video_scrape_missing[OF assms(4)] obtain k where
    k: "k \<in> {ascii ''user_name'', ascii ''song_title'', ascii ''song_artist''}"
    "DamtomoVideoIE_data_dict (clean_html h) webpage k = None"
    "DamtomoVideoIE_scrape (clean_html h) webpage = Inl (KeyError k)"
    by blast
  from video_scrape_fails[OF assms(1-3) k(3)] k(1,2) show ?thesis by blast
qed

lemma record_missing_call:
  assumes "download_webpage_handle h (record_page_url video_id) = Inr (webpage, final_url)"
    "final_url \<noteq> rate_limit_url" "\<not> py_in error_marker webpage"
    "DamtomoRecordIE_data_dict (clean_html h) webpage (ascii ''user_name'') = None \<or>
     DamtomoRecordIE_data_dict (clean_html h) webpage (ascii ''song_title'') = None \<or>
     DamtomoRecordIE_data_dict (clean_html h) webpage (ascii ''song_artist'') = None"
  shows "\<exists>k\<in>{ascii ''user_name'', ascii ''song_title'', ascii ''song_artist''}.
         DamtomoRecordIE_data_dict (clean_html h) webpage k = None \<and>
         DamtomoRecordIE_real_extract h video_id = ([record_page_url video_id], Inl (KeyError k))"
proof -
  from video_scrape_missing[OF assms(4)[unfolded record_data_dict]] obtain k where
    k: "k \<in> {ascii ''user_name'', ascii ''song_title'', ascii ''song_artist''}"
    "DamtomoRecordIE_data_dict (clean_html h) webpage k = None"
    "DamtomoRecordIE_scrape (clean_html h) webpage = Inl (KeyError k)"
    unfolding record_data_dict record_scrape by blast
  from record_scrape_fails[OF assms(1-3) k(3)] k(1,2) show ?thesis by blast
qed

text \<open>
  C9, as the code has it. A result of either extractor requires the page dictionary to
  have \<^verbatim>\<open>user_name\<close>, \<^verbatim>\<open>song_title\<close>, \<^verbatim>\<open>song_artist\<close>, \<^verbatim>\<open>audience\<close> and \<^verbatim>\<open>nice\<close>; it does not
  require \<^verbatim>\<open>date\<close>, whose lookup is guarded: without it the result is assembled with no
  upload date. On a page that passes the two checks and lacks \<^verbatim>\<open>user_name\<close>, \<^verbatim>\<open>song_title\<close> or
  \<^verbatim>\<open>song_artist\<close>, the call raises the \<^verbatim>\<open>KeyError\<close> of one of the absent keys after the page
  request alone. When \<^verbatim>\<open>audience\<close> or \<^verbatim>\<open>nice\<close> (or one of the other three) is absent from the
  dictionary handed to the assembly, the assembly raises the \<^verbatim>\<open>KeyError\<close> of an absent key.
  Either way there is an exception and no result.
\<close>

theorem required_keys:
  "(DamtomoVideoIE_real_extract h video_id = (tr, Inr r) \<longrightarrow>
      (\<exists>webpage final_url.
         download_webpage_handle h (video_page_url video_id) = Inr (webpage, final_url) \<and>
         (\<forall>k\<in>{ascii ''user_name'', ascii ''song_title'', ascii ''song_artist'',
               ascii ''audience'', ascii ''nice''}.
            DamtomoVideoIE_data_dict (clean_html h) webpage k \<noteq> None))) \<and>
   (DamtomoRecordIE_real_extract h video_id = (tr, Inr r) \<longrightarrow>
      (\<exists>webpage final_url.
         download_webpage_handle h (record_page_url video_id) = Inr (webpage, final_url) \<and>
         (\<forall>k\<in>{ascii ''user_name'', ascii ''song_title'', ascii ''song_artist'',
               ascii ''audience'', ascii ''nice''}.
            DamtomoRecordIE_data_dict (clean_html h) webpage k \<noteq> None))) \<and>
   (download_webpage_handle h (video_page_url video_id) = Inr (webpage, final_url) \<and>
    final_url \<noteq> rate_limit_url \<and> \<not> py_in error_marker webpage \<and>
    (DamtomoVideoIE_data_dict (clean_html h) webpage (ascii ''user_name'') = None \<or>
     DamtomoVideoIE_data_dict (clean_html h) webpage (ascii ''song_title'') = None \<or>
     DamtomoVideoIE_data_dict (clean_html h) webpage (ascii ''song_artist'') = None) \<longrightarrow>
      (\<exists>k\<in>{ascii ''user_name'', ascii ''song_title'', ascii ''song_artist''}.
         DamtomoVideoIE_data_dict (clean_html h) webpage k = None \<and>
         DamtomoVideoIE_real_extract h video_id = ([video_page_url video_id], Inl (KeyError k)))) \<and>
   (download_webpage_handle h (record_page_url video_id) = Inr (webpage, final_url) \<and>
    final_url \<noteq> rate_limit_url \<and> \<not> py_in error_marker webpage \<and>
    (DamtomoRecordIE_data_dict (clean_html h) webpage (ascii ''user_name'') = None \<or>
     DamtomoRecordIE_data_dict (clean_html h) webpage (ascii ''song_title'') = None \<or>
     DamtomoRecordIE_data_dict (clean_html h) webpage (ascii ''song_artist'') = None) \<longrightarrow>
      (\<exists>k\<in>{ascii ''user_name'', ascii ''song_title'', ascii ''song_artist''}.
         DamtomoRecordIE_data_dict (clean_html h) webpage k = None \<and>
         DamtomoRecordIE_real_extract h video_id = ([record_page_url video_id], Inl (KeyError k)))) \<and>
   ((\<exists>k\<in>{ascii ''user_name'', ascii ''song_title'', ascii ''song_artist'',
           ascii ''audience'', ascii ''nice''}. dd k = None) \<longrightarrow>
      (\<exists>k\<in>{ascii ''user_name'', ascii ''song_title'', ascii ''song_artist'',
            ascii ''audience'', ascii ''nice''}.
         dd k = None \<and>
         DamtomoVideoIE_assemble video_id t u d dd m = Inl (KeyError k) \<and>
         DamtomoRecordIE_assemble video_id t u d dd m = Inl (KeyError k))) \<and>
   (dd (ascii ''date'') = None \<and>
    (\<forall>k\<in>{ascii ''user_name'', ascii ''song_title'', ascii ''song_artist'',
          ascii ''audience'', ascii ''nice''}. dd k \<noteq> None) \<longrightarrow>
      (\<exists>r'. DamtomoVideoIE_assemble video_id t u d dd m = Inr r' \<and>
            DamtomoRecordIE_assemble video_id t u d dd m = Inr r' \<and>
            upload_date r' = None))"
proof -
  note 1 = video_success_keys[of h video_id tr r] record_success_keys[of h video_id tr r]
  note 2 = video_missing_call[of h video_id webpage final_url]
    record_missing_call[of h video_id webpage final_url]
  have 3: "\<exists>k\<in>{ascii ''user_name'', ascii ''song_title'', ascii ''song_artist'',
            ascii ''audience'', ascii ''nice''}.
         dd k = None \<and>
         DamtomoVideoIE_assemble video_id t u d dd m = Inl (KeyError k) \<and>
         DamtomoRecordIE_assemble video_id t u d dd m = Inl (KeyError k)"
    if "\<exists>k\<in>{ascii ''user_name'', ascii ''song_title'', ascii ''song_artist'',
           ascii ''audience'', ascii ''nice''}. dd k = None"
    using video_assemble_missing[OF that, of video_id t u d m] unfolding record_assemble by blast
  have 4: "\<exists>r'. DamtomoVideoIE_assemble video_id t u d dd m = Inr r' \<and>
            DamtomoRecordIE_assemble video_id t u d dd m = Inr r' \<and>
            upload_date r' = None"
    if "dd (ascii ''date'') = None"
      "\<forall>k\<in>{ascii ''user_name'', ascii ''song_title'', ascii ''song_artist'',
          ascii ''audience'', ascii ''nice''}. dd k \<noteq> None"
    using video_assemble_no_date[OF that, of video_id t u d m] unfolding record_assemble by blast
  show ?thesis
    apply (intro conjI impI)
    subgoal by (rule 1(1))
    subgoal by (rule 1(2))
    subgoal by (elim conjE) (rule 2(1); assumption)
    subgoal by (elim conjE) (rule 2(2); assumption)
    subgoal by (rule 3)
    subgoal by (elim conjE) (rule 4; assumption)
    done
qed

text \<open>
  The claim as it is written fails on the page of the example without its date: the
  dictionary has no \<^verbatim>\<open>date\<close>, and the call returns a result.
\<close>

theorem date_not_required_counterexample:
  "DamtomoVideoIE_data_dict
     (clean_html (example_host example_page_no_date (video_page_url example_id) (example_tree video_ns)))
     example_page_no_date (ascii ''date'') = None \<and>
   DamtomoVideoIE_real_extract
     (example_host example_page_no_date (video_page_url example_id) (example_tree video_ns))
     example_id =
     ([video_page_url example_id, video_xml_url example_id],
      Inr (example_info\<lparr>upload_date := None\<rparr>))"
  using example_video_extract_no_date example_data_dict(6)
  by (simp add: example_host_def)

theorem required_keys_witness:
  "DamtomoVideoIE_real_extract example_video_host example_id =
     ([video_page_url example_id, video_xml_url example_id], Inr example_info) \<and>
   DamtomoVideoIE_data_dict (clean_html example_video_host) example_page (ascii ''user_name'') \<noteq> None \<and>
   DamtomoVideoIE_data_dict (clean_html example_video_host) example_page (ascii ''song_title'') \<noteq> None \<and>
   DamtomoVideoIE_data_dict (clean_html example_video_host) example_page (ascii ''song_artist'') \<noteq> None \<and>
   DamtomoVideoIE_data_dict (clean_html example_video_host) example_page (ascii ''audience'') \<noteq> None \<and>
   DamtomoVideoIE_data_dict (clean_html example_video_host) example_page (ascii ''nice'') \<noteq> None \<and>
   DamtomoVideoIE_real_extract
     (example_host (ascii ''<html></html>'') (video_page_url example_id) (example_tree video_ns))
     example_id = ([video_page_url example_id], Inl (KeyError (ascii ''user_name''))) \<and>
   DamtomoVideoIE_assemble example_id [] None None
     (map_of [(ascii ''user_name'', ascii ''u''), (ascii ''song_title'', ascii ''s''),
              (ascii ''song_artist'', ascii ''a''), (ascii ''nice'', ascii ''1'')])
     (ascii ''m'') = Inl (KeyError (ascii ''audience''))"
proof -
  let ?tr = "[video_page_url example_id, video_xml_url example_id]"
  have d: "download_webpage_handle example_video_host (video_page_url example_id) =
      Inr (example_page, video_page_url example_id)"
    by (simp add: example_video_host_def example_host_def)
  from required_keys[of example_video_host example_id ?tr example_info, THEN conjunct1, rule_format,
      OF example_video_extract]
  obtain webpage final_url where
    "download_webpage_handle example_video_host (video_page_url example_id) = Inr (webpage, final_url)"
    "\<forall>k\<in>{ascii ''user_name'', ascii ''song_title'', ascii ''song_artist'',
         ascii ''audience'', ascii ''nice''}.
      DamtomoVideoIE_data_dict (clean_html example_video_host) webpage k \<noteq> None"
    by blast
  with d have 1: "\<forall>k\<in>{ascii ''user_name'', ascii ''song_title'', ascii ''song_artist'',
         ascii ''audience'', ascii ''nice''}.
      DamtomoVideoIE_data_dict (clean_html example_video_host) example_page k \<noteq> None"
    by simp
  let ?h = "example_host (ascii ''<html></html>'') (video_page_url example_id) (example_tree video_ns)"
  let ?p = "ascii ''<html></html>''"
  have f: "re_finditer field_re ?p = []"
    by (simp add: eval_re)
  have dd: "DamtomoVideoIE_data_dict strip ?p (ascii ''user_name'') = None"
    "DamtomoVideoIE_data_dict strip ?p (ascii ''song_title'') = None"
    "DamtomoVideoIE_data_dict strip ?p (ascii ''song_artist'') = None"
    unfolding DamtomoVideoIE_data_dict_def f by (simp_all add: eval_dict)
  have h: "download_webpage_handle ?h (video_page_url example_id) = Inr (?p, video_page_url example_id)"
    "clean_html ?h = strip" "video_page_url example_id \<noteq> rate_limit_url"
    "\<not> py_in error_marker ?p"
    by (simp_all add: example_host_def ascii_def)
  have "download_webpage_handle ?h (video_page_url example_id) = Inr (?p, video_page_url example_id) \<and>
    video_page_url example_id \<noteq> rate_limit_url \<and> \<not> py_in error_marker ?p \<and>
    (DamtomoVideoIE_data_dict (clean_html ?h) ?p (ascii ''user_name'') = None \<or>
     DamtomoVideoIE_data_dict (clean_html ?h) ?p (ascii ''song_title'') = None \<or>
     DamtomoVideoIE_data_dict (clean_html ?h) ?p (ascii ''song_artist'') = None)"
    using h(1,3,4) dd(1) unfolding h(2) by (intro conjI disjI1)
  from required_keys[of ?h example_id ?tr example_info ?p "video_page_url example_id",
      THEN conjunct2, THEN conjunct2, THEN conjunct1, rule_format, OF this]
  obtain k where
    k: "k \<in> {ascii ''user_name'', ascii ''song_title'', ascii ''song_artist''}"
    "DamtomoVideoIE_real_extract ?h example_id = ([video_page_url example_id], Inl (KeyError k))"
    by (elim bexE conjE)
  have "DamtomoVideoIE_scrape (clean_html ?h) ?p = Inl (KeyError (ascii ''user_name''))"
    unfolding h(2) video_scrape_Inl using dd(1) by simp
  with h(1,3,4) have "DamtomoVideoIE_real_extract ?h example_id =
      ([video_page_url example_id], Inl (KeyError (ascii ''user_name'')))"
    by (rule video_scrape_fails)
  moreover have "DamtomoVideoIE_assemble example_id [] None None
     (map_of [(ascii ''user_name'', ascii ''u''), (ascii ''song_title'', ascii ''s''),
              (ascii ''song_artist'', ascii ''a''), (ascii ''nice'', ascii ''1'')])
     (ascii ''m'') = Inl (KeyError (ascii ''audience''))"
    by (simp add: video_assemble_Inl ascii_eq_iff)
  moreover from 1 have
    "DamtomoVideoIE_data_dict (clean_html example_video_host) example_page (ascii ''user_name'') \<noteq> None"
    "DamtomoVideoIE_data_dict (clean_html example_video_host) example_page (ascii ''song_title'') \<noteq> None"
    "DamtomoVideoIE_data_dict (clean_html example_video_host) example_page (ascii ''song_artist'') \<noteq> None"
    "DamtomoVideoIE_data_dict (clean_html example_video_host) example_page (ascii ''audience'') \<noteq> None"
    "DamtomoVideoIE_data_dict (clean_html example_video_host) example_page (ascii ''nice'') \<noteq> None"
    by simp_all
  ultimately show ?thesis using example_video_extract by (intro conjI)
qed

section \<open>The suffix of the user name\<close>

lemma rep_greedy_head:
  assumes "\<And>x xs. cmatch cl x \<Longrightarrow> k (x # xs) = None"
  shows "rep_greedy cl 0 s k = k (dropWhile (cmatch cl) s)"
proof (induction s)
  case Nil
  show ?case by simp
next
  case (Cons x xs)
  show ?case
  proof (cases "cmatch cl x")
    case True
    with assms have "k (x # xs) = None" by simp
    with True Cons.IH show ?thesis by (simp split: option.splits)
  next
    case False
    then show ?thesis by simp
  qed
qed

lemma eos_tail:
  "rep_greedy Space 0 u (\<lambda>s2. if s2 = [] \<or> s2 = [10] then Some (s2, c) else None) =
     (if list_all is_space u then Some ([], c) else None)"
proof (induction u)
  case Nil
  show ?case by simp
next
  case (Cons x xs)
  have s10: "is_space 10" by (simp add: is_space_def)
  show ?case
  proof (cases "is_space x")
    case True
    show ?thesis
    proof (cases "list_all is_space xs")
      case True
      with \<open>is_space x\<close> Cons.IH show ?thesis by simp
    next
      case False
      then have "xs \<noteq> []" by auto
      with False \<open>is_space x\<close> Cons.IH show ?thesis by simp
    qed
  next
    case False
    with s10 have "x \<noteq> 10" by auto
    with False show ?thesis by simp
  qed
qed

lemma suffix_match:
  "re_match suffix_re s =
     (if prefix [12373, 12435] (dropWhile is_space s) \<and>
         list_all is_space (drop 2 (dropWhile is_space s))
      then Some ([], Map.empty) else None)"
proof -
  let ?k = "\<lambda>s1. mt (Seq (Str [12373, 12435]) (Seq (Rep Space 0 True) Eos)) s1 Map.empty
                  (\<lambda>s' c. Some (s', c))"
  have k: "?k s1 = (if prefix [12373, 12435] s1 \<and> list_all is_space (drop 2 s1)
                   then Some ([], Map.empty) else None)" for s1
    by (simp add: eos_tail numeral_2_eq_2)
  have "\<not> is_space 12373" by (simp add: is_space_def)
  then have r: "?k (x # xs) = None" if "cmatch Space x" for x xs
    using that unfolding k by auto
  have "re_match suffix_re s = rep_greedy Space 0 s ?k"
    by (simp add: re_match_def suffix_re_def)
  also have "\<dots> = ?k (dropWhile (cmatch Space) s)"
    using r by (rule rep_greedy_head)
  also have "dropWhile (cmatch Space) s = dropWhile is_space s"
    by (simp add: cmatch.simps[abs_def])
  finally show ?thesis unfolding k .
qed

lemma suffix_match_iff:
  "re_match suffix_re s \<noteq> None \<longleftrightarrow>
     (\<exists>w t. s = w @ [12373, 12435] @ t \<and> list_all is_space w \<and> list_all is_space t)"
proof
  assume "re_match suffix_re s \<noteq> None"
  then have p: "prefix [12373, 12435] (dropWhile is_space s)"
    and t: "list_all is_space (drop 2 (dropWhile is_space s))"
    unfolding suffix_match by (auto split: if_splits)
  from p obtain t' where t': "dropWhile is_space s = [12373, 12435] @ t'"
    by (auto simp: prefix_def)
  with t have "list_all is_space t'" by simp
  moreover have "s = takeWhile is_space s @ [12373, 12435] @ t'"
    using t' by (metis takeWhile_dropWhile_id)
  moreover have "list_all is_space (takeWhile is_space s)"
    by (simp add: list_all_iff) (meson set_takeWhileD)
  ultimately show "\<exists>w t. s = w @ [12373, 12435] @ t \<and> list_all is_space w \<and> list_all is_space t"
    by blast
next
  assume "\<exists>w t. s = w @ [12373, 12435] @ t \<and> list_all is_space w \<and> list_all is_space t"
  then obtain w t where s: "s = w @ [12373, 12435] @ t" "list_all is_space w" "list_all is_space t"
    by blast
  have "\<not> is_space 12373" by (simp add: is_space_def)
  moreover from s(2) have "\<And>y. y \<in> set w \<Longrightarrow> is_space y"
    by (simp add: list_all_iff)
  then have "dropWhile is_space (w @ [12373, 12435] @ t) = dropWhile is_space ([12373, 12435] @ t)"
    by (rule dropWhile_append2)
  ultimately have "dropWhile is_space s = [12373, 12435] @ t"
    unfolding s(1) by simp
  with s(3) show "re_match suffix_re s \<noteq> None"
    unfolding suffix_match by simp
qed

lemma suffix_match_Some:
  "re_match suffix_re s = Some (post, c) \<Longrightarrow> post = [] \<and> c = Map.empty"
  unfolding suffix_match by (auto split: if_splits)

lemma user_name_search:
  "DamtomoVideoIE_user_name s =
     (case re_search suffix_re s of None \<Rightarrow> s | Some (pre, m, post, c) \<Rightarrow> pre)"
proof (cases "re_search suffix_re s")
  case None
  then show ?thesis
    by (simp add: DamtomoVideoIE_user_name_def re_sub.simps)
next
  case (Some x)
  obtain pre m post c where x: "x = (pre, m, post, c)" by (cases x)
  from re_search_Some[OF Some[unfolded x]] have "re_match suffix_re (m @ post) = Some (post, c)"
    by simp
  then have p: "post = []" by (simp add: suffix_match_Some)
  have "re_match suffix_re [] = None" by (simp add: suffix_match)
  then have "re_search suffix_re [] = None" by (simp add: re_search_Nil)
  then have "re_sub suffix_re [] [] = []" by (simp add: re_sub.simps)
  with Some x p show ?thesis
    by (simp add: DamtomoVideoIE_user_name_def re_sub.simps[of suffix_re "[]" s])
qed

lemma rstrip_tail:
  assumes "list_all is_space t" "x \<noteq> []" "\<not> is_space (last x)"
  shows "rev (dropWhile is_space (rev (x @ t))) = x"
proof -
  from assms(1) have "\<And>y. y \<in> set (rev t) \<Longrightarrow> is_space y"
    by (simp add: list_all_iff)
  then have "dropWhile is_space (rev t @ rev x) = dropWhile is_space (rev x)"
    by (rule dropWhile_append2)
  then have "dropWhile is_space (rev (x @ t)) = dropWhile is_space (rev x)"
    by simp
  also from assms(2,3) have "\<dots> = rev x"
    by (cases "rev x") (auto simp: last_rev[symmetric] simp del: last_rev)
  finally show ?thesis by simp
qed

lemma user_name_stripped:
  assumes "list_all is_space w" "list_all is_space t" "p = [] \<or> \<not> is_space (last p)"
  shows "DamtomoVideoIE_user_name (p @ w @ [12373, 12435] @ t) = p"
proof -
  let ?san = "[12373, 12435] :: ustr"
  have n: "\<not> is_space 12435" by (simp add: is_space_def)
  have none: "re_match suffix_re (drop i (p @ w @ ?san @ t)) = None" if "i < length p" for i
  proof (rule ccontr)
    assume "re_match suffix_re (drop i (p @ w @ ?san @ t)) \<noteq> None"
    then obtain w' t' where
      d: "drop i (p @ w @ ?san @ t) = w' @ ?san @ t'" "list_all is_space w'" "list_all is_space t'"
      unfolding suffix_match_iff by blast
    from that have e: "drop i (p @ w @ ?san @ t) = drop i p @ w @ ?san @ t" by simp
    from that have ne: "drop i p \<noteq> []" by simp
    from that assms(3) have l: "\<not> is_space (last (drop i p))" by (cases p) auto
    have "rev (dropWhile is_space (rev ((w' @ ?san) @ t'))) = w' @ ?san"
      using d(3) n by (intro rstrip_tail) simp_all
    moreover have "rev (dropWhile is_space (rev ((drop i p @ w @ ?san) @ t))) = drop i p @ w @ ?san"
      using assms(2) n by (intro rstrip_tail) simp_all
    ultimately have "w' @ ?san = drop i p @ w @ ?san"
      using d(1) e by (metis append.assoc)
    then have "w' = drop i p @ w" by simp
    with d(2) have "list_all is_space (drop i p)" by simp
    then have "is_space (last (drop i p))"
      using last_in_set[OF ne] unfolding list_all_iff by blast
    with l show False by contradiction
  qed
  have "re_match suffix_re (w @ ?san @ t) \<noteq> None"
    unfolding suffix_match_iff using assms(1,2) by blast
  then obtain post c where "re_match suffix_re (w @ ?san @ t) = Some (post, c)" by auto
  from re_search_hit[OF this] obtain m where
    h: "re_search suffix_re (w @ ?san @ t) = Some ([], m, post, c)" by blast
  have "re_search suffix_re (p @ w @ ?san @ t) =
      map_option (\<lambda>(p', m, post, c). (p @ p', m, post, c)) (re_search suffix_re (w @ ?san @ t))"
    by (rule re_search_skip) (rule none)
  with h have "re_search suffix_re (p @ w @ ?san @ t) = Some (p, m, post, c)" by simp
  then show ?thesis by (simp add: user_name_search)
qed

lemma user_name_unchanged:
  assumes "\<forall>p w t. s = p @ w @ [12373, 12435] @ t \<longrightarrow> \<not> (list_all is_space w \<and> list_all is_space t)"
  shows "DamtomoVideoIE_user_name s = s"
proof -
  have "re_match suffix_re (drop i s) = None" for i
  proof (rule ccontr)
    assume "re_match suffix_re (drop i s) \<noteq> None"
    then obtain w t where "drop i s = w @ [12373, 12435] @ t" "list_all is_space w" "list_all is_space t"
      unfolding suffix_match_iff by blast
    moreover have "s = take i s @ drop i s" by simp
    ultimately have "s = take i s @ w @ [12373, 12435] @ t \<and> list_all is_space w \<and> list_all is_space t"
      by simp
    with assms show False by blast
  qed
  then have "re_search suffix_re s = None" by (simp add: re_search_None_iff)
  then show ?thesis by (simp add: user_name_search)
qed

subsection \<open>White space\<close>

lemma spaces_match:
  "re_match spaces_re s =
     (if takeWhile is_space s = [] then None else Some (dropWhile is_space s, Map.empty))"
proof (cases "takeWhile is_space s = []")
  case True
  then have "length (takeWhile (cmatch Space) s) < Suc 0" by (simp add: cmatch.simps[abs_def])
  then show ?thesis using True
    by (simp add: spaces_re_def re_match_def rep_greedy_short)
next
  case False
  then have "Suc 0 \<le> length (takeWhile (cmatch Space) s)"
    by (cases "takeWhile is_space s") (simp_all add: cmatch.simps[abs_def])
  then show ?thesis using False
    by (simp add: spaces_re_def re_match_def rep_greedy_longest)
       (simp add: cmatch.simps[abs_def])
qed

lemma spaces_search_shorter:
  assumes "re_search spaces_re s = Some (p, m, post, c)"
  shows "length post < length s"
proof -
  from re_search_Some[OF assms] have s: "s = p @ m @ post"
    and h: "re_match spaces_re (m @ post) = Some (post, c)" by auto
  from h have "takeWhile is_space (m @ post) \<noteq> []" "post = dropWhile is_space (m @ post)"
    by (auto simp: spaces_match split: if_splits)
  then have "length post < length (m @ post)"
    by (metis length_append length_greater_0_conv less_add_same_cancel2 add.commute
        takeWhile_dropWhile_id)
  with s show ?thesis by simp
qed

lemma spaces_sub_Cons:
  assumes "\<not> is_space x"
  shows "re_sub spaces_re r (x # xs) = x # re_sub spaces_re r xs"
proof -
  from assms have n: "re_match spaces_re (x # xs) = None" by (simp add: spaces_match)
  show ?thesis
  proof (cases "re_search spaces_re xs")
    case None
    with n show ?thesis
      by (simp add: re_sub.simps[of spaces_re r "x # xs"] re_sub.simps[of spaces_re r xs]
          re_search_Cons)
  next
    case (Some y)
    obtain p m post c where y: "y = (p, m, post, c)" by (cases y)
    from spaces_search_shorter[OF Some[unfolded y]] have "length post < length xs" .
    with n Some y show ?thesis
      by (simp add: re_sub.simps[of spaces_re r "x # xs"] re_sub.simps[of spaces_re r xs]
          re_search_Cons)
  qed
qed

lemma spaces_sub_space:
  assumes "is_space x"
  shows "re_sub spaces_re r (x # xs) = r @ re_sub spaces_re r (dropWhile is_space xs)"
proof -
  from assms have "re_match spaces_re (x # xs) = Some (dropWhile is_space xs, Map.empty)"
    by (simp add: spaces_match)
  from re_search_hit[OF this] have
    "re_search spaces_re (x # xs) =
       Some ([], take (length (x # xs) - length (dropWhile is_space xs)) (x # xs),
             dropWhile is_space xs, Map.empty)" .
  moreover have "length (dropWhile is_space xs) < length (x # xs)"
    by (simp add: length_dropWhile_le le_imp_less_Suc)
  ultimately show ?thesis
    by (simp add: re_sub.simps[of spaces_re r "x # xs"])
qed

lemma spaces_sub_Nil: "re_sub spaces_re r [] = []"
  by (simp add: re_sub.simps[of spaces_re r "[]"] re_search_Nil spaces_match)

lemma spaces_collapse: "re_sub spaces_re (ascii '' '') v = collapse_ws v"
proof (induction v rule: collapse_ws.induct)
  case 1
  show ?case by (simp add: spaces_sub_Nil)
next
  case (2 x xs)
  then show ?case
    by (cases "is_space x") (simp_all add: spaces_sub_Cons spaces_sub_space ascii_def)
qed


subsection \<open>The values of the dictionary\<close>

lemma strip_last: "strip x \<noteq> [] \<Longrightarrow> \<not> is_space (last (strip x))"
proof -
  assume a: "strip x \<noteq> []"
  let ?ys = "dropWhile is_space (rev (dropWhile is_space x))"
  from a have ne: "?ys \<noteq> []" by (simp add: strip_def)
  then have "\<not> is_space (hd ?ys)" by (rule hd_dropWhile)
  moreover from ne have "last (rev ?ys) = hd ?ys" by (simp add: last_rev)
  ultimately show ?thesis by (simp add: strip_def)
qed

lemma last_dropWhile:
  assumes "dropWhile P xs \<noteq> []"
  shows "last (dropWhile P xs) = last xs"
proof -
  have "last xs = last (takeWhile P xs @ dropWhile P xs)" by simp
  also from assms have "\<dots> = last (dropWhile P xs)" by (rule last_appendR)
  finally show ?thesis by simp
qed

lemma collapse_last:
  "v \<noteq> [] \<Longrightarrow> \<not> is_space (last v) \<Longrightarrow>
   collapse_ws v \<noteq> [] \<and> \<not> is_space (last (collapse_ws v))"
proof (induction v rule: collapse_ws.induct)
  case 1
  then show ?case by simp
next
  case (2 x xs)
  show ?case
  proof (cases "is_space x")
    case True
    with 2(3,4) have xs: "xs \<noteq> []" by auto
    with 2(4) have l: "\<not> is_space (last xs)" by simp
    have d: "dropWhile is_space xs \<noteq> []"
    proof
      assume "dropWhile is_space xs = []"
      then have "\<forall>y\<in>set xs. is_space y" by (simp add: dropWhile_eq_Nil_conv)
      with xs have "is_space (last xs)" by simp
      with l show False by contradiction
    qed
    with l have "\<not> is_space (last (dropWhile is_space xs))" by (simp add: last_dropWhile)
    from 2(1)[OF True d this] True show ?thesis by simp
  next
    case False
    show ?thesis
    proof (cases "xs = []")
      case True
      with False show ?thesis by simp
    next
      case ne: False
      with 2(4) have "\<not> is_space (last xs)" by simp
      from 2(2)[OF False ne this] False show ?thesis by simp
    qed
  qed
qed

lemma fold_range:
  "foldl (\<lambda>d g. case (match_group g 2, match_group g 3) of
                   (Some k, Some v) \<Rightarrow> d(k \<mapsto> clean v)
                 | _ \<Rightarrow> d) d0 ms k = Some v \<Longrightarrow>
   d0 k = Some v \<or> v \<in> range clean"
proof (induction ms arbitrary: d0)
  case Nil
  then show ?case by simp
next
  case (Cons g ms)
  from Cons.IH[OF Cons.prems[unfolded foldl_Cons]] show ?case
    by (auto split: option.splits if_splits)
qed

lemma data_dict_value:
  assumes "\<forall>x. strip (clean x) = clean x"
    and "DamtomoVideoIE_data_dict clean webpage k = Some v"
  shows "v \<noteq> [] \<and> \<not> is_space (last v)"
proof -
  let ?d = "foldl (\<lambda>d g. case (match_group g 2, match_group g 3) of
                   (Some k, Some v) \<Rightarrow> d(k \<mapsto> clean v)
                 | _ \<Rightarrow> d) Map.empty (re_finditer field_re webpage)"
  from assms(2) obtain v0 where v0: "?d k = Some v0" "v0 \<noteq> []" "v = collapse_ws v0"
    by (auto simp: DamtomoVideoIE_data_dict_def Let_def spaces_collapse
        split: option.splits if_splits)
  from fold_range[OF v0(1)] obtain x where "v0 = clean x" by auto
  with assms(1) have s: "strip v0 = v0" by simp
  with v0(2) have "strip v0 \<noteq> []" by simp
  then have "\<not> is_space (last (strip v0))" by (rule strip_last)
  with s have "\<not> is_space (last v0)" by simp
  with v0(2,3) show ?thesis by (simp add: collapse_last)
qed

subsection \<open>The text without its suffix\<close>

lemma rstrip_split:
  "\<exists>w. u = rstrip u @ w \<and> list_all is_space w \<and> (rstrip u = [] \<or> \<not> is_space (last (rstrip u)))"
proof -
  let ?t = "takeWhile is_space (rev u)" and ?d = "dropWhile is_space (rev u)"
  have "rev ?d @ rev ?t = rev (?t @ ?d)" by (rule rev_append[symmetric])
  also have "?t @ ?d = rev u" by (rule takeWhile_dropWhile_id)
  finally have "rev ?d @ rev ?t = u" by (simp only: rev_rev_ident)
  then have "u = rstrip u @ rev ?t" by (simp only: rstrip_def)
  moreover have "list_all is_space (rev ?t)"
    by (simp add: list_all_iff) (meson set_takeWhileD)
  moreover have "rstrip u = [] \<or> \<not> is_space (last (rstrip u))"
  proof (cases "?d = []")
    case True
    then show ?thesis by (simp add: rstrip_def)
  next
    case False
    then have "\<not> is_space (hd ?d)" by (rule hd_dropWhile)
    moreover from False have "last (rev ?d) = hd ?d" by (simp add: last_rev)
    ultimately show ?thesis by (simp add: rstrip_def)
  qed
  ultimately show ?thesis by blast
qed

lemma user_name_suffix:
  assumes "suffix [12373, 12435] v"
  shows "DamtomoVideoIE_user_name v = drop_polite_suffix v"
proof -
  from assms obtain u where v: "v = u @ [12373, 12435]" by (auto simp: suffix_def)
  from rstrip_split[of u] obtain w where
    w: "u = rstrip u @ w" "list_all is_space w" "rstrip u = [] \<or> \<not> is_space (last (rstrip u))"
    by blast
  have "DamtomoVideoIE_user_name (rstrip u @ w @ [12373, 12435] @ []) = rstrip u"
    using w(2) _ w(3) by (rule user_name_stripped) simp
  moreover have "rstrip u @ w @ [12373, 12435] @ [] = v"
    using w(1) v by simp
  ultimately have "DamtomoVideoIE_user_name v = rstrip u" by (simp only:)
  with assms v show ?thesis by (simp add: drop_polite_suffix_def)
qed

lemma user_name_no_suffix:
  assumes "\<not> suffix [12373, 12435] v" "v \<noteq> []" "\<not> is_space (last v)"
  shows "DamtomoVideoIE_user_name v = drop_polite_suffix v"
proof -
  have "\<not> (list_all is_space w \<and> list_all is_space t)" if "v = p @ w @ [12373, 12435] @ t" for p w t
  proof
    assume a: "list_all is_space w \<and> list_all is_space t"
    show False
    proof (cases "t = []")
      case True
      with that have "v = (p @ w) @ [12373, 12435]" by simp
      then have "suffix [12373, 12435] v" by (simp only: suffix_def) blast
      with assms(1) show False by contradiction
    next
      case False
      with that have "last v = last t" by simp
      moreover from False a have "is_space (last t)"
        using last_in_set[OF False] by (auto simp: list_all_iff)
      ultimately show False using assms(3) by simp
    qed
  qed
  then have "DamtomoVideoIE_user_name v = v" by (intro user_name_unchanged) blast
  with assms(1) show ?thesis by (simp add: drop_polite_suffix_def)
qed

lemma user_name_value:
  assumes "\<forall>x. strip (clean x) = clean x"
    and "DamtomoVideoIE_data_dict clean webpage k = Some v"
  shows "DamtomoVideoIE_user_name v = drop_polite_suffix v"
proof (cases "suffix [12373, 12435] v")
  case True
  then show ?thesis by (rule user_name_suffix)
next
  case False
  from data_dict_value[OF assms] have "v \<noteq> []" "\<not> is_space (last v)" by simp_all
  with False show ?thesis by (rule user_name_no_suffix)
qed

lemma strip_idem: "strip (strip x) = strip x"
proof (cases "strip x = []")
  case True
  have "strip [] = []" by (simp add: strip_def)
  with True show ?thesis by (simp only:)
next
  case False
  let ?a = "dropWhile is_space x"
  let ?b = "dropWhile is_space (rev ?a)"
  from False have b: "?b \<noteq> []" by (simp add: strip_def)
  have a: "?a \<noteq> []"
  proof
    assume "?a = []"
    then have "?b = []" by (simp only: rev.simps dropWhile.simps)
    with b show False by contradiction
  qed
  then have ha: "\<not> is_space (hd ?a)" by (rule hd_dropWhile)
  have "rev ?a = takeWhile is_space (rev ?a) @ ?b" by simp
  then have "?a = rev ?b @ rev (takeWhile is_space (rev ?a))"
    by (metis rev_append rev_rev_ident)
  with b have "hd ?a = hd (rev ?b)" by (metis hd_append2 rev_is_Nil_conv)
  with ha have "\<not> is_space (hd (rev ?b))" by simp
  with b have 1: "dropWhile is_space (rev ?b) = rev ?b" by (cases "rev ?b") auto
  from b have "\<not> is_space (hd ?b)" by (rule hd_dropWhile)
  with b have 2: "dropWhile is_space ?b = ?b" by (cases ?b) auto
  have "strip x = rev ?b" by (simp add: strip_def)
  then show ?thesis by (simp add: strip_def 1 2)
qed

lemma example_name_finditer:
  \<open>re_finditer field_re (example_name_page [31665, 12398, 12300, 20013, 12398, 20154, 12301, 12373, 12435]) =
     [(ascii ''<p class="user_name">'' @ [31665, 12398, 12300, 20013, 12398, 20154, 12301, 12373, 12435] @ ascii ''</p>'',
       [1 \<mapsto> ascii ''p'', 2 \<mapsto> ascii ''user_name'',
        3 \<mapsto> [31665, 12398, 12300, 20013, 12398, 20154, 12301, 12373, 12435]])]\<close>
  \<open>re_finditer field_re (example_name_page [65326, 65313, 65326, 65313]) =
     [(ascii ''<p class="user_name">'' @ [65326, 65313, 65326, 65313] @ ascii ''</p>'',
       [1 \<mapsto> ascii ''p'', 2 \<mapsto> ascii ''user_name'', 3 \<mapsto> [65326, 65313, 65326, 65313]])]\<close>
  by (simp_all add: example_name_page_def eval_re)

lemma example_name_dict:
  "DamtomoVideoIE_data_dict strip
     (example_name_page [31665, 12398, 12300, 20013, 12398, 20154, 12301, 12373, 12435])
     (ascii ''user_name'') = Some [31665, 12398, 12300, 20013, 12398, 20154, 12301, 12373, 12435]"
  "DamtomoVideoIE_data_dict strip (example_name_page [65326, 65313, 65326, 65313])
     (ascii ''user_name'') = Some [65326, 65313, 65326, 65313]"
  unfolding DamtomoVideoIE_data_dict_def example_name_finditer
  by (simp_all add: eval_dict)

text \<open>
  C5. The helper \<^verbatim>\<open>clean_html\<close> of the host framework returns its result stripped, so a value
  of the dictionary is not empty and does not end in white space. On the value of
  \<^verbatim>\<open>user_name\<close> in the dictionary of a page, line 48 (line 135 in the other extractor) gives
  the value without a final token U+3055 U+3093 and without the white space just before the
  token; a value that does not end in the token is left as it is. The dictionary that the
  scrape hands on has this text under \<^verbatim>\<open>user_name\<close>.
\<close>

theorem suffix_stripped:
  assumes "\<forall>x. strip (clean x) = clean x"
  shows "(\<forall>v. DamtomoVideoIE_data_dict clean webpage (ascii ''user_name'') = Some v \<longrightarrow>
            DamtomoVideoIE_user_name v = drop_polite_suffix v) \<and>
         (\<forall>v. DamtomoRecordIE_data_dict clean webpage (ascii ''user_name'') = Some v \<longrightarrow>
            DamtomoRecordIE_user_name v = drop_polite_suffix v) \<and>
         (\<forall>d u dd t. DamtomoVideoIE_scrape clean webpage = Inr (d, u, dd, t) \<longrightarrow>
            (\<exists>v. DamtomoVideoIE_data_dict clean webpage (ascii ''user_name'') = Some v \<and>
                 dd (ascii ''user_name'') = Some (drop_polite_suffix v))) \<and>
         (\<forall>d u dd t. DamtomoRecordIE_scrape clean webpage = Inr (d, u, dd, t) \<longrightarrow>
            (\<exists>v. DamtomoRecordIE_data_dict clean webpage (ascii ''user_name'') = Some v \<and>
                 dd (ascii ''user_name'') = Some (drop_polite_suffix v)))"
proof -
  have 1: "DamtomoVideoIE_user_name v = drop_polite_suffix v"
    if "DamtomoVideoIE_data_dict clean webpage (ascii ''user_name'') = Some v" for v
    using assms that by (rule user_name_value)
  have 2: "\<exists>v. DamtomoVideoIE_data_dict clean webpage (ascii ''user_name'') = Some v \<and>
                 dd (ascii ''user_name'') = Some (drop_polite_suffix v)"
    if "DamtomoVideoIE_scrape clean webpage = Inr (d, u, dd, t)" for d u dd t
  proof -
    from video_scrape_Inr[OF that] obtain un where
      un: "DamtomoVideoIE_data_dict clean webpage (ascii ''user_name'') = Some un"
      and dd: "dd = (DamtomoVideoIE_data_dict clean webpage)
                  (ascii ''user_name'' \<mapsto> DamtomoVideoIE_user_name un)"
      by blast
    from dd have "dd (ascii ''user_name'') = Some (DamtomoVideoIE_user_name un)" by simp
    with 1[OF un] un show ?thesis by simp
  qed
  from 1 2 show ?thesis
    unfolding record_data_dict record_user_name record_scrape by blast
qed

text \<open>
  The page of the example, where the name is U+FF2E U+FF21 U+FF2E U+FF21, a space and the
  token, and the examples of the specification in a block of their own:
  U+7BB1 U+306E U+300C U+4E2D U+306E U+4EBA U+300D U+3055 U+3093 loses its last two
  characters, and U+FF2E U+FF21 U+FF2E U+FF21 stays.
\<close>

theorem suffix_stripped_witness:
  "DamtomoVideoIE_data_dict strip example_page (ascii ''user_name'') =
     Some [65326, 65313, 65326, 65313, 32, 12373, 12435] \<and>
   DamtomoVideoIE_user_name [65326, 65313, 65326, 65313, 32, 12373, 12435] =
     [65326, 65313, 65326, 65313] \<and>
   DamtomoRecordIE_user_name [65326, 65313, 65326, 65313, 32, 12373, 12435] =
     [65326, 65313, 65326, 65313] \<and>
   DamtomoVideoIE_data_dict strip
     (example_name_page [31665, 12398, 12300, 20013, 12398, 20154, 12301, 12373, 12435])
     (ascii ''user_name'') = Some [31665, 12398, 12300, 20013, 12398, 20154, 12301, 12373, 12435] \<and>
   DamtomoVideoIE_user_name [31665, 12398, 12300, 20013, 12398, 20154, 12301, 12373, 12435] =
     [31665, 12398, 12300, 20013, 12398, 20154, 12301] \<and>
   DamtomoRecordIE_user_name [31665, 12398, 12300, 20013, 12398, 20154, 12301, 12373, 12435] =
     [31665, 12398, 12300, 20013, 12398, 20154, 12301] \<and>
   DamtomoVideoIE_data_dict strip (example_name_page [65326, 65313, 65326, 65313])
     (ascii ''user_name'') = Some [65326, 65313, 65326, 65313] \<and>
   DamtomoVideoIE_user_name [65326, 65313, 65326, 65313] = [65326, 65313, 65326, 65313] \<and>
   DamtomoRecordIE_user_name [65326, 65313, 65326, 65313] = [65326, 65313, 65326, 65313]"
proof -
  have s: "\<forall>x. strip (strip x) = strip x" by (simp add: strip_idem)
  have e: "drop_polite_suffix [65326, 65313, 65326, 65313, 32, 12373, 12435] =
        [65326, 65313, 65326, 65313]"
    "drop_polite_suffix [31665, 12398, 12300, 20013, 12398, 20154, 12301, 12373, 12435] =
        [31665, 12398, 12300, 20013, 12398, 20154, 12301]"
    "drop_polite_suffix [65326, 65313, 65326, 65313] = [65326, 65313, 65326, 65313]"
    by (simp_all add: drop_polite_suffix_def rstrip_def suffix_to_prefix is_space_def)
  note a = suffix_stripped[OF s, of example_page]
  note b = suffix_stripped[OF s,
      of "example_name_page [31665, 12398, 12300, 20013, 12398, 20154, 12301, 12373, 12435]"]
  note c = suffix_stripped[OF s, of "example_name_page [65326, 65313, 65326, 65313]"]
  note d = example_data_dict_date(1) example_name_dict
  have "DamtomoVideoIE_user_name [65326, 65313, 65326, 65313, 32, 12373, 12435] =
     [65326, 65313, 65326, 65313]"
    using a[THEN conjunct1, rule_format, OF d(1)] by (simp only: e)
  moreover have "DamtomoRecordIE_user_name [65326, 65313, 65326, 65313, 32, 12373, 12435] =
     [65326, 65313, 65326, 65313]"
    using a[THEN conjunct2, THEN conjunct1, rule_format, OF d(1)[folded record_data_dict]]
    by (simp only: e)
  moreover have "DamtomoVideoIE_user_name [31665, 12398, 12300, 20013, 12398, 20154, 12301, 12373, 12435] =
     [31665, 12398, 12300, 20013, 12398, 20154, 12301]"
    using b[THEN conjunct1, rule_format, OF d(2)] by (simp only: e)
  moreover have "DamtomoRecordIE_user_name [31665, 12398, 12300, 20013, 12398, 20154, 12301, 12373, 12435] =
     [31665, 12398, 12300, 20013, 12398, 20154, 12301]"
    using b[THEN conjunct2, THEN conjunct1, rule_format, OF d(2)[folded record_data_dict]]
    by (simp only: e)
  moreover have "DamtomoVideoIE_user_name [65326, 65313, 65326, 65313] = [65326, 65313, 65326, 65313]"
    using c[THEN conjunct1, rule_format, OF d(3)] by (simp only: e)
  moreover have "DamtomoRecordIE_user_name [65326, 65313, 65326, 65313] = [65326, 65313, 65326, 65313]"
    using c[THEN conjunct2, THEN conjunct1, rule_format, OF d(3)[folded record_data_dict]]
    by (simp only: e)
  ultimately show ?thesis using d by simp
qed

end
